(* ===== verification/Prelude.thy ===== *)
theory Prelude
  imports Complex_Main "HOL-Library.Multiset" "HOL-Library.Char_ord" "HOL-Library.List_Lexorder"
    "HOL-Library.Product_Lexorder"
begin

text \<open>
  Shared vocabulary of the development: the lemma collections the component theories fill,
  the names of the model's basic types, and generic facts on lists and finite sets that
  several components use (descending sorted lists, counting distinct values above a bound,
  filtering and slicing).
\<close>

named_theorems js_simps "evaluation equations of the ECMAScript builtins the program calls"
named_theorems store_simps "field coercions of the record store"

type_synonym score = int
type_synonym name = string

subsection \<open>Descending order\<close>

text \<open>The program sorts by \<open>b - a\<close>: highest first. A list is descending by a key when the
  reversed key list is sorted.\<close>

definition sorted_desc :: "('a \<Rightarrow> int) \<Rightarrow> 'a list \<Rightarrow> bool" where
  "sorted_desc k xs \<longleftrightarrow> sorted_wrt (\<lambda>a b. k b \<le> k a) xs"

text \<open>\<open>Array.prototype.slice(a, b)\<close> with \<open>0 \<le> a \<le> b\<close> is \<open>take (b - a) (drop a xs)\<close>.\<close>

definition slice :: "'a list \<Rightarrow> nat \<Rightarrow> nat \<Rightarrow> 'a list" where
  "slice xs a b = take (b - a) (drop a xs)"

lemma sorted_desc_Nil [simp]: "sorted_desc k []"
  by (simp add: sorted_desc_def)

lemma sorted_desc_Cons [simp]:
  "sorted_desc k (x # xs) \<longleftrightarrow> (\<forall>y \<in> set xs. k y \<le> k x) \<and> sorted_desc k xs"
  by (simp add: sorted_desc_def)

lemma sorted_desc_sort_key_uminus: "sorted_desc k (sort_key (\<lambda>x. - k x) xs)"
proof -
  have "sorted (map (\<lambda>x. - k x) (sort_key (\<lambda>x. - k x) xs))" by simp
  then show ?thesis
    unfolding sorted_desc_def sorted_map by (simp add: sorted_wrt_iff_nth_less)
qed

subsection \<open>Distinct values in a half-open band\<close>

text \<open>The rank loop counts distinct scores; these are the finite-set facts it needs.\<close>

lemma card_band_insert_top:
  fixes v l :: int
  assumes "\<forall>y \<in> S. y \<le> t" "v \<le> t" "t < l" "finite S"
  shows "card (insert t S \<inter> {v..<l}) = Suc (card (S \<inter> {v..<t}))"
proof -
  have eq: "insert t S \<inter> {v..<l} = insert t (S \<inter> {v..<t})"
    using assms(1-3) by auto
  have "t \<notin> S \<inter> {v..<t}" by simp
  with eq assms(4) show ?thesis by simp
qed

lemma card_band_insert_out:
  fixes v l :: int
  shows "card (insert l S \<inter> {v..<l}) = card (S \<inter> {v..<l})"
proof -
  have "insert l S \<inter> {v..<l} = S \<inter> {v..<l}" by auto
  then show ?thesis by simp
qed

lemma card_above_eq_band:
  fixes v t :: int
  assumes "\<forall>y \<in> S. y \<le> t" "v \<le> t" "finite S" "v \<in> insert t S"
  shows "card {w \<in> insert t S. v < w} = card (S \<inter> {v..<t})"
proof (cases "v = t")
  case True
  with assms(1) have "{w \<in> insert t S. v < w} = {}" and "S \<inter> {v..<t} = {}" by auto
  then show ?thesis by (simp only: card.empty)
next
  case False
  with assms(2) have lt: "v < t" by simp
  with assms(4) have vS: "v \<in> S" by auto
  let ?A = "{w \<in> S. v < w \<and> w < t}"
  have up: "{w \<in> insert t S. v < w} = insert t ?A"
    using assms(1) lt by auto
  have band: "S \<inter> {v..<t} = insert v ?A"
    using vS lt by auto
  have fin: "finite ?A" using assms(3) by simp
  have "t \<notin> ?A" and "v \<notin> ?A" by auto
  with fin show ?thesis unfolding up band by (simp add: card_insert_disjoint del: Collect_conj_eq)
qed

subsection \<open>Slices\<close>


lemma length_slice [simp]: "length (slice xs a b) = min (b - a) (length xs - a)"
  by (simp add: slice_def)

lemma slice_append_adjacent:
  "a \<le> b \<Longrightarrow> b \<le> c \<Longrightarrow> slice xs a b @ slice xs b c = slice xs a c"
proof -
  assume ab: "a \<le> b" and bc: "b \<le> c"
  have "c - a = (b - a) + (c - b)" using ab bc by simp
  then have "take (c - a) (drop a xs) = take (b - a) (drop a xs) @ take (c - b) (drop (b - a) (drop a xs))"
    by (simp only: take_add)
  also have "drop (b - a) (drop a xs) = drop b xs" using ab by simp
  finally show ?thesis by (simp add: slice_def)
qed

subsection \<open>Stable sorts of lists that agree key by key\<close>

text \<open>Two lists with the same elements, and the same order among the elements of each key,
  sort to the same list.\<close>

lemma sort_key_eq_of_filters:
  fixes f :: "'a \<Rightarrow> 'k::linorder"
  assumes "mset xs = mset ys" and "\<And>k. filter (\<lambda>x. f x = k) xs = filter (\<lambda>x. f x = k) ys"
  shows "sort_key f xs = sort_key f ys"
proof (rule properties_for_sort_key)
  show "mset (sort_key f ys) = mset xs" using assms(1) by simp
  show "sorted (map f (sort_key f ys))" by simp
  fix k
  show "filter (\<lambda>x. f k = f x) (sort_key f ys) = filter (\<lambda>x. f k = f x) xs"
    using sort_key_stable [of f "f k" ys] assms(2) [of "f k"] by (simp add: eq_commute)
qed

lemma find_conv_filter: "find P xs = (case filter P xs of [] \<Rightarrow> None | x # _ \<Rightarrow> Some x)"
  by (induction xs) auto

lemma find_Some_mem: "find P xs = Some x \<Longrightarrow> x \<in> set xs \<and> P x"
  by (induction xs) (auto split: if_splits)


lemma Max_insert_absorb:
  fixes m a :: "'a::linorder"
  assumes "finite A" "a \<le> m"
  shows "Max (insert m (insert a A)) = Max (insert m A)"
proof -
  have "insert m (insert a A) = insert a (insert m A)" by auto
  then show ?thesis using assms by (simp add: max_def Max_ge order_trans)
qed
lemma Max_insert_above:
  fixes m a :: "'a::linorder"
  assumes "finite A" "m \<le> a"
  shows "Max (insert m (insert a A)) = Max (insert a A)"
proof -
  have "m \<le> Max (insert a A)" using assms by (meson Max_ge finite_insert insertI1 order_trans)
  then show ?thesis using assms by (simp add: max_def)
qed


lemma concat_slices:
  "concat (map (\<lambda>i. slice xs (i * k) (i * k + k)) [0..<m]) = take (m * k) xs"
proof (induction m)
  case 0
  then show ?case by simp
next
  case (Suc m)
  have "take (m * k + k) xs = take (m * k) xs @ take k (drop (m * k) xs)"
    by (rule take_add)
  then show ?case using Suc by (simp add: slice_def add.commute)
qed


lemma mset_concat_filter_Cons:
  "mset (concat (map (\<lambda>t. filter (P t) (x # xs)) ts)) =
     replicate_mset (length (filter (\<lambda>t. P t x) ts)) x + mset (concat (map (\<lambda>t. filter (P t) xs) ts))"
  by (induction ts) auto

end
