(* ===== verification/JsValues.thy ===== *)
theory JsValues
  imports Prelude
begin

text \<open>
  The ECMAScript builtins the program relies on, modelled from the language standard (they
  are not code of the repository): the values a spreadsheet cell arrives as, the
  conversions \<open>Number(v)\<close>, \<open>v || 0\<close> and \<open>String(v)\<close>, \<open>String.prototype.trim\<close>,
  and \<open>Array.prototype.sort\<close> with a comparator, which the standard requires to be
  stable since ES2019. Numbers are whole: the record store holds integer points, so a
  number is an \<open>int\<close> or \<open>NaN\<close>; fractional and exponent notation are outside the model.
\<close>

subsection \<open>Values and numbers\<close>

datatype jsval = JNum int | JStr string | JNull | JUndef

datatype jsnum = Num int | NaN

definition is_ws :: "char \<Rightarrow> bool" where
  "is_ws c \<longleftrightarrow> of_char c \<in> {9, 10, 11, 12, 13, 32 :: nat}"

definition is_digit :: "char \<Rightarrow> bool" where
  "is_digit c \<longleftrightarrow> 48 \<le> (of_char c :: nat) \<and> (of_char c :: nat) \<le> 57"

text \<open>\<open>String.prototype.trim\<close>: white space removed at both ends (ASCII white space).\<close>

definition js_trim :: "string \<Rightarrow> string" where
  "js_trim s = rev (dropWhile is_ws (rev (dropWhile is_ws s)))"

fun digits_val :: "nat \<Rightarrow> string \<Rightarrow> nat" where
  "digits_val acc [] = acc"
| "digits_val acc (c # cs) = digits_val (10 * acc + (of_char c - 48)) cs"

definition unsigned_num :: "string \<Rightarrow> jsnum" where
  "unsigned_num ds = (if ds \<noteq> [] \<and> list_all is_digit ds then Num (int (digits_val 0 ds)) else NaN)"

definition neg_num :: "jsnum \<Rightarrow> jsnum" where
  "neg_num x = (case x of Num n \<Rightarrow> Num (- n) | NaN \<Rightarrow> NaN)"

text \<open>\<open>Number(s)\<close> on a string: the trimmed text, empty meaning 0, an optional sign, decimal
  digits; anything else is \<open>NaN\<close>.\<close>

definition str_to_num :: "string \<Rightarrow> jsnum" where
  "str_to_num s =
     (let t = js_trim s in
      if t = [] then Num 0
      else if hd t = CHR ''+'' then unsigned_num (tl t)
      else if hd t = CHR ''-'' then neg_num (unsigned_num (tl t))
      else unsigned_num t)"

primrec js_number :: "jsval \<Rightarrow> jsnum" where
  "js_number (JNum n) = Num n"
| "js_number (JStr s) = str_to_num s"
| "js_number JNull = Num 0"
| "js_number JUndef = NaN"

text \<open>\<open>x || 0\<close> on a number: \<open>NaN\<close> and \<open>0\<close> are falsy and give 0.\<close>

primrec js_or0 :: "jsnum \<Rightarrow> int" where
  "js_or0 (Num n) = n"
| "js_or0 NaN = 0"

text \<open>\<open>Number(v) || 0\<close>, the coercion the program applies to every score field.\<close>

definition coerce :: "jsval \<Rightarrow> int" where
  "coerce v = js_or0 (js_number v)"

subsection \<open>Printing numbers and \<open>String(v)\<close>\<close>

fun nat_digits :: "nat \<Rightarrow> string" where
  "nat_digits n = (if n < 10 then [''0123456789'' ! n] else nat_digits (n div 10) @ [''0123456789'' ! (n mod 10)])"

declare nat_digits.simps [simp del]

definition int_to_string :: "int \<Rightarrow> string" where
  "int_to_string i = (if i < 0 then CHR ''-'' # nat_digits (nat (- i)) else nat_digits (nat i))"

primrec js_string :: "jsval \<Rightarrow> string" where
  "js_string (JNum n) = int_to_string n"
| "js_string (JStr s) = s"
| "js_string JNull = ''null''"
| "js_string JUndef = ''undefined''"

text \<open>Truthiness of a cell (\<open>x || ""\<close>, \<open>if (x)\<close>).\<close>

primrec js_truthy :: "jsval \<Rightarrow> bool" where
  "js_truthy (JNum n) \<longleftrightarrow> n \<noteq> 0"
| "js_truthy (JStr s) \<longleftrightarrow> s \<noteq> []"
| "js_truthy JNull \<longleftrightarrow> False"
| "js_truthy JUndef \<longleftrightarrow> False"

subsection \<open>\<open>Array.prototype.sort\<close> with a comparator\<close>

text \<open>
  A comparator returns a number; the standard reads \<open>NaN\<close> as 0 and sorts stably. For a
  consistent comparator the stable sorted permutation is unique, so any stable algorithm
  models it; insertion from the left, each element placed after every element it does not
  precede, is the one used here.
\<close>

fun js_insert :: "('a \<Rightarrow> 'a \<Rightarrow> int) \<Rightarrow> 'a \<Rightarrow> 'a list \<Rightarrow> 'a list" where
  "js_insert c x [] = [x]"
| "js_insert c x (y # ys) = (if c x y < 0 then x # y # ys else y # js_insert c x ys)"

definition js_sort :: "('a \<Rightarrow> 'a \<Rightarrow> int) \<Rightarrow> 'a list \<Rightarrow> 'a list" where
  "js_sort c xs = foldl (\<lambda>acc x. js_insert c x acc) [] xs"

text \<open>The comparator's \<open>NaN\<close> result read as 0, as \<open>SortCompare\<close> does.\<close>

definition cmp_of :: "jsnum \<Rightarrow> int" where
  "cmp_of r = (case r of Num n \<Rightarrow> n | NaN \<Rightarrow> 0)"

subsection \<open>Enumeration order of an object's keys\<close>

text \<open>
  An object used as a dictionary is an association list in insertion order. \<open>for-in\<close>
  enumerates it as \<open>OrdinaryOwnPropertyKeys\<close> does: keys that are array indices
  (canonical decimal numerals below \<open>2^32 - 1\<close>) first, in ascending numeric order, then
  the other keys in insertion order.
\<close>

definition is_array_index :: "string \<Rightarrow> bool" where
  "is_array_index k \<longleftrightarrow> k \<noteq> [] \<and> list_all is_digit k \<and> (k = ''0'' \<or> hd k \<noteq> CHR ''0'')
     \<and> digits_val 0 k < 2 ^ 32 - 1"

definition js_object_order :: "(string \<times> 'v) list \<Rightarrow> (string \<times> 'v) list" where
  "js_object_order ps =
     sort_key (\<lambda>p. digits_val 0 (fst p)) (filter (\<lambda>p. is_array_index (fst p)) ps)
     @ filter (\<lambda>p. \<not> is_array_index (fst p)) ps"

subsection \<open>Objects as dictionaries of arrays\<close>

text \<open>\<open>if (!obj[k]) obj[k] = []; obj[k].push(v)\<close> on an object kept as an association
  list in insertion order.\<close>

fun obj_push :: "'k \<Rightarrow> 'v \<Rightarrow> ('k \<times> 'v list) list \<Rightarrow> ('k \<times> 'v list) list" where
  "obj_push k v [] = [(k, [v])]"
| "obj_push k v ((k', vs) # rest) =
     (if k' = k then (k', vs @ [v]) # rest else (k', vs) # obj_push k v rest)"

text \<open>A dictionary built this way is well formed: every key once, no empty array.\<close>

definition obj_wf :: "('k \<times> 'v list) list \<Rightarrow> bool" where
  "obj_wf ps \<longleftrightarrow> distinct (map fst ps) \<and> [] \<notin> snd ` set ps"

subsection \<open>Division and clamping on doubles\<close>

text \<open>
  Where a quotient of integers can divide by zero the program's arithmetic leaves the
  integers: \<open>x / 0\<close> is \<open>Infinity\<close>, \<open>-Infinity\<close> or \<open>NaN\<close>, and
  \<open>Math.max\<close>/\<open>Math.min\<close> propagate \<open>NaN\<close>. A finite quotient of integers is exact in
  \<open>rat\<close> (the rounding of doubles is not modelled).
\<close>

datatype xnum = XFin rat | XPosInf | XNegInf | XNaN

definition js_div :: "rat \<Rightarrow> rat \<Rightarrow> xnum" where
  "js_div a b = (if b = 0 then (if 0 < a then XPosInf else if a < 0 then XNegInf else XNaN) else XFin (a / b))"

primrec js_mul :: "xnum \<Rightarrow> rat \<Rightarrow> xnum" where
  "js_mul (XFin x) c = XFin (x * c)"
| "js_mul XPosInf c = (if 0 < c then XPosInf else if c < 0 then XNegInf else XNaN)"
| "js_mul XNegInf c = (if 0 < c then XNegInf else if c < 0 then XPosInf else XNaN)"
| "js_mul XNaN c = XNaN"

text \<open>\<open>Math.max(c, x)\<close> and \<open>Math.min(c, x)\<close> for a finite constant \<open>c\<close>.\<close>

primrec js_max :: "rat \<Rightarrow> xnum \<Rightarrow> xnum" where
  "js_max c (XFin x) = XFin (max c x)"
| "js_max c XPosInf = XPosInf"
| "js_max c XNegInf = XFin c"
| "js_max c XNaN = XNaN"

primrec js_min :: "rat \<Rightarrow> xnum \<Rightarrow> xnum" where
  "js_min c (XFin x) = XFin (min c x)"
| "js_min c XPosInf = XFin c"
| "js_min c XNegInf = XNegInf"
| "js_min c XNaN = XNaN"

subsection \<open>Evaluation\<close>

declare is_ws_def [js_simps] is_digit_def [js_simps] js_trim_def [js_simps]
  unsigned_num_def [js_simps] neg_num_def [js_simps] str_to_num_def [js_simps]
  coerce_def [js_simps] int_to_string_def [js_simps] nat_digits.simps [js_simps]
  js_sort_def [js_simps] cmp_of_def [js_simps] is_array_index_def [js_simps]
  js_object_order_def [js_simps] js_div_def [js_simps]

subsection \<open>The sort is stable and agrees with \<open>sort_key\<close>\<close>

text \<open>Whenever the comparator is negative exactly when a key is smaller, the JavaScript sort
  is Isabelle's stable \<open>sort_key\<close> on that key; each call site only has to show its
  comparator has this form.\<close>

lemma mset_js_insert: "mset (js_insert c x ys) = add_mset x (mset ys)"
  by (induction ys) auto

lemma mset_js_sort [simp]: "mset (js_sort c xs) = mset xs"
proof (induction xs rule: rev_induct)
  case Nil show ?case by (simp add: js_sort_def)
next
  case (snoc x xs) then show ?case by (simp add: js_sort_def mset_js_insert)
qed

lemma set_js_sort [simp]: "set (js_sort c xs) = set xs"
  by (metis mset_js_sort set_mset_mset)

lemma set_js_insert: "set (js_insert c x ys) = insert x (set ys)"
  by (induction ys) auto

lemma sorted_js_insert:
  fixes k :: "'a \<Rightarrow> 'k::linorder"
  assumes key: "\<forall>a \<in> A. \<forall>b \<in> A. c a b < 0 \<longleftrightarrow> k a < k b" and x: "x \<in> A"
  shows "set ys \<subseteq> A \<Longrightarrow> sorted (map k ys) \<Longrightarrow> sorted (map k (js_insert c x ys))"
proof (induction ys)
  case Nil then show ?case by simp
next
  case (Cons y ys)
  have cxy: "c x y < 0 \<longleftrightarrow> k x < k y" using key x Cons.prems(1) by simp
  show ?case
  proof (cases "k x < k y")
    case True
    with Cons.prems cxy show ?thesis by auto
  next
    case False
    with Cons cxy show ?thesis by (auto simp: set_js_insert)
  qed
qed

lemma filter_js_insert:
  fixes k :: "'a \<Rightarrow> 'k::linorder"
  assumes key: "\<forall>a \<in> A. \<forall>b \<in> A. c a b < 0 \<longleftrightarrow> k a < k b" and x: "x \<in> A"
  shows "set ys \<subseteq> A \<Longrightarrow> sorted (map k ys) \<Longrightarrow>
    filter (\<lambda>y. k z = k y) (js_insert c x ys) =
      filter (\<lambda>y. k z = k y) ys @ (if k z = k x then [x] else [])"
proof (induction ys)
  case Nil then show ?case by simp
next
  case (Cons y ys)
  have cxy: "c x y < 0 \<longleftrightarrow> k x < k y" using key x Cons.prems(1) by simp
  show ?case
  proof (cases "k x < k y")
    case True
    have "\<forall>w \<in> set (y # ys). k x < k w"
      using True Cons.prems by auto
    then have "filter (\<lambda>w. k x = k w) (y # ys) = []" by (auto simp: filter_empty_conv)
    with True cxy show ?thesis by auto
  next
    case False
    with Cons cxy show ?thesis by auto
  qed
qed

lemma js_sort_snoc: "js_sort c (xs @ [x]) = js_insert c x (js_sort c xs)"
  by (simp add: js_sort_def)

lemma sorted_js_sort:
  fixes k :: "'a \<Rightarrow> 'k::linorder"
  assumes key: "\<forall>a \<in> A. \<forall>b \<in> A. c a b < 0 \<longleftrightarrow> k a < k b"
  shows "set xs \<subseteq> A \<Longrightarrow> sorted (map k (js_sort c xs))"
proof (induction xs rule: rev_induct)
  case Nil then show ?case by (simp add: js_sort_def)
next
  case (snoc x xs)
  then show ?case by (simp add: js_sort_snoc sorted_js_insert [OF key])
qed

lemma filter_js_sort:
  fixes k :: "'a \<Rightarrow> 'k::linorder"
  assumes key: "\<forall>a \<in> A. \<forall>b \<in> A. c a b < 0 \<longleftrightarrow> k a < k b"
  shows "set xs \<subseteq> A \<Longrightarrow> filter (\<lambda>y. k z = k y) (js_sort c xs) = filter (\<lambda>y. k z = k y) xs"
proof (induction xs rule: rev_induct)
  case Nil then show ?case by (simp add: js_sort_def)
next
  case (snoc x xs)
  then have A: "set xs \<subseteq> A" "x \<in> A" by auto
  have "filter (\<lambda>y. k z = k y) (js_sort c (xs @ [x])) =
      filter (\<lambda>y. k z = k y) (js_sort c xs) @ (if k z = k x then [x] else [])"
    using A by (simp only: js_sort_snoc filter_js_insert [OF key A(2)] sorted_js_sort [OF key] set_js_sort)
  with snoc A show ?case by simp
qed

text \<open>The comparator need only agree with the key on the elements sorted: a comparator
  that returns \<open>NaN\<close> on some values still sorts a list free of them by the key.\<close>

lemma js_sort_eq_sort_key_on:
  fixes k :: "'a \<Rightarrow> 'k::linorder"
  assumes key: "\<forall>a \<in> set xs. \<forall>b \<in> set xs. c a b < 0 \<longleftrightarrow> k a < k b"
  shows "js_sort c xs = sort_key k xs"
proof -
  have "sort_key k xs = js_sort c xs"
    by (rule properties_for_sort_key)
      (simp_all add: mset_js_sort sorted_js_sort [OF key] filter_js_sort [OF key])
  then show ?thesis by simp
qed

theorem js_sort_eq_sort_key:
  fixes k :: "'a \<Rightarrow> 'k::linorder"
  assumes key: "\<forall>a b. c a b < 0 \<longleftrightarrow> k a < k b"
  shows "js_sort c xs = sort_key k xs"
  using key by (intro js_sort_eq_sort_key_on) simp

subsection \<open>Printing and reading back integers\<close>

lemma of_char_digit_char:
  "d < 10 \<Longrightarrow> of_char (''0123456789'' ! d) = (48 + d :: nat)"
  by (auto simp: less_Suc_eq numeral_eq_Suc)

lemma digits_val_snoc: "digits_val acc (xs @ [c]) = 10 * digits_val acc xs + (of_char c - 48)"
  by (induction xs arbitrary: acc) auto

lemma nat_digits_props:
  "nat_digits n \<noteq> [] \<and> list_all is_digit (nat_digits n) \<and> digits_val 0 (nat_digits n) = n"
proof (induction n rule: nat_digits.induct)
  case (1 n)
  show ?case
  proof (cases "n < 10")
    case True
    then show ?thesis
      by (simp add: nat_digits.simps [of n] is_digit_def of_char_digit_char)
  next
    case False
    then have IH: "nat_digits (n div 10) \<noteq> [] \<and> list_all is_digit (nat_digits (n div 10)) \<and>
        digits_val 0 (nat_digits (n div 10)) = n div 10" using "1.IH" by simp
    have d: "of_char (''0123456789'' ! (n mod 10)) = (48 + n mod 10 :: nat)"
      by (simp add: of_char_digit_char)
    have dig: "is_digit (''0123456789'' ! (n mod 10))"
      using d by (simp add: is_digit_def)
    from False IH d dig show ?thesis
      by (simp add: nat_digits.simps [of n] digits_val_snoc)
  qed
qed

lemma is_digit_not_ws: "is_digit c \<Longrightarrow> \<not> is_ws c"
  by (auto simp: is_digit_def is_ws_def)

lemma js_trim_digits:
  assumes "xs \<noteq> []" "list_all is_digit xs"
  shows "js_trim xs = xs" and "js_trim (CHR ''-'' # xs) = CHR ''-'' # xs"
proof -
  have l: "\<not> is_ws (last xs)" using assms by (simp add: list_all_iff is_digit_not_ws)
  have h: "\<not> is_ws (hd xs)" using assms by (cases xs) (simp_all add: is_digit_not_ws)
  have m: "\<not> is_ws (CHR ''-'')" by (simp add: is_ws_def)
  have r: "dropWhile is_ws (rev xs) = rev xs" using l assms by (cases "rev xs") auto
  have r2: "dropWhile is_ws (rev (CHR ''-'' # xs)) = rev (CHR ''-'' # xs)" using l assms by (cases "rev xs") auto
  have d: "dropWhile is_ws xs = xs" using h assms by (cases xs) auto
  show "js_trim xs = xs" by (simp add: js_trim_def d r)
  show "js_trim (CHR ''-'' # xs) = CHR ''-'' # xs" using r2 m by (simp add: js_trim_def)
qed

theorem str_to_num_int_to_string: "str_to_num (int_to_string i) = Num i"
proof (cases "i < 0")
  case True
  let ?ds = "nat_digits (nat (- i))"
  from nat_digits_props have p: "?ds \<noteq> []" "list_all is_digit ?ds" "digits_val 0 ?ds = nat (- i)" by auto
  have "hd ?ds \<noteq> CHR ''+''" using p by (cases ?ds) (auto simp: is_digit_def)
  with True p show ?thesis
    by (simp add: int_to_string_def str_to_num_def js_trim_digits unsigned_num_def neg_num_def)
next
  case False
  let ?ds = "nat_digits (nat i)"
  from nat_digits_props have p: "?ds \<noteq> []" "list_all is_digit ?ds" "digits_val 0 ?ds = nat i" by auto
  have "hd ?ds \<noteq> CHR ''+'' \<and> hd ?ds \<noteq> CHR ''-''" using p by (cases ?ds) (auto simp: is_digit_def)
  with False p show ?thesis
    by (simp add: int_to_string_def str_to_num_def js_trim_digits unsigned_num_def)
qed
subsection \<open>Key enumeration is a permutation\<close>

lemma mset_js_object_order [simp]: "mset (js_object_order ps) = mset ps"
  by (simp add: js_object_order_def)

lemma set_js_object_order [simp]: "set (js_object_order ps) = set ps"
  by (metis mset_js_object_order set_mset_mset)

subsection \<open>Pushing into an object\<close>

lemma map_of_obj_push:
  "map_of (obj_push k v ps) = (map_of ps)(k \<mapsto> (case map_of ps k of None \<Rightarrow> [v] | Some vs \<Rightarrow> vs @ [v]))"
  by (induction ps rule: obj_push.induct) (auto simp: fun_eq_iff)

lemma keys_obj_push:
  "map fst (obj_push k v ps) = (if k \<in> set (map fst ps) then map fst ps else map fst ps @ [k])"
  by (induction ps rule: obj_push.induct) auto

lemma obj_wf_obj_push: "obj_wf ps \<Longrightarrow> obj_wf (obj_push k v ps)"
  by (induction ps rule: obj_push.induct) (auto simp: obj_wf_def keys_obj_push)

lemma obj_wf_js_object_order: "obj_wf ps \<Longrightarrow> obj_wf (js_object_order ps)"
proof -
  have "mset (map fst (js_object_order ps)) = mset (map fst ps)" by simp
  then have "distinct (map fst (js_object_order ps)) = distinct (map fst ps)"
    by (rule mset_eq_imp_distinct_iff)
  then show "obj_wf ps \<Longrightarrow> obj_wf (js_object_order ps)" by (simp add: obj_wf_def)
qed

lemma mset_obj_push:
  "mset (concat (map snd (obj_push k v ps))) = add_mset v (mset (concat (map snd ps)))"
  by (induction ps rule: obj_push.induct) auto

text \<open>Filling an object by pushing every element that has a key: each key holds, in
  order, the elements that have it.\<close>

lemma map_of_foldl_obj_push:
  "map_of (foldl (\<lambda>m x. case f x of None \<Rightarrow> m | Some k \<Rightarrow> obj_push k (g x) m) [] xs) k =
     (if filter (\<lambda>x. f x = Some k) xs = [] then None else Some (map g (filter (\<lambda>x. f x = Some k) xs)))"
proof (induction xs arbitrary: k rule: rev_induct)
  case Nil
  then show ?case by simp
next
  case (snoc x xs)
  show ?case
    using snoc.IH [of k] by (auto simp: map_of_obj_push split: option.splits if_splits)
qed

end
