(* ===== verification/Store.thy ===== *)
theory Store
  imports JsValues
begin

text \<open>
  The record store of \<open>src/script.js\<close>: the snapshot \<open>callApi('getInitialData')\<close> returns,
  whose arrays the program keeps in the globals \<open>allStudents\<close>, \<open>allGifts\<close>,
  \<open>titleConfig\<close>, \<open>allLogs\<close>, \<open>monthlyKings\<close> and \<open>allGroups\<close>. Rows arrive from
  a spreadsheet, so a numeric or text cell is a \<^typ>\<open>jsval\<close>; the program coerces
  it where it reads it, and these coercions are defined here once: \<open>Number(x) || 0\<close> for
  scores, \<open>String(x).trim()\<close> for group names, with \<open>|| "\<dots>"\<close> defaulting an empty
  group to the label "unassigned" (Chinese in the source, kept here as its UTF-8 bytes).
  The source's Chinese column keys are written by their meaning: \<open>name\<close>, \<open>group\<close>,
  \<open>total\<close> (current-period score), \<open>cumulative\<close>, \<open>monthly\<close>, \<open>image\<close>; for gifts
  \<open>gift_name\<close>, \<open>required\<close> (score), \<open>quantity\<close>.
  Title thresholds are numbers in the store (a \<open>NaN\<close> threshold would make the
  program's comparators inconsistent, which the model leaves out).
\<close>

record student =
  stu_name :: string
  stu_group :: jsval
  stu_total :: jsval
  stu_cumulative :: jsval
  stu_monthly :: jsval
  stu_image :: jsval

record title_rule =
  rule_score :: int
  rule_title :: string

record title_config =
  tc_enabled :: bool
  tc_rules :: "title_rule list"

record gift =
  gift_name :: string
  gift_score :: jsval
  gift_qty :: jsval

record log_entry =
  log_student :: string
  log_score :: jsval
  log_item :: string
  log_time :: int
  log_teacher :: string
  log_row :: int

definition unassigned_label :: string where
  "unassigned_label = map char_of [230, 156, 170, 229, 136, 134, 231, 181, 132 :: nat]"

text \<open>\<open>Number(stu.cumulative) || 0\<close>, \<open>Number(stu.total) || 0\<close>,
  \<open>Number(s.monthly) || 0\<close>.\<close>

definition cum_score :: "student \<Rightarrow> int" where
  "cum_score s = coerce (stu_cumulative s)"

definition total_score :: "student \<Rightarrow> int" where
  "total_score s = coerce (stu_total s)"

definition month_score :: "student \<Rightarrow> int" where
  "month_score s = coerce (stu_monthly s)"

text \<open>\<open>String(s.group).trim()\<close>, and the same with \<open>|| "unassigned"\<close>.\<close>

definition group_trim :: "student \<Rightarrow> string" where
  "group_trim s = js_trim (js_string (stu_group s))"

definition group_key :: "student \<Rightarrow> string" where
  "group_key s = (let g = group_trim s in if g = [] then unassigned_label else g)"

text \<open>The members of a group as \<open>getGroupRankings\<close> buckets them: by group key, in store
  order.\<close>

definition group_members :: "student list \<Rightarrow> string \<Rightarrow> student list" where
  "group_members xs g = filter (\<lambda>s. group_key s = g) xs"

declare cum_score_def [store_simps] total_score_def [store_simps] month_score_def [store_simps]
  group_trim_def [store_simps] group_key_def [store_simps] unassigned_label_def [store_simps]
  group_members_def [store_simps]

lemma group_key_nonempty: "group_key s \<noteq> []"
  by (simp add: group_key_def unassigned_label_def Let_def)

end
