(* ===== verification/Ranking.thy ===== *)
theory Ranking
  imports Store
begin

text \<open>
  The rank calculator, \<open>getGroupRankings\<close> of \<open>src/script.js\<close>: students are bucketed by
  their group key into an object, each bucket is sorted by cumulative score, highest first,
  and a loop hands out dense ranks, writing \<open>rankMap[name] = cur\<close> for every student.
  \<open>renderStudents\<close> reads the map to award the three medals.
  The main results: the loop computes the dense rank, one more than the number of distinct
  higher scores in the group (refinement against \<open>dense_rank\<close>); the map is
  therefore independent of the order of the input; the best score of a group is rank 1.
\<close>

subsection \<open>Bucketing: \<open>if (!groups[g]) groups[g] = []; groups[g].push(s)\<close>\<close>

definition group_students :: "student list \<Rightarrow> (string \<times> student list) list" where
  "group_students xs = foldl (\<lambda>gs s. obj_push (group_key s) s gs) [] xs"

subsection \<open>Sorting and the dense-rank loop\<close>

text \<open>\<open>(a, b) => (Number(b.cumulative) || 0) - (Number(a.cumulative) || 0)\<close>\<close>

definition rank_cmp :: "student \<Rightarrow> student \<Rightarrow> int" where
  "rank_cmp a b = cum_score b - cum_score a"

text \<open>
  \<open>let cur = 1, last = -1; groups[g].forEach((s, i) => { \<dots> })\<close>: the index \<open>i\<close>, the
  current rank and the last score are the loop state; the output is the sequence of
  assignments \<open>rankMap[s.name] = cur\<close> in order.
\<close>

fun rank_loop :: "nat \<Rightarrow> nat \<Rightarrow> int \<Rightarrow> student list \<Rightarrow> (string \<times> nat) list" where
  "rank_loop i cur last_sc [] = []"
| "rank_loop i cur last_sc (s # ss) =
     (let sc = cum_score s in
      if i = 0 then (stu_name s, cur) # rank_loop (Suc i) cur sc ss
      else if sc < last_sc then (stu_name s, Suc cur) # rank_loop (Suc i) (Suc cur) sc ss
      else (stu_name s, cur) # rank_loop (Suc i) cur last_sc ss)"

definition rank_group :: "student list \<Rightarrow> (string \<times> nat) list" where
  "rank_group ss = rank_loop 0 1 (-1) (js_sort rank_cmp ss)"

text \<open>The assignments into \<open>rankMap\<close>: a later one overwrites an earlier one.\<close>

definition assign_ranks :: "(string \<rightharpoonup> nat) \<Rightarrow> (string \<times> nat) list \<Rightarrow> (string \<rightharpoonup> nat)" where
  "assign_ranks m rs = foldl (\<lambda>m (n, r). m(n \<mapsto> r)) m rs"

text \<open>\<open>for (const g in groups)\<close>: the buckets in the object's key order.\<close>

definition get_group_rankings :: "student list \<Rightarrow> (string \<rightharpoonup> nat)" where
  "get_group_rankings xs =
     foldl (\<lambda>m (g, ss). assign_ranks m (rank_group ss)) Map.empty (js_object_order (group_students xs))"

subsection \<open>Medals\<close>

datatype medal = Gold | Silver | Bronze

text \<open>\<open>if (myRank === 1) \<dots> 'gold' \<dots> else if (myRank === 2) \<dots> 'silver' \<dots> else if
  (myRank === 3) \<dots> 'bronze'\<close>; a student missing from the map gets none.\<close>

definition medal_of :: "(string \<rightharpoonup> nat) \<Rightarrow> string \<Rightarrow> medal option" where
  "medal_of rank_map n =
     (case rank_map n of
        Some r \<Rightarrow> (if r = 1 then Some Gold else if r = 2 then Some Silver
                  else if r = 3 then Some Bronze else None)
      | None \<Rightarrow> None)"

subsection \<open>The abstract specification\<close>

text \<open>Dense ranking: one more than the number of distinct scores above one's own in the
  group. The specification of the whole map pairs every student with that rank.\<close>

definition dense_rank :: "student list \<Rightarrow> student \<Rightarrow> nat" where
  "dense_rank grp s = Suc (card {v \<in> cum_score ` set grp. cum_score s < v})"

definition rankings_spec :: "student list \<Rightarrow> (string \<rightharpoonup> nat)" where
  "rankings_spec xs = map_of (map (\<lambda>s. (stu_name s, dense_rank (group_members xs (group_key s)) s)) xs)"

lemma rank_sort: "js_sort rank_cmp ss = sort_key (\<lambda>s. - cum_score s) ss"
  by (rule js_sort_eq_sort_key) (auto simp: rank_cmp_def)

lemma rank_loop_band:
  "sorted_desc cum_score ss \<Longrightarrow> \<forall>y \<in> set ss. cum_score y \<le> last_sc \<Longrightarrow>
   rank_loop (Suc i) cur last_sc ss =
     map (\<lambda>s. (stu_name s, cur + card (cum_score ` set ss \<inter> {cum_score s..<last_sc}))) ss"
proof (induction ss arbitrary: i cur last_sc)
  case Nil
  then show ?case by simp
next
  case (Cons s ss)
  let ?S = "cum_score ` set ss"
  have below: "\<forall>y \<in> set ss. cum_score y \<le> cum_score s" and sd: "sorted_desc cum_score ss"
    using Cons.prems(1) by auto
  have fin: "finite ?S" by simp
  have Sb: "\<forall>v \<in> ?S. v \<le> cum_score s" using below by auto
  show ?case
  proof (cases "cum_score s < last_sc")
    case True
    have IH: "rank_loop (Suc (Suc i)) (Suc cur) (cum_score s) ss =
        map (\<lambda>y. (stu_name y, Suc cur + card (?S \<inter> {cum_score y..<cum_score s}))) ss"
      using Cons.IH [OF sd below] .
    have hd: "card (insert (cum_score s) ?S \<inter> {cum_score s..<last_sc}) = Suc 0"
      using card_band_insert_top [OF Sb _ True fin, of "cum_score s"] by simp
    have tl: "\<And>y. y \<in> set ss \<Longrightarrow>
        card (insert (cum_score s) ?S \<inter> {cum_score y..<last_sc}) = Suc (card (?S \<inter> {cum_score y..<cum_score s}))"
      using card_band_insert_top [OF Sb _ True fin] below by simp
    show ?thesis using True IH hd tl by (simp add: Let_def)
  next
    case False
    with Cons.prems(2) have eq: "cum_score s = last_sc" by simp
    have IH: "rank_loop (Suc (Suc i)) cur last_sc ss =
        map (\<lambda>y. (stu_name y, cur + card (?S \<inter> {cum_score y..<last_sc}))) ss"
      using Cons.IH [OF sd] below eq by simp
    show ?thesis using False IH eq by (simp add: Let_def card_band_insert_out)
  qed
qed

lemma rank_group_eq:
  "rank_group ss = map (\<lambda>s. (stu_name s, dense_rank ss s)) (js_sort rank_cmp ss)"
proof (cases "sort_key (\<lambda>s. - cum_score s) ss")
  case Nil
  then show ?thesis by (simp add: rank_group_def rank_sort)
next
  case (Cons z zs)
  let ?S = "cum_score ` set zs"
  have sd: "sorted_desc cum_score (z # zs)"
    using sorted_desc_sort_key_uminus [of cum_score ss] Cons by simp
  then have below: "\<forall>y \<in> set zs. cum_score y \<le> cum_score z" and sdt: "sorted_desc cum_score zs"
    by auto
  have Sb: "\<forall>v \<in> ?S. v \<le> cum_score z" using below by auto
  have set_ss: "set ss = insert z (set zs)"
    using Cons by (metis list.simps(15) set_sort)
  have img: "cum_score ` set ss = insert (cum_score z) ?S" by (simp add: set_ss)
  have rk: "\<And>y. y \<in> set (z # zs) \<Longrightarrow> dense_rank ss y = Suc (card (?S \<inter> {cum_score y..<cum_score z}))"
  proof -
    fix y assume y: "y \<in> set (z # zs)"
    then have "cum_score y \<le> cum_score z" and "cum_score y \<in> insert (cum_score z) ?S"
      using below by auto
    then show "dense_rank ss y = Suc (card (?S \<inter> {cum_score y..<cum_score z}))"
      using card_above_eq_band [OF Sb _ _] by (simp add: dense_rank_def img)
  qed
  have loop: "rank_loop 1 1 (cum_score z) zs =
      map (\<lambda>y. (stu_name y, 1 + card (?S \<inter> {cum_score y..<cum_score z}))) zs"
    using rank_loop_band [OF sdt below, of 0 1] by simp
  have "rank_group ss = (stu_name z, 1) # rank_loop 1 1 (cum_score z) zs"
    by (simp add: rank_group_def rank_sort Cons)
  also have "\<dots> = map (\<lambda>s. (stu_name s, dense_rank ss s)) (z # zs)"
    using loop rk by simp
  finally show ?thesis by (simp add: rank_sort Cons)
qed

lemma group_students_snoc:
  "group_students (xs @ [x]) = obj_push (group_key x) x (group_students xs)"
  by (simp add: group_students_def)

lemma group_students_keys:
  "distinct (map fst (group_students xs)) \<and> set (map fst (group_students xs)) = group_key ` set xs"
proof (induction xs rule: rev_induct)
  case Nil then show ?case by (simp add: group_students_def)
next
  case (snoc x xs) then show ?case by (auto simp: group_students_snoc keys_obj_push)
qed

lemma map_of_group_students:
  "map_of (group_students xs) g = (if g \<in> group_key ` set xs then Some (group_members xs g) else None)"
proof (induction xs arbitrary: g rule: rev_induct)
  case Nil then show ?case by (simp add: group_students_def)
next
  case (snoc x xs)
  show ?case
    using snoc.IH [of g] snoc.IH [of "group_key x"]
    by (auto simp: group_students_snoc map_of_obj_push group_members_def filter_empty_conv image_iff
        split: option.splits if_splits)
qed

lemma mset_group_students: "mset (concat (map snd (group_students xs))) = mset xs"
proof (induction xs rule: rev_induct)
  case Nil then show ?case by (simp add: group_students_def)
next
  case (snoc x xs) then show ?case by (simp add: group_students_snoc mset_obj_push)
qed

lemma mem_group_students:
  "(g, ss) \<in> set (group_students xs) \<longleftrightarrow> g \<in> group_key ` set xs \<and> ss = group_members xs g"
proof -
  have d: "distinct (map fst (group_students xs))" using group_students_keys by blast
  show ?thesis
    using map_of_group_students [of xs g] map_of_SomeD [of "group_students xs" g]
      map_of_is_SomeI [OF d, of g ss]
    by (auto split: if_splits)
qed

lemma obj_wf_group_students: "obj_wf (group_students xs)"
proof (induction xs rule: rev_induct)
  case Nil then show ?case by (simp add: group_students_def obj_wf_def)
next
  case (snoc x xs) then show ?case by (simp add: group_students_snoc obj_wf_obj_push)
qed

lemma assign_ranks_eq: "assign_ranks m rs = m ++ map_of (rev rs)"
  unfolding assign_ranks_def
  by (induction rs arbitrary: m) (auto simp: map_add_upd_left fun_eq_iff map_add_def split: option.splits)

lemma foldl_assign_ranks:
  "foldl (\<lambda>m (g, ss). assign_ranks m (rank_group ss)) m0 ps =
     m0 ++ map_of (rev (concat (map (\<lambda>(g, ss). rank_group ss) ps)))"
  by (induction ps arbitrary: m0) (auto simp: assign_ranks_eq)


lemma mset_concat_perm:
  "mset ps = mset qs \<Longrightarrow> mset (concat (map f ps)) = mset (concat (map f qs))"
  by (simp add: mset_concat flip: sum_mset_sum_list)

lemma mset_rank_names:
  "mset (map fst (concat (map (\<lambda>(g, ss). rank_group ss) gs))) = image_mset stu_name (mset (concat (map snd gs)))"
  by (induction gs) (auto simp: rank_group_eq mset_js_sort multiset.map_comp comp_def)

lemma dense_rank_set: "set a = set b \<Longrightarrow> dense_rank a s = dense_rank b s"
  by (simp add: dense_rank_def)

lemma mset_rank_keys:
  "mset (map fst (concat (map (\<lambda>(g, ss). rank_group ss) (js_object_order (group_students xs)))))
     = mset (map stu_name xs)"
proof -
  let ?gs = "js_object_order (group_students xs)"
  have perm: "mset (concat (map snd ?gs)) = mset (concat (map snd (group_students xs)))"
    by (rule mset_concat_perm) simp
  show ?thesis
    using mset_rank_names [of ?gs] by (simp only: perm mset_group_students mset_map)
qed

lemma dense_rank_le_iff:
  assumes "t \<in> set grp"
  shows "dense_rank grp s \<le> dense_rank grp t \<longleftrightarrow> cum_score t \<le> cum_score s"
proof
  assume le: "cum_score t \<le> cum_score s"
  have "{v \<in> cum_score ` set grp. cum_score s < v} \<subseteq> {v \<in> cum_score ` set grp. cum_score t < v}"
    using le by auto
  then show "dense_rank grp s \<le> dense_rank grp t"
    by (simp add: dense_rank_def card_mono)
next
  assume rk: "dense_rank grp s \<le> dense_rank grp t"
  show "cum_score t \<le> cum_score s"
  proof (rule ccontr)
    assume "\<not> cum_score t \<le> cum_score s"
    then have lt: "cum_score s < cum_score t" by simp
    have "{v \<in> cum_score ` set grp. cum_score t < v} \<subset> {v \<in> cum_score ` set grp. cum_score s < v}"
      using lt assms by auto
    then have "dense_rank grp t < dense_rank grp s"
      by (simp add: dense_rank_def psubset_card_mono)
    with rk show False by simp
  qed
qed

lemma dense_rank_pred:
  assumes "1 < dense_rank grp s"
  shows "\<exists>t \<in> set grp. cum_score s < cum_score t \<and> dense_rank grp t = dense_rank grp s - 1"
proof -
  let ?S = "cum_score ` set grp"
  let ?A = "{v \<in> ?S. cum_score s < v}"
  have fin: "finite ?A" by simp
  have ne: "?A \<noteq> {}"
  proof
    assume "?A = {}"
    with assms show False by (simp only: dense_rank_def card.empty)
  qed
  let ?m = "Min ?A"
  have mA: "?m \<in> ?A" using Min_in [OF fin ne] .
  then obtain t where t: "t \<in> set grp" "cum_score t = ?m" by auto
  have "{v \<in> ?S. ?m < v} = ?A - {?m}"
    using mA Min_le [OF fin] by fastforce
  then have "card {v \<in> ?S. cum_score t < v} = card ?A - 1"
    using t mA fin by (simp add: card_Diff_singleton)
  moreover have "card ?A > 0" using fin ne card_gt_0_iff by blast
  ultimately have "dense_rank grp t = dense_rank grp s - 1"
    by (simp add: dense_rank_def)
  moreover have "cum_score s < cum_score t" using t mA by simp
  ultimately show ?thesis using t(1) by blast
qed

lemma rank_pairs_set:
  "set (concat (map (\<lambda>(g, ss). rank_group ss) (js_object_order (group_students xs)))) =
     set (map (\<lambda>s. (stu_name s, dense_rank (group_members xs (group_key s)) s)) xs)"
  (is "set ?L = set ?R")
proof
  show "set ?L \<subseteq> set ?R"
    by (auto simp: mem_group_students rank_group_eq group_members_def intro!: image_eqI)
  show "set ?R \<subseteq> set ?L"
  proof
    fix p assume "p \<in> set ?R"
    then obtain s where s: "s \<in> set xs" and p: "p = (stu_name s, dense_rank (group_members xs (group_key s)) s)"
      by auto
    let ?g = "group_key s"
    have "(?g, group_members xs ?g) \<in> set (js_object_order (group_students xs))"
      using s by (simp add: mem_group_students)
    moreover have "p \<in> set (rank_group (group_members xs ?g))"
      using s p by (simp add: rank_group_eq group_members_def)
    ultimately show "p \<in> set ?L" by force
  qed
qed

lemma get_group_rankings_map_of:
  "get_group_rankings xs = map_of (rev (concat (map (\<lambda>(g, ss). rank_group ss) (js_object_order (group_students xs)))))"
  by (simp add: get_group_rankings_def foldl_assign_ranks)

lemma distinct_rank_keys:
  "distinct (map stu_name xs) \<Longrightarrow>
   distinct (map fst (rev (concat (map (\<lambda>(g, ss). rank_group ss) (js_object_order (group_students xs))))))"
proof -
  assume d: "distinct (map stu_name xs)"
  have "distinct (map fst (concat (map (\<lambda>(g, ss). rank_group ss) (js_object_order (group_students xs)))))"
    using d mset_rank_keys [of xs] mset_eq_imp_distinct_iff by blast
  then show ?thesis by (simp add: rev_map [symmetric])
qed

text \<open>The rank of one student, for distinct names: the dense rank in its group.\<close>

lemma get_group_rankings_at:
  assumes "distinct (map stu_name xs)" "s \<in> set xs"
  shows "get_group_rankings xs (stu_name s) = Some (dense_rank (group_members xs (group_key s)) s)"
proof -
  have "(stu_name s, dense_rank (group_members xs (group_key s)) s) \<in>
      set (rev (concat (map (\<lambda>(g, ss). rank_group ss) (js_object_order (group_students xs)))))"
    using assms(2) rank_pairs_set [of xs] by auto
  then show ?thesis
    unfolding get_group_rankings_map_of by (rule map_of_is_SomeI [OF distinct_rank_keys [OF assms(1)]])
qed

lemma get_group_rankings_dom: "dom (get_group_rankings xs) = stu_name ` set xs"
proof -
  let ?L = "concat (map (\<lambda>(g, ss). rank_group ss) (js_object_order (group_students xs)))"
  have "set (map fst ?L) = set (map stu_name xs)"
    using mset_rank_keys [of xs] by (metis set_mset_mset)
  then have "fst ` set ?L = stu_name ` set xs" by simp
  then show ?thesis
    by (simp add: get_group_rankings_map_of dom_map_of_conv_image_fst)
qed

subsection \<open>Example data\<close>

abbreviation ex_stu :: "string \<Rightarrow> jsval \<Rightarrow> jsval \<Rightarrow> student" where
  "ex_stu n g c \<equiv> \<lparr>stu_name = n, stu_group = g, stu_total = JNum 0,
     stu_cumulative = c, stu_monthly = JNum 0, stu_image = JUndef\<rparr>"

abbreviation ex_g :: "string \<Rightarrow> string \<Rightarrow> student" where
  "ex_g n g \<equiv> ex_stu n (JStr g) (JNum 0)"

text \<open>The specification's example: scores 80, 80 and 60 in one group, one of the 80s
  stored as text and one group cell padded with blanks.\<close>

abbreviation ex_class :: "student list" where
  "ex_class \<equiv> [ex_stu ''C'' (JStr ''g1'') (JNum 60), ex_stu ''A'' (JStr '' g1 '') (JNum 80),
     ex_stu ''B'' (JStr ''g1'') (JStr ''80'')]"

lemmas rank_eval = get_group_rankings_def group_students_def assign_ranks_def rank_group_def
  rank_cmp_def rankings_spec_def dense_rank_def medal_of_def

subsection \<open>Properties of the rank map\<close>

text \<open>C1: for a snapshot whose student names are distinct, the map \<open>getGroupRankings\<close>
  builds gives every student exactly the dense rank of its cumulative score within its
  group: one more than the number of distinct higher scores there.\<close>

theorem get_group_rankings_refines:
  assumes dist: "distinct (map stu_name xs)"
  shows "get_group_rankings xs = rankings_spec xs"
proof -
  let ?L = "concat (map (\<lambda>(g, ss). rank_group ss) (js_object_order (group_students xs)))"
  let ?R = "map (\<lambda>s. (stu_name s, dense_rank (group_members xs (group_key s)) s)) xs"
  have dR: "distinct (map fst ?R)" using dist by (simp add: comp_def)
  have "set (rev ?L) = set ?R" using rank_pairs_set [of xs] by simp
  then have "map_of (rev ?L) = map_of ?R"
    using map_of_inject_set [OF distinct_rank_keys [OF dist] dR] by simp
  then show ?thesis by (simp add: get_group_rankings_map_of rankings_spec_def)
qed

theorem get_group_rankings_refines_witness:
  "distinct (map stu_name ex_class) \<and> get_group_rankings ex_class = rankings_spec ex_class"
  using get_group_rankings_refines [of ex_class] by simp

text \<open>C2: the rank map does not depend on the order of the students in the snapshot:
  permuting a snapshot with distinct names (for instance sorting it, as the sort button
  does) leaves every rank unchanged.\<close>

theorem get_group_rankings_perm:
  assumes "mset xs = mset ys" and "distinct (map stu_name xs)"
  shows "get_group_rankings xs = get_group_rankings ys"
proof
  fix n
  have set_eq: "set xs = set ys" using assms(1) by (metis set_mset_mset)
  have dy: "distinct (map stu_name ys)"
    using assms by (metis mset_eq_imp_distinct_iff mset_map)
  show "get_group_rankings xs n = get_group_rankings ys n"
  proof (cases "n \<in> stu_name ` set xs")
    case True
    then obtain s where s: "s \<in> set xs" "n = stu_name s" by auto
    have sy: "s \<in> set ys" using s(1) set_eq by simp
    have "set (group_members xs (group_key s)) = set (group_members ys (group_key s))"
      using set_eq by (simp add: group_members_def)
    then have "dense_rank (group_members xs (group_key s)) s = dense_rank (group_members ys (group_key s)) s"
      by (rule dense_rank_set)
    then show ?thesis
      by (simp only: s(2) get_group_rankings_at [OF assms(2) s(1)] get_group_rankings_at [OF dy sy])
  next
    case False
    then have "n \<notin> dom (get_group_rankings xs)" and "n \<notin> dom (get_group_rankings ys)"
      using set_eq by (simp_all add: get_group_rankings_dom)
    then show ?thesis by (simp add: domIff)
  qed
qed

theorem get_group_rankings_perm_witness:
  "get_group_rankings ex_class = get_group_rankings (rev ex_class) \<and>
   get_group_rankings ex_class ''A'' = Some 1 \<and> get_group_rankings ex_class ''B'' = Some 1 \<and>
   get_group_rankings ex_class ''C'' = Some 2"
proof -
  have "mset ex_class = mset (rev ex_class)" by simp
  moreover have "distinct (map stu_name ex_class)" by simp
  ultimately have "get_group_rankings ex_class = get_group_rankings (rev ex_class)"
    by (rule get_group_rankings_perm)
  moreover have "get_group_rankings ex_class ''A'' = Some 1 \<and> get_group_rankings ex_class ''B'' = Some 1 \<and>
      get_group_rankings ex_class ''C'' = Some 2"
    by (simp add: rank_eval js_simps store_simps)
  ultimately show ?thesis by simp
qed

text \<open>C3: ranks are dense: a student ranked below first place always has a group mate
  with a strictly higher score exactly one rank above, so ties never open a gap (scores
  80, 80, 60 give ranks 1, 1, 2, not 1, 1, 3).\<close>

theorem rank_no_gap:
  assumes dist: "distinct (map stu_name xs)" and s: "s \<in> set xs"
    and r: "get_group_rankings xs (stu_name s) = Some r" and gt: "1 < r"
  shows "\<exists>t \<in> set xs. group_key t = group_key s \<and> cum_score s < cum_score t \<and>
           get_group_rankings xs (stu_name t) = Some (r - 1)"
proof -
  let ?G = "group_members xs (group_key s)"
  have rs: "r = dense_rank ?G s"
    using r get_group_rankings_at [OF dist s] by simp
  then obtain t where t: "t \<in> set ?G" "cum_score s < cum_score t" "dense_rank ?G t = r - 1"
    using dense_rank_pred [of ?G s] gt by auto
  then have tx: "t \<in> set xs" and tg: "group_key t = group_key s" by (auto simp: group_members_def)
  have "get_group_rankings xs (stu_name t) = Some (r - 1)"
    using get_group_rankings_at [OF dist tx] t(3) tg by simp
  with tx tg t(2) show ?thesis by blast
qed

theorem rank_no_gap_witness:
  "\<exists>t \<in> set ex_class. group_key t = group_key (hd ex_class) \<and>
     cum_score (hd ex_class) < cum_score t \<and> get_group_rankings ex_class (stu_name t) = Some 1"
proof -
  have "get_group_rankings ex_class ''C'' = Some 2" by (simp add: rank_eval js_simps store_simps)
  then show ?thesis
    using rank_no_gap [of ex_class "hd ex_class" 2] by simp
qed

text \<open>C4: within a group the ranks reverse the order of the cumulative scores: every
  student has a rank, and one student's rank is at most another's exactly when its score is
  at least the other's; equal scores share a rank.\<close>

theorem rank_order:
  assumes dist: "distinct (map stu_name xs)" and s: "s \<in> set xs" and t: "t \<in> set xs"
    and g: "group_key s = group_key t"
  shows "\<exists>rs rt. get_group_rankings xs (stu_name s) = Some rs \<and>
           get_group_rankings xs (stu_name t) = Some rt \<and> (rs \<le> rt \<longleftrightarrow> cum_score t \<le> cum_score s)"
proof -
  let ?G = "group_members xs (group_key s)"
  have tG: "t \<in> set ?G" using t g by (simp add: group_members_def)
  show ?thesis
    using get_group_rankings_at [OF dist s] get_group_rankings_at [OF dist t] g
      dense_rank_le_iff [OF tG, of s] by simp
qed

theorem rank_order_witness:
  "\<exists>rs rt. get_group_rankings ex_class ''A'' = Some rs \<and> get_group_rankings ex_class ''C'' = Some rt \<and>
     (rs \<le> rt \<longleftrightarrow> cum_score (ex_class ! 0) \<le> cum_score (ex_class ! 1))"
  using rank_order [of ex_class "ex_class ! 1" "ex_class ! 0"] by (simp add: store_simps js_simps)

text \<open>C5: a student whose cumulative score is the highest of its group is ranked first
  and is shown the gold medal.\<close>

theorem top_scorer_gold:
  assumes dist: "distinct (map stu_name xs)" and s: "s \<in> set xs"
    and top: "\<forall>t \<in> set xs. group_key t = group_key s \<longrightarrow> cum_score t \<le> cum_score s"
  shows "medal_of (get_group_rankings xs) (stu_name s) = Some Gold"
proof -
  let ?G = "group_members xs (group_key s)"
  have "{v \<in> cum_score ` set ?G. cum_score s < v} = {}"
    using top by (auto simp: group_members_def)
  then have "dense_rank ?G s = 1" by (simp add: dense_rank_def)
  then show ?thesis
    using get_group_rankings_at [OF dist s] by (simp add: medal_of_def)
qed

theorem top_scorer_gold_witness:
  "medal_of (get_group_rankings ex_class) ''B'' = Some Gold"
proof -
  have "\<forall>t \<in> set ex_class. group_key t = group_key (ex_class ! 2) \<longrightarrow> cum_score t \<le> cum_score (ex_class ! 2)"
    by (simp add: store_simps js_simps)
  then show ?thesis
    using top_scorer_gold [of ex_class "ex_class ! 2"] by simp
qed

text \<open>C23: the groups object of getGroupRankings, enumerated by for-in, is a well-formed
  dictionary: each group key once, no empty array, the keys exactly the groups of the
  students, and each array the members of its group in input order.\<close>

theorem group_dict_wf:
  "obj_wf (js_object_order (group_students xs)) \<and>
   fst ` set (js_object_order (group_students xs)) = group_key ` set xs \<and>
   (\<forall>(g, ss) \<in> set (js_object_order (group_students xs)). ss = filter (\<lambda>s. group_key s = g) xs)"
  using obj_wf_js_object_order [OF obj_wf_group_students [of xs]] group_students_keys [of xs]
  by (auto simp: mem_group_students group_members_def)

theorem group_dict_wf_witness:
  "js_object_order (group_students [ex_g ''A'' ''b'', ex_g ''B'' ''2'', ex_g ''C'' ''b'', ex_g ''D'' ''1'']) =
     [(''1'', [ex_g ''D'' ''1'']), (''2'', [ex_g ''B'' ''2'']), (''b'', [ex_g ''A'' ''b'', ex_g ''C'' ''b''])] \<and>
   obj_wf (js_object_order (group_students [ex_g ''A'' ''b'', ex_g ''B'' ''2'', ex_g ''C'' ''b'', ex_g ''D'' ''1'']))"
  using group_dict_wf [of "[ex_g ''A'' ''b'', ex_g ''B'' ''2'', ex_g ''C'' ''b'', ex_g ''D'' ''1'']"]
  by (simp add: rank_eval js_simps store_simps)

end
