(* ===== verification/Tiers.thy ===== *)
theory Tiers
  imports Store
begin

text \<open>
  The tier resolver of \<open>src/script.js\<close>: the title shown on a student card
  (\<open>renderStudents\<close>: title rules sorted by threshold, highest first, and the first rule
  the cumulative score reaches), the frame colour of the card (three fixed thresholds),
  and the title page \<open>renderTitles\<close>, which finds each student's title the same way,
  collects the holders of every title, sorts \<open>titleConfig.rules\<close> ascending in place
  and lists the holders of each rule alphabetically.
  The results: the resolver returns the rule with the highest threshold the score
  reaches, the first-defined one among equal thresholds (refinement against
  \<open>resolve_spec\<close>); no title is the sentinel for a disabled or empty configuration or a
  score below every threshold; the in-place sort of \<open>renderTitles\<close> never changes the
  title a card shows; the frame colours are the resolver on fixed rules; every title card
  lists exactly the holders of its title, in order.
\<close>

subsection \<open>The title of a card\<close>

text \<open>\<open>(a, b) => Number(b.score) - Number(a.score)\<close>\<close>

definition title_desc_cmp :: "title_rule \<Rightarrow> title_rule \<Rightarrow> int" where
  "title_desc_cmp a b = rule_score b - rule_score a"

text \<open>\<open>for (const rule of sortedRules) { if (cumulativeScore >= Number(rule.score))
  { \<dots>; break; } }\<close>\<close>

fun first_qualifying :: "int \<Rightarrow> title_rule list \<Rightarrow> title_rule option" where
  "first_qualifying sc [] = None"
| "first_qualifying sc (r # rs) = (if rule_score r \<le> sc then Some r else first_qualifying sc rs)"

definition resolve_title :: "title_rule list \<Rightarrow> int \<Rightarrow> title_rule option" where
  "resolve_title rules sc = first_qualifying sc (js_sort title_desc_cmp rules)"

text \<open>\<open>if (titleConfig.enabled && titleConfig.rules.length > 0) { \<dots> }\<close>\<close>

definition student_title :: "title_config \<Rightarrow> student \<Rightarrow> title_rule option" where
  "student_title tc s =
     (if tc_enabled tc \<and> tc_rules tc \<noteq> [] then resolve_title (tc_rules tc) (cum_score s) else None)"

subsection \<open>The frame of a card\<close>

text \<open>\<open>if (cumulativeScore >= 80) frameClass = 'frame-gold'; else if (\<dots> >= 35) \<dots>
  'frame-silver'; else if (\<dots> >= 20) \<dots> 'frame-bronze'\<close>, the empty class otherwise.\<close>

definition frame_class :: "int \<Rightarrow> string" where
  "frame_class sc =
     (if 80 \<le> sc then ''frame-gold'' else if 35 \<le> sc then ''frame-silver''
      else if 20 \<le> sc then ''frame-bronze'' else [])"

subsection \<open>The title page\<close>

text \<open>\<open>sortedRulesForCalc.find(r => cScore >= Number(r.score))\<close>\<close>

definition title_match :: "title_rule list \<Rightarrow> int \<Rightarrow> title_rule option" where
  "title_match rules sc = find (\<lambda>r. rule_score r \<le> sc) (js_sort title_desc_cmp rules)"

text \<open>\<open>allStudents.forEach(stu => { \<dots> holdersMap[matchedRule.title].push(stu.name) })\<close>\<close>

definition collect_holders :: "title_rule list \<Rightarrow> student list \<Rightarrow> (string \<times> string list) list" where
  "collect_holders rules xs =
     foldl (\<lambda>hm s. case title_match rules (cum_score s) of
                      None \<Rightarrow> hm
                    | Some r \<Rightarrow> obj_push (rule_title r) (stu_name s) hm) [] xs"

text \<open>\<open>(a, b) => (Number(a.score) || 0) - (Number(b.score) || 0)\<close>\<close>

definition title_asc_cmp :: "title_rule \<Rightarrow> title_rule \<Rightarrow> int" where
  "title_asc_cmp a b = rule_score a - rule_score b"

text \<open>\<open>(a, b) => a.localeCompare(b)\<close>, with the locale's collation taken to be the
  lexicographic order of the strings.\<close>

definition locale_cmp :: "string \<Rightarrow> string \<Rightarrow> int" where
  "locale_cmp a b = (if a < b then -1 else if a = b then 0 else 1)"

text \<open>
  \<open>renderTitles\<close>: nothing for an empty rule list; otherwise the holders map, then
  \<open>rules.sort(\<dots>)\<close>, which reorders \<open>titleConfig.rules\<close> itself (the returned
  configuration), then one card per rule with \<open>holdersMap[rule.title] || []\<close> sorted.
\<close>

definition render_titles :: "title_config \<Rightarrow> student list \<Rightarrow> title_config \<times> (title_rule \<times> string list) list" where
  "render_titles tc xs =
     (let rules = tc_rules tc in
      if rules = [] then (tc, [])
      else
        let hm = collect_holders rules xs;
            sorted = js_sort title_asc_cmp rules
        in (tc\<lparr>tc_rules := sorted\<rparr>,
            map (\<lambda>r. (r, js_sort locale_cmp (case map_of hm (rule_title r) of None \<Rightarrow> [] | Some hs \<Rightarrow> hs)))
              sorted))"

subsection \<open>Specifications\<close>

text \<open>The rule a score earns: among the rules whose threshold it reaches, those with the
  highest threshold, and of these the first in the configuration.\<close>

definition resolve_spec :: "title_rule list \<Rightarrow> int \<Rightarrow> title_rule option" where
  "resolve_spec rules sc =
     (let q = filter (\<lambda>r. rule_score r \<le> sc) rules in
      if q = [] then None else find (\<lambda>r. rule_score r = Max (rule_score ` set q)) rules)"

text \<open>The frame thresholds as a rule list for the resolver, in no particular order.\<close>

definition frame_rules :: "title_rule list" where
  "frame_rules = [\<lparr>rule_score = 20, rule_title = ''frame-bronze''\<rparr>,
     \<lparr>rule_score = 80, rule_title = ''frame-gold''\<rparr>, \<lparr>rule_score = 35, rule_title = ''frame-silver''\<rparr>]"

subsection \<open>Lemmas\<close>

lemma title_sort_desc: "js_sort title_desc_cmp rules = sort_key (\<lambda>r. - rule_score r) rules"
  by (rule js_sort_eq_sort_key) (auto simp: title_desc_cmp_def)

lemma title_sort_asc: "js_sort title_asc_cmp rules = sort_key rule_score rules"
  by (rule js_sort_eq_sort_key) (auto simp: title_asc_cmp_def)

lemma first_qualifying_find: "first_qualifying sc rs = find (\<lambda>r. rule_score r \<le> sc) rs"
  by (induction rs) auto

lemma first_qualifying_desc:
  "sorted_desc rule_score rs \<Longrightarrow>
   first_qualifying sc rs =
     (let q = filter (\<lambda>r. rule_score r \<le> sc) rs in
      if q = [] then None else find (\<lambda>r. rule_score r = Max (rule_score ` set q)) rs)"
proof (induction rs)
  case Nil
  then show ?case by simp
next
  case (Cons r rs)
  have below: "\<forall>y \<in> set rs. rule_score y \<le> rule_score r" and sd: "sorted_desc rule_score rs"
    using Cons.prems by auto
  show ?case
  proof (cases "rule_score r \<le> sc")
    case True
    let ?q = "filter (\<lambda>r. rule_score r \<le> sc) (r # rs)"
    have "Max (rule_score ` set ?q) = rule_score r"
      using True below by (intro Max_eqI) auto
    with True show ?thesis by (simp add: Let_def)
  next
    case False
    let ?q = "filter (\<lambda>r. rule_score r \<le> sc) rs"
    have "?q \<noteq> [] \<Longrightarrow> Max (rule_score ` set ?q) \<le> sc"
    proof -
      assume ne: "?q \<noteq> []"
      have "\<forall>v \<in> rule_score ` set ?q. v \<le> sc" by auto
      moreover have "rule_score ` set ?q \<noteq> {}" using ne by (metis image_is_empty set_empty)
      ultimately show ?thesis by (simp add: Max_le_iff)
    qed
    with False Cons.IH [OF sd] show ?thesis by (auto simp: Let_def)
  qed
qed


lemma resolve_title_stable:
  assumes "mset rules' = mset rules"
    and "\<And>k. filter (\<lambda>r. rule_score r = k) rules' = filter (\<lambda>r. rule_score r = k) rules"
  shows "resolve_title rules' sc = resolve_title rules sc"
proof -
  have "filter (\<lambda>r. - rule_score r = k) rules' = filter (\<lambda>r. - rule_score r = k) rules" for k
  proof -
    have eq: "(\<lambda>r. - rule_score r = k) = (\<lambda>r. rule_score r = - k)" by auto
    show ?thesis using assms(2) [of "- k"] by (simp only: eq)
  qed
  then have "sort_key (\<lambda>r. - rule_score r) rules' = sort_key (\<lambda>r. - rule_score r) rules"
    by (rule sort_key_eq_of_filters [OF assms(1)])
  then show ?thesis by (simp add: resolve_title_def title_sort_desc)
qed

lemma find_sorted_desc_max:
  "sorted_desc k L \<Longrightarrow> find (\<lambda>x. k x \<le> sc) L = Some r \<Longrightarrow> \<forall>y \<in> set L. k y \<le> sc \<longrightarrow> k y \<le> k r"
  by (induction L) (auto split: if_splits)

text \<open>What the resolver returns: a rule the score reaches with the highest such threshold.\<close>

lemma resolve_title_Some:
  assumes "resolve_title rules sc = Some r"
  shows "r \<in> set rules \<and> rule_score r \<le> sc \<and> (\<forall>r' \<in> set rules. rule_score r' \<le> sc \<longrightarrow> rule_score r' \<le> rule_score r)"
proof -
  let ?L = "sort_key (\<lambda>r. - rule_score r) rules"
  have f: "find (\<lambda>r. rule_score r \<le> sc) ?L = Some r"
    using assms by (simp add: resolve_title_def title_sort_desc first_qualifying_find)
  have "\<forall>y \<in> set ?L. rule_score y \<le> sc \<longrightarrow> rule_score y \<le> rule_score r"
    using find_sorted_desc_max [OF sorted_desc_sort_key_uminus f] .
  then show ?thesis using find_Some_mem [OF f] by simp
qed

lemma resolve_title_eq_spec:
  "resolve_title rules sc = resolve_spec rules sc"
proof -
  let ?L = "sort_key (\<lambda>r. - rule_score r) rules"
  let ?P = "\<lambda>r. rule_score r \<le> sc"
  have sd: "sorted_desc rule_score ?L" by (rule sorted_desc_sort_key_uminus)
  have setq: "set (filter ?P ?L) = set (filter ?P rules)" by simp
  have emp: "(filter ?P ?L = []) = (filter ?P rules = [])"
    using setq by (metis set_empty)
  have stab: "filter (\<lambda>r. rule_score r = m) ?L = filter (\<lambda>r. rule_score r = m) rules" for m
  proof -
    have eq: "(\<lambda>r. - rule_score r = - m) = (\<lambda>r. rule_score r = m)" by auto
    show ?thesis using sort_key_stable [of "\<lambda>r. - rule_score r" "- m" rules] by (simp only: eq)
  qed
  have fnd: "\<And>m. find (\<lambda>r. rule_score r = m) ?L = find (\<lambda>r. rule_score r = m) rules"
    by (simp add: find_conv_filter stab)
  show ?thesis
    unfolding resolve_title_def title_sort_desc first_qualifying_desc [OF sd] resolve_spec_def
    by (simp add: Let_def setq emp fnd)
qed

lemma frame_class_eq_resolver:
  "frame_class sc = (case resolve_title frame_rules sc of None \<Rightarrow> [] | Some r \<Rightarrow> rule_title r)"
proof -
  have "js_sort title_desc_cmp frame_rules =
      [\<lparr>rule_score = 80, rule_title = ''frame-gold''\<rparr>, \<lparr>rule_score = 35, rule_title = ''frame-silver''\<rparr>,
       \<lparr>rule_score = 20, rule_title = ''frame-bronze''\<rparr>]"
    by (simp add: frame_rules_def title_desc_cmp_def js_sort_def)
  then show ?thesis by (simp add: resolve_title_def frame_class_def)
qed

lemma locale_sort: "js_sort locale_cmp hs = sort hs"
  by (rule js_sort_eq_sort_key) (auto simp: locale_cmp_def)

lemma title_match_resolve: "title_match rules sc = resolve_title rules sc"
  by (simp add: title_match_def resolve_title_def first_qualifying_find)

lemma resolve_title_None: "resolve_title rules sc = None \<longleftrightarrow> (\<forall>r \<in> set rules. sc < rule_score r)"
  by (auto simp: resolve_title_def first_qualifying_find title_sort_desc find_None_iff not_le)

lemma collect_holders_at:
  "map_of (collect_holders rules xs) t =
     (let hs = filter (\<lambda>s. map_option rule_title (resolve_title rules (cum_score s)) = Some t) xs in
      if hs = [] then None else Some (map stu_name hs))"
proof -
  have eq: "collect_holders rules xs =
      foldl (\<lambda>m s. case map_option rule_title (resolve_title rules (cum_score s)) of
                     None \<Rightarrow> m | Some k \<Rightarrow> obj_push k (stu_name s) m) [] xs"
    unfolding collect_holders_def title_match_resolve
    by (rule arg_cong [where f = "\<lambda>h. foldl h [] xs"]) (simp add: fun_eq_iff split: option.splits)
  show ?thesis by (simp only: eq map_of_foldl_obj_push Let_def)
qed

lemma render_titles_cards:
  "tc_rules tc \<noteq> [] \<Longrightarrow>
   snd (render_titles tc xs) =
     map (\<lambda>r. (r, sort (map stu_name (filter (\<lambda>s. map_option rule_title (resolve_title (tc_rules tc) (cum_score s))
       = Some (rule_title r)) xs)))) (sort_key rule_score (tc_rules tc))"
  by (auto simp: render_titles_def collect_holders_at title_sort_asc locale_sort Let_def)

subsection \<open>Example data\<close>

abbreviation ex_rules :: "title_rule list" where
  "ex_rules \<equiv> [\<lparr>rule_score = 50, rule_title = ''X''\<rparr>, \<lparr>rule_score = 20, rule_title = ''Y''\<rparr>]"

abbreviation ex_scored :: "string \<Rightarrow> int \<Rightarrow> student" where
  "ex_scored n c \<equiv> \<lparr>stu_name = n, stu_group = JStr ''g'', stu_total = JNum 0,
     stu_cumulative = JNum c, stu_monthly = JNum 0, stu_image = JUndef\<rparr>"

lemmas tier_eval = resolve_title_def title_desc_cmp_def js_sort_def student_title_def render_titles_def
  collect_holders_def title_match_def title_asc_cmp_def locale_cmp_def

subsection \<open>Properties of the resolver and the title page\<close>

text \<open>C6: the title resolver of renderStudents (rules sorted by threshold, highest first, then the first rule the score reaches) returns, among the rules whose threshold the score reaches, one with the highest threshold, and of those the first in the configuration; no rule when the score reaches none.\<close>

theorem resolve_title_refines:
  "resolve_title rules sc = resolve_spec rules sc"
  by (rule resolve_title_eq_spec)

theorem resolve_title_refines_witness:
  "resolve_title ex_rules 60 = Some (ex_rules ! 0) \<and> resolve_title ex_rules 30 = Some (ex_rules ! 1) \<and>
   resolve_title ex_rules 10 = None"
  using resolve_title_refines [of ex_rules] by (simp add: resolve_spec_def)

text \<open>C7: a card shows no title exactly when titles are disabled, the rule list is empty, or the cumulative score is below every threshold; these are sentinel results, never an error.\<close>

theorem student_title_none:
  "student_title tc s = None \<longleftrightarrow>
     \<not> tc_enabled tc \<or> tc_rules tc = [] \<or> (\<forall>r \<in> set (tc_rules tc). cum_score s < rule_score r)"
  by (auto simp: student_title_def resolve_title_None)

theorem student_title_none_witness:
  "student_title \<lparr>tc_enabled = True, tc_rules = ex_rules\<rparr> (ex_scored ''A'' 10) = None \<and>
   student_title \<lparr>tc_enabled = True, tc_rules = ex_rules\<rparr> (ex_scored ''B'' 30) \<noteq> None"
  using student_title_none [of "\<lparr>tc_enabled = True, tc_rules = ex_rules\<rparr>" "ex_scored ''A'' 10"]
    student_title_none [of "\<lparr>tc_enabled = True, tc_rules = ex_rules\<rparr>" "ex_scored ''B'' 30"]
  by (simp add: store_simps js_simps)

text \<open>C8: renderTitles sorts titleConfig.rules ascending in place; the title every student card shows afterwards is the same as before.\<close>

theorem render_titles_keeps_title: "student_title (fst (render_titles tc xs)) s = student_title tc s"
proof (cases "tc_rules tc = []")
  case True
  then show ?thesis by (simp add: render_titles_def)
next
  case False
  let ?rs = "sort_key rule_score (tc_rules tc)"
  have "resolve_title ?rs sc = resolve_title (tc_rules tc) sc" for sc
  proof (rule resolve_title_stable)
    show "mset ?rs = mset (tc_rules tc)" by simp
    show "filter (\<lambda>r. rule_score r = k) ?rs = filter (\<lambda>r. rule_score r = k) (tc_rules tc)" for k
      using sort_key_stable [of rule_score k "tc_rules tc"] .
  qed
  moreover have "?rs \<noteq> []" using False by (metis length_0_conv length_sort)
  ultimately show ?thesis using False
    by (simp add: render_titles_def student_title_def title_sort_asc Let_def)
qed


text \<open>C10: every card of the title page lists, alphabetically, exactly the students (with multiplicity) whose resolved title has the card's title.\<close>

theorem render_titles_holders:
  assumes "(r, hs) \<in> set (snd (render_titles tc xs))"
  shows "mset hs = mset (map stu_name (filter (\<lambda>s. map_option rule_title (student_title (tc\<lparr>tc_enabled := True\<rparr>) s)
           = Some (rule_title r)) xs)) \<and> sorted hs"
proof -
  have ne: "tc_rules tc \<noteq> []" using assms by (auto simp: render_titles_def)
  have st: "student_title (tc\<lparr>tc_enabled := True\<rparr>) s = resolve_title (tc_rules tc) (cum_score s)" for s
    using ne by (simp add: student_title_def)
  from assms ne show ?thesis by (auto simp: render_titles_cards st)
qed

theorem render_titles_holders_witness:
  "mset [''Al'', ''Bo''] = mset (map stu_name (filter (\<lambda>s. map_option rule_title
      (student_title \<lparr>tc_enabled = True, tc_rules = ex_rules\<rparr> s) = Some ''X'')
      [ex_scored ''Bo'' 60, ex_scored ''Al'' 55, ex_scored ''Cy'' 5])) \<and> sorted [''Al'', ''Bo'']"
proof -
  have "(ex_rules ! 0, [''Al'', ''Bo'']) \<in> set (snd (render_titles \<lparr>tc_enabled = True, tc_rules = ex_rules\<rparr>
      [ex_scored ''Bo'' 60, ex_scored ''Al'' 55, ex_scored ''Cy'' 5]))"
    by (simp add: tier_eval store_simps js_simps)
  from render_titles_holders [OF this] show ?thesis by simp
qed

text \<open>The title page shows the rules in ascending threshold order, keeping the configuration order among equal thresholds, and leaves titleConfig.rules in that order.\<close>

lemma render_titles_order:
  "tc_rules (fst (render_titles tc xs)) = sort_key rule_score (tc_rules tc) \<and>
   map fst (snd (render_titles tc xs)) = sort_key rule_score (tc_rules tc)"
proof (cases "tc_rules tc = []")
  case True
  then show ?thesis by (simp add: render_titles_def)
next
  case False
  then show ?thesis by (simp add: render_titles_cards comp_def) (simp add: render_titles_def title_sort_asc Let_def)
qed

text \<open>RenderTitles does not read the enabled flag: with titles disabled a student card shows no title, yet the title page still lists the student as a holder of the title its score reaches.\<close>

lemma render_titles_ignores_enabled:
  assumes "\<not> tc_enabled tc" and "s \<in> set xs" and "resolve_title (tc_rules tc) (cum_score s) = Some r"
  shows "student_title tc s = None \<and> (\<exists>hs. (r, hs) \<in> set (snd (render_titles tc xs)) \<and> stu_name s \<in> set hs)"
proof -
  have ne: "tc_rules tc \<noteq> []" using assms(3) by (auto simp: resolve_title_def title_sort_desc first_qualifying_find)
  have "r \<in> set (tc_rules tc)"
    using assms(3) find_Some_mem by (fastforce simp: resolve_title_def title_sort_desc first_qualifying_find)
  then show ?thesis
    using assms ne by (auto simp: student_title_def render_titles_cards intro!: bexI [of _ s])
qed

end
