(* ===== verification/Progress.thy ===== *)
theory Progress
  imports Tiers
begin

text \<open>
  The student modal of \<open>src/script.js\<close>, \<open>updateLevelProgress\<close>: after an early return
  (unknown student, titles disabled, no rules) it walks the title rules in ascending order to
  find the current and the next title, draws the experience bar
  \<open>Math.min(100, Math.max(0, (score - current) / (next - current) * 100))\<close> with the
  points still missing, and compares the student's monthly score with the best of its
  group (the monthly leader comparator).
  The results: the bar is always a finite percentage in \<open>[0, 100]\<close>, although the
  division can be by zero; the missing points are positive; the top title means a full
  bar; with non-negative thresholds the bar is full only at the top title; with distinct
  thresholds the modal names the same title as the card. The leader scan computes the
  highest monthly score of the group and its first holder; a trailing student's gap is
  positive and ties lead together.
\<close>

subsection \<open>The current and the next title\<close>

definition no_title_label :: string where
  "no_title_label = map char_of [231, 132, 161, 231, 168, 177, 232, 153, 159 :: nat]"

text \<open>\<open>let currentTitleObj = { score: 0, title: "(no title)" }\<close>\<close>

definition no_title :: title_rule where
  "no_title = \<lparr>rule_score = 0, rule_title = no_title_label\<rparr>"

text \<open>\<open>for (let i = 0; i < rules.length; i++) { if (currentScore >= Number(rules[i].score))
  currentTitleObj = rules[i]; else { nextTitleObj = rules[i]; break; } }\<close>\<close>

fun level_walk :: "int \<Rightarrow> title_rule \<Rightarrow> title_rule list \<Rightarrow> title_rule \<times> title_rule option" where
  "level_walk sc cur [] = (cur, None)"
| "level_walk sc cur (r # rs) = (if rule_score r \<le> sc then level_walk sc r rs else (cur, Some r))"

text \<open>\<open>[...titleConfig.rules].sort((a, b) => Number(a.score) - Number(b.score))\<close>: on numbers
  the comparator of \<open>renderTitles\<close>.\<close>

definition level_of :: "title_rule list \<Rightarrow> int \<Rightarrow> title_rule \<times> title_rule option" where
  "level_of rules sc = level_walk sc no_title (js_sort title_asc_cmp rules)"

text \<open>\<open>const range = Number(nextTitleObj.score) - Number(currentTitleObj.score);
  const percent = Math.min(100, Math.max(0, ((currentScore - \<dots>) / range) * 100))\<close>\<close>

definition bar_percent :: "int \<Rightarrow> title_rule \<Rightarrow> title_rule \<Rightarrow> xnum" where
  "bar_percent sc cur nxt =
     js_min 100 (js_max 0 (js_mul (js_div (of_int (sc - rule_score cur)) (of_int (rule_score nxt - rule_score cur))) 100))"

subsection \<open>The monthly leader\<close>

text \<open>\<open>let maxInGroup = -1, leaderName = ""; allStudents.forEach(s => { if (String(s.group).trim()
  === myGroup) { \<dots> if (sMonthScore > maxInGroup) { maxInGroup = sMonthScore; leaderName =
  s.name; } } })\<close>\<close>

fun leader_scan :: "string \<Rightarrow> int \<Rightarrow> string \<Rightarrow> student list \<Rightarrow> int \<times> string" where
  "leader_scan g mx ld [] = (mx, ld)"
| "leader_scan g mx ld (s # ss) =
     (if group_trim s = g \<and> mx < month_score s then leader_scan g (month_score s) (stu_name s) ss
      else leader_scan g mx ld ss)"

datatype month_status = NoActivity | Leading | Trailing string int

text \<open>\<open>if (maxInGroup <= 0) \<dots> else if (monthScore >= maxInGroup) \<dots> else \<dots> (maxInGroup -
  monthScore)\<close>\<close>

definition month_status_of :: "student list \<Rightarrow> student \<Rightarrow> month_status" where
  "month_status_of xs stu =
     (let (mx, ld) = leader_scan (group_trim stu) (-1) [] xs in
      if mx \<le> 0 then NoActivity
      else if mx \<le> month_score stu then Leading
      else Trailing ld (mx - month_score stu))"

text \<open>What the comparison promises: the best monthly score of the student's group (at
  least \<open>-1\<close>), held first by the first such member in store order.\<close>

definition month_status_spec :: "student list \<Rightarrow> student \<Rightarrow> month_status" where
  "month_status_spec xs stu =
     (let g = group_trim stu; grp = filter (\<lambda>s. group_trim s = g) xs;
          M = Max (set (-1 # map month_score grp)) in
      if M \<le> 0 then NoActivity
      else if M \<le> month_score stu then Leading
      else Trailing (stu_name (hd (filter (\<lambda>s. month_score s = M) grp))) (M - month_score stu))"

subsection \<open>The handler\<close>

text \<open>What the modal shows: the current title, the bar width, the missing points (none
  once the top title is reached) and the monthly comparison.\<close>

record level_view =
  lv_title :: string
  lv_bar :: xnum
  lv_gap :: "int option"
  lv_month :: month_status

definition update_level_progress :: "student list \<Rightarrow> title_config \<Rightarrow> string \<Rightarrow> level_view option" where
  "update_level_progress xs tc n =
     (case find (\<lambda>s. stu_name s = n) xs of
        None \<Rightarrow> None
      | Some stu \<Rightarrow>
          if \<not> tc_enabled tc \<or> tc_rules tc = [] then None
          else
            let sc = cum_score stu; (cur, nxt) = level_of (tc_rules tc) sc in
            Some \<lparr>lv_title = rule_title cur,
                  lv_bar = (case nxt of None \<Rightarrow> XFin 100 | Some r \<Rightarrow> bar_percent sc cur r),
                  lv_gap = (case nxt of None \<Rightarrow> None | Some r \<Rightarrow> Some (rule_score r - sc)),
                  lv_month = month_status_of xs stu\<rparr>)"


subsection \<open>The walk, the bar and the scan\<close>

lemma level_walk_props:
  "level_walk sc cur L = (c, n) \<Longrightarrow>
   (c = cur \<or> (c \<in> set L \<and> rule_score c \<le> sc)) \<and>
   (case n of None \<Rightarrow> (\<forall>r \<in> set L. rule_score r \<le> sc) | Some r \<Rightarrow> r \<in> set L \<and> sc < rule_score r)"
proof (induction sc cur L arbitrary: c n rule: level_walk.induct)
  case (1 sc cur)
  then show ?case by simp
next
  case (2 sc cur r rs)
  show ?case
  proof (cases "rule_score r \<le> sc")
    case True
    with "2.prems" have "level_walk sc r rs = (c, n)" by simp
    from "2.IH" [OF True this] True show ?thesis by (auto split: option.splits)
  next
    case False
    with "2.prems" show ?thesis by auto
  qed
qed

lemma clamp_percent_finite:
  assumes "\<not> (a = 0 \<and> b = 0)"
  shows "\<exists>p. js_min 100 (js_max 0 (js_mul (js_div a b) 100)) = XFin p \<and> 0 \<le> p \<and> p \<le> 100"
  using assms by (auto simp: js_div_def)

lemma bar_percent_finite:
  assumes "sc < rule_score nxt"
  shows "\<exists>p. bar_percent sc cur nxt = XFin p \<and> 0 \<le> p \<and> p \<le> 100"
proof -
  have "\<not> (of_int (sc - rule_score cur) = (0::rat) \<and> of_int (rule_score nxt - rule_score cur) = (0::rat))"
    using assms by auto
  then show ?thesis unfolding bar_percent_def by (rule clamp_percent_finite)
qed

lemma update_level_progress_Some:
  assumes "update_level_progress xs tc n = Some v"
  obtains stu cur nxt where "find (\<lambda>s. stu_name s = n) xs = Some stu" "tc_enabled tc" "tc_rules tc \<noteq> []"
    "level_of (tc_rules tc) (cum_score stu) = (cur, nxt)"
    "v = \<lparr>lv_title = rule_title cur,
          lv_bar = (case nxt of None \<Rightarrow> XFin 100 | Some r \<Rightarrow> bar_percent (cum_score stu) cur r),
          lv_gap = (case nxt of None \<Rightarrow> None | Some r \<Rightarrow> Some (rule_score r - cum_score stu)),
          lv_month = month_status_of xs stu\<rparr>"
  using assms by (auto simp: update_level_progress_def Let_def split: option.splits if_splits prod.splits)

lemma level_walk_sorted_cur:
  "sorted (map rule_score L) \<Longrightarrow> r \<in> set L \<Longrightarrow> rule_score r \<le> sc \<Longrightarrow>
   fst (level_walk sc cur L) \<in> set L \<and> rule_score r \<le> rule_score (fst (level_walk sc cur L)) \<and>
   rule_score (fst (level_walk sc cur L)) \<le> sc"
proof (induction sc cur L arbitrary: r rule: level_walk.induct)
  case (1 sc cur)
  then show ?case by simp
next
  case (2 sc cur x xs)
  have sx: "sorted (map rule_score xs)" and xle: "\<forall>y \<in> set xs. rule_score x \<le> rule_score y"
    using "2.prems"(1) by auto
  show ?case
  proof (cases "rule_score x \<le> sc")
    case True
    show ?thesis
    proof (cases "\<exists>y \<in> set xs. rule_score y \<le> sc")
      case True': True
      then obtain y where y: "y \<in> set xs" "rule_score y \<le> sc" by blast
      have IHy: "fst (level_walk sc x xs) \<in> set xs \<and> rule_score y \<le> rule_score (fst (level_walk sc x xs)) \<and>
          rule_score (fst (level_walk sc x xs)) \<le> sc"
        using "2.IH" [OF True sx y] .
      have "rule_score r \<le> rule_score (fst (level_walk sc x xs))"
      proof (cases "r = x")
        case True
        then show ?thesis using IHy y xle by force
      next
        case False
        then have "r \<in> set xs" using "2.prems"(2) by simp
        then show ?thesis using "2.IH" [OF True sx _ "2.prems"(3)] by simp
      qed
      then show ?thesis using True IHy by simp
    next
      case False
      then have "fst (level_walk sc x xs) = x" by (cases xs) auto
      moreover have "r = x" using False "2.prems"(2,3) by auto
      ultimately show ?thesis using True by simp
    qed
  next
    case False
    then have "r \<noteq> x" using "2.prems"(3) by auto
    then have "rule_score x \<le> rule_score r" using "2.prems"(2) xle by simp
    with False "2.prems"(3) show ?thesis by simp
  qed
qed

lemma clamp_percent_below:
  assumes "(0 < b \<and> a < b) \<or> (b = 0 \<and> a < 0)"
    and "js_min 100 (js_max 0 (js_mul (js_div a b) 100)) = XFin p"
  shows "p < 100"
proof (cases "b = 0")
  case True
  with assms show ?thesis by (auto simp: js_div_def)
next
  case False
  with assms(1) have "0 < b" "a < b" by auto
  then have "a * 100 / b < 100" by (simp add: divide_less_eq)
  with assms(2) False show ?thesis by (auto simp: js_div_def)
qed

lemma leader_scan_eq:
  "leader_scan g mx ld xs =
     (let M = Max (insert mx (month_score ` {s \<in> set xs. group_trim s = g})) in
      (M, if M = mx then ld
          else case find (\<lambda>s. group_trim s = g \<and> month_score s = M) xs of None \<Rightarrow> ld | Some s \<Rightarrow> stu_name s))"
proof (induction g mx ld xs rule: leader_scan.induct)
  case (1 g mx ld)
  then show ?case by simp
next
  case (2 g mx ld s ss)
  let ?A = "month_score ` {x \<in> set ss. group_trim x = g}"
  have fin: "finite ?A" by simp
  show ?case
  proof (cases "group_trim s = g \<and> mx < month_score s")
    case True
    let ?M = "Max (insert (month_score s) ?A)"
    have M: "Max (insert mx (month_score ` {x \<in> set (s # ss). group_trim x = g})) = ?M"
    proof -
      have "month_score ` {x \<in> set (s # ss). group_trim x = g} = insert (month_score s) ?A"
        using True by auto
      moreover have "Max (insert mx (insert (month_score s) ?A)) = ?M"
        using True by (intro Max_insert_above[OF fin]) simp
      ultimately show ?thesis by simp
    qed
    have ge: "month_score s \<le> ?M" using fin by simp
    show ?thesis
    proof (cases "?M = month_score s")
      case Ms: True
      then show ?thesis using True "2.IH"(1) M by (simp add: Let_def)
    next
      case Ms: False
      let ?P = "\<lambda>x. group_trim x = g \<and> month_score x = ?M"
      have "?M \<in> insert (month_score s) ?A" using fin by (intro Max_in) auto
      then have "?M \<in> ?A" using Ms by simp
      then obtain y where y: "find ?P ss = Some y"
        by (cases "find ?P ss") (auto simp: find_None_iff)
      have "leader_scan g (month_score s) (stu_name s) ss = (?M, stu_name y)"
        using "2.IH"(1)[OF True] Ms y by (simp add: Let_def)
      then have "leader_scan g mx ld (s # ss) = (?M, stu_name y)" using True by simp
      moreover have "mx \<noteq> ?M" using ge True by linarith
      ultimately show ?thesis using M Ms y by (simp add: Let_def)
    qed
  next
    case False
    have M: "Max (insert mx (month_score ` {x \<in> set (s # ss). group_trim x = g})) = Max (insert mx ?A)"
    proof (cases "group_trim s = g")
      case True
      then have "month_score s \<le> mx" using False by simp
      moreover have "month_score ` {x \<in> set (s # ss). group_trim x = g} = insert (month_score s) ?A"
        using True by auto
      ultimately show ?thesis using Max_insert_absorb[OF fin] by simp
    next
      case False
      then have "{x \<in> set (s # ss). group_trim x = g} = {x \<in> set ss. group_trim x = g}" by auto
      then show ?thesis by simp
    qed
    have ge: "mx \<le> Max (insert mx ?A)" using fin by simp
    have step: "leader_scan g mx ld (s # ss) = leader_scan g mx ld ss" using False by auto
    show ?thesis
    proof (cases "Max (insert mx ?A) = mx")
      case True
      then show ?thesis using "2.IH"(2)[OF False] M step by (simp add: Let_def)
    next
      case Mne: False
      then have "mx < Max (insert mx ?A)" using ge by linarith
      then have "\<not> (group_trim s = g \<and> month_score s = Max (insert mx ?A))" using False by auto
      then have "find (\<lambda>x. group_trim x = g \<and> month_score x = Max (insert mx ?A)) (s # ss) =
          find (\<lambda>x. group_trim x = g \<and> month_score x = Max (insert mx ?A)) ss"
        by (simp only: find.simps if_False)
      then show ?thesis using "2.IH"(2)[OF False] M step Mne by (simp add: Let_def)
    qed
  qed
qed

lemma month_status_of_eq:
  "month_status_of xs stu =
     (let g = group_trim stu; M = Max (insert (-1) (month_score ` {s \<in> set xs. group_trim s = g})) in
      if M \<le> 0 then NoActivity
      else if M \<le> month_score stu then Leading
      else Trailing (case find (\<lambda>s. group_trim s = g \<and> month_score s = M) xs of None \<Rightarrow> [] | Some s \<Rightarrow> stu_name s)
             (M - month_score stu))"
proof -
  let ?M = "Max (insert (-1::int) (month_score ` {s \<in> set xs. group_trim s = group_trim stu}))"
  show ?thesis
  proof (cases "?M = -1")
    case True
    then show ?thesis by (simp add: month_status_of_def leader_scan_eq Let_def del: Max_le_iff)
  next
    case False
    then show ?thesis by (simp add: month_status_of_def leader_scan_eq Let_def del: Max_le_iff)
  qed
qed

lemma find_filter_hd:
  "filter (\<lambda>s. P s \<and> Q s) xs \<noteq> [] \<Longrightarrow> find (\<lambda>s. P s \<and> Q s) xs = Some (hd (filter Q (filter P xs)))"
  by (induction xs) auto

lemma month_max_attained:
  "0 < Max (insert (-1::int) (month_score ` {s \<in> set xs. group_trim s = g})) \<Longrightarrow>
   \<exists>s \<in> set xs. group_trim s = g \<and> month_score s = Max (insert (-1) (month_score ` {s \<in> set xs. group_trim s = g}))"
proof -
  let ?M = "Max (insert (-1::int) (month_score ` {s \<in> set xs. group_trim s = g}))"
  assume pos: "0 < ?M"
  have "?M \<in> insert (-1) (month_score ` {s \<in> set xs. group_trim s = g})" by (intro Max_in) auto
  with pos show ?thesis by auto
qed

subsection \<open>Example data\<close>

abbreviation ex_progress :: "title_rule list" where
  "ex_progress \<equiv> [\<lparr>rule_score = 0, rule_title = ''Novice''\<rparr>, \<lparr>rule_score = 100, rule_title = ''Master''\<rparr>]"

abbreviation ex_tc :: title_config where
  "ex_tc \<equiv> \<lparr>tc_enabled = True, tc_rules = ex_progress\<rparr>"

abbreviation ex_month :: "string \<Rightarrow> string \<Rightarrow> int \<Rightarrow> student" where
  "ex_month n g m \<equiv> \<lparr>stu_name = n, stu_group = JStr g, stu_total = JNum 0,
     stu_cumulative = JNum 0, stu_monthly = JNum m, stu_image = JUndef\<rparr>"

abbreviation ex_month_class :: "student list" where
  "ex_month_class \<equiv> [ex_month ''A'' ''g'' 10, ex_month ''B'' ''g'' 10, ex_month ''C'' ''g'' 4,
     ex_month ''D'' ''h'' 0]"

lemmas progress_eval = update_level_progress_def level_of_def js_sort_def title_asc_cmp_def bar_percent_def
  month_status_of_def no_title_def js_mul_def js_max_def js_min_def

lemma progress_example:
  "map (\<lambda>c. update_level_progress [ex_scored ''A'' c] ex_tc ''A'') [50, 100] =
    [Some \<lparr>lv_title = ''Novice'', lv_bar = XFin 50, lv_gap = Some 50, lv_month = NoActivity\<rparr>,
     Some \<lparr>lv_title = ''Master'', lv_bar = XFin 100, lv_gap = None, lv_month = NoActivity\<rparr>]"
  by (simp add: progress_eval js_simps store_simps)

lemma month_example:
  "month_status_of ex_month_class (ex_month ''B'' ''g'' 10) = Leading \<and>
   month_status_of ex_month_class (ex_month ''C'' ''g'' 4) = Trailing ''A'' 6 \<and>
   month_status_of ex_month_class (ex_month ''D'' ''h'' 0) = NoActivity"
  by (simp add: month_status_of_def js_simps store_simps)

subsection \<open>Properties of the modal\<close>

text \<open>C13: The experience bar is always a finite width between 0 and 100 percent, also when the current and the next threshold coincide and the division is by zero.\<close>

theorem progress_bar_bounds:
  assumes "update_level_progress xs tc n = Some v"
  shows "\<exists>p. lv_bar v = XFin p \<and> 0 \<le> p \<and> p \<le> 100"
proof -
  obtain stu cur nxt where lv: "level_of (tc_rules tc) (cum_score stu) = (cur, nxt)"
    and v: "lv_bar v = (case nxt of None \<Rightarrow> XFin 100 | Some r \<Rightarrow> bar_percent (cum_score stu) cur r)"
    using update_level_progress_Some [OF assms] by (metis level_view.select_convs(2))
  show ?thesis
  proof (cases nxt)
    case None
    then show ?thesis using v by simp
  next
    case (Some r)
    then have "cum_score stu < rule_score r"
      using level_walk_props [OF lv [unfolded level_of_def]] by simp
    then show ?thesis using v Some bar_percent_finite by simp
  qed
qed

theorem progress_bar_bounds_witness:
  "update_level_progress [ex_scored ''A'' 50] ex_tc ''A'' = Some \<lparr>lv_title = ''Novice'', lv_bar = XFin 50, lv_gap = Some 50, lv_month = NoActivity\<rparr> \<and> (\<exists>p. lv_bar \<lparr>lv_title = ''Novice'', lv_bar = XFin 50, lv_gap = Some 50, lv_month = NoActivity\<rparr> = XFin p \<and> 0 \<le> p \<and> p \<le> 100)"
  using progress_bar_bounds [of "[ex_scored ''A'' 50]" ex_tc "''A''" "\<lparr>lv_title = ''Novice'', lv_bar = XFin 50, lv_gap = Some 50, lv_month = NoActivity\<rparr>"] progress_example by simp

text \<open>C14: The modal shows no missing points exactly when the student has reached every threshold, the bar is then full, and otherwise the missing points are positive.\<close>

theorem progress_gap:
  assumes "update_level_progress xs tc n = Some v" and "find (\<lambda>s. stu_name s = n) xs = Some stu"
  shows "(lv_gap v = None \<longleftrightarrow> (\<forall>r \<in> set (tc_rules tc). rule_score r \<le> cum_score stu)) \<and>
         (lv_gap v = None \<longrightarrow> lv_bar v = XFin 100) \<and> (\<forall>g. lv_gap v = Some g \<longrightarrow> 0 < g)"
proof -
  obtain stu' cur nxt where f: "find (\<lambda>s. stu_name s = n) xs = Some stu'"
    and lv: "level_of (tc_rules tc) (cum_score stu') = (cur, nxt)"
    and v: "v = \<lparr>lv_title = rule_title cur,
          lv_bar = (case nxt of None \<Rightarrow> XFin 100 | Some r \<Rightarrow> bar_percent (cum_score stu') cur r),
          lv_gap = (case nxt of None \<Rightarrow> None | Some r \<Rightarrow> Some (rule_score r - cum_score stu')),
          lv_month = month_status_of xs stu'\<rparr>"
    using update_level_progress_Some [OF assms(1)] by metis
  have s: "stu' = stu" using f assms(2) by simp
  have props: "case nxt of None \<Rightarrow> (\<forall>r \<in> set (tc_rules tc). rule_score r \<le> cum_score stu)
      | Some r \<Rightarrow> r \<in> set (tc_rules tc) \<and> cum_score stu < rule_score r"
    using level_walk_props [OF lv [unfolded level_of_def]] s by (simp split: option.splits)
  show ?thesis
  proof (cases nxt)
    case None
    then show ?thesis using props v by simp
  next
    case (Some r)
    then show ?thesis using props v s by (auto simp: not_le)
  qed
qed

theorem progress_gap_witness:
  "update_level_progress [ex_scored ''A'' 50] ex_tc ''A'' = Some \<lparr>lv_title = ''Novice'', lv_bar = XFin 50, lv_gap = Some 50, lv_month = NoActivity\<rparr> \<and>
   find (\<lambda>s. stu_name s = ''A'') [ex_scored ''A'' 50] = Some (ex_scored ''A'' 50) \<and> lv_gap \<lparr>lv_title = ''Novice'', lv_bar = XFin 50, lv_gap = Some 50, lv_month = NoActivity\<rparr> = Some 50"
  using progress_gap [of "[ex_scored ''A'' 50]" ex_tc "''A''" "\<lparr>lv_title = ''Novice'', lv_bar = XFin 50, lv_gap = Some 50, lv_month = NoActivity\<rparr>" "ex_scored ''A'' 50"] progress_example by simp

text \<open>With non-negative thresholds, a student who still has points missing sees a bar below 100 percent.\<close>

lemma progress_below_full:
  assumes "update_level_progress xs tc n = Some v" and "\<forall>r \<in> set (tc_rules tc). 0 \<le> rule_score r"
    and "lv_gap v \<noteq> None"
  shows "\<exists>p. lv_bar v = XFin p \<and> p < 100"
proof -
  obtain stu cur nxt where lv: "level_of (tc_rules tc) (cum_score stu) = (cur, nxt)"
    and v: "v = \<lparr>lv_title = rule_title cur,
          lv_bar = (case nxt of None \<Rightarrow> XFin 100 | Some r \<Rightarrow> bar_percent (cum_score stu) cur r),
          lv_gap = (case nxt of None \<Rightarrow> None | Some r \<Rightarrow> Some (rule_score r - cum_score stu)),
          lv_month = month_status_of xs stu\<rparr>"
    using update_level_progress_Some [OF assms(1)] by metis
  obtain r where nxt: "nxt = Some r" using assms(3) v by (cases nxt) auto
  have P: "(cur = no_title \<or> (cur \<in> set (tc_rules tc) \<and> rule_score cur \<le> cum_score stu)) \<and>
      r \<in> set (tc_rules tc) \<and> cum_score stu < rule_score r"
    using level_walk_props [OF lv [unfolded level_of_def]] nxt by simp
  let ?a = "of_int (cum_score stu - rule_score cur) :: rat"
  let ?b = "of_int (rule_score r - rule_score cur) :: rat"
  have cond: "(0 < ?b \<and> ?a < ?b) \<or> (?b = 0 \<and> ?a < 0)"
    using P assms(2) by (auto simp: no_title_def)
  obtain p where p: "bar_percent (cum_score stu) cur r = XFin p" "0 \<le> p" "p \<le> 100"
    using bar_percent_finite P by blast
  have "p < 100" using clamp_percent_below [OF cond] p(1) by (simp add: bar_percent_def)
  then show ?thesis using v nxt p(1) by simp
qed

text \<open>C16: When the thresholds are distinct, the title the modal derives from its ascending walk is the title the card resolves, or the no-title placeholder when none qualifies.\<close>

theorem modal_title_matches_card:
  assumes "distinct (map rule_score rules)"
  shows "fst (level_of rules sc) = (case resolve_title rules sc of None \<Rightarrow> no_title | Some r \<Rightarrow> r)"
proof (cases "resolve_title rules sc")
  case None
  then have all: "\<forall>r \<in> set rules. sc < rule_score r" by (simp add: resolve_title_None)
  obtain c n where w: "level_walk sc no_title (js_sort title_asc_cmp rules) = (c, n)" by fastforce
  then have "c = no_title" using level_walk_props [OF w] all by force
  with None w show ?thesis by (simp add: level_of_def)
next
  case (Some r)
  note R = resolve_title_Some [OF Some]
  let ?L = "js_sort title_asc_cmp rules"
  have sL: "sorted (map rule_score ?L)" by (simp add: title_sort_asc)
  have W: "fst (level_walk sc no_title ?L) \<in> set ?L \<and> rule_score r \<le> rule_score (fst (level_walk sc no_title ?L)) \<and>
      rule_score (fst (level_walk sc no_title ?L)) \<le> sc"
    using level_walk_sorted_cur [where r = r and sc = sc and cur = no_title, OF sL] R by simp
  let ?c = "fst (level_walk sc no_title ?L)"
  have "rule_score ?c = rule_score r" using W R by force
  moreover have "?c \<in> set rules" using W by simp
  ultimately have "?c = r" using assms R by (metis distinct_map inj_on_eq_iff)
  with Some show ?thesis by (simp add: level_of_def)
qed

theorem modal_title_matches_card_witness:
  "distinct (map rule_score ex_progress) \<and> fst (level_of ex_progress 50) = \<lparr>rule_score = 0, rule_title = ''Novice''\<rparr>"
  using modal_title_matches_card [of ex_progress 50] by (simp add: progress_eval tier_eval)

text \<open>C17: The monthly comparison reports no activity when the best monthly score of the group is at most 0, leading when the student holds it, and otherwise the first holder of the best score and the points missing to it.\<close>

theorem month_status_refines: "month_status_of xs stu = month_status_spec xs stu"
proof -
  let ?g = "group_trim stu"
  let ?M = "Max (insert (-1::int) (month_score ` {s \<in> set xs. group_trim s = ?g}))"
  have set_eq: "set (-1 # map month_score (filter (\<lambda>s. group_trim s = ?g) xs)) =
      insert (-1) (month_score ` {s \<in> set xs. group_trim s = ?g})" by auto
  show ?thesis
  proof (cases "?M \<le> 0 \<or> ?M \<le> month_score stu")
    case True
    then show ?thesis by (auto simp: month_status_of_eq month_status_spec_def set_eq Let_def simp del: Max_le_iff)
  next
    case False
    then have "0 < ?M" by linarith
    then obtain s where "s \<in> set xs" "group_trim s = ?g" "month_score s = ?M"
      using month_max_attained by blast
    then have "filter (\<lambda>s. group_trim s = ?g \<and> month_score s = ?M) xs \<noteq> []"
      by (auto simp: filter_empty_conv)
    from find_filter_hd [OF this] False show ?thesis
      by (simp add: month_status_of_eq month_status_spec_def set_eq Let_def del: Max_le_iff)
  qed
qed

text \<open>A trailing student is behind by a positive number of points, and the named leader is a member of the same group whose monthly score is the group maximum and exceeds the student by exactly that gap.\<close>

lemma month_trailing_leader:
  assumes "month_status_of xs stu = Trailing l d"
  shows "0 < d \<and> (\<exists>s \<in> set xs. group_trim s = group_trim stu \<and> stu_name s = l \<and>
      month_score s = month_score stu + d \<and>
      (\<forall>t \<in> set xs. group_trim t = group_trim stu \<longrightarrow> month_score t \<le> month_score s))"
proof -
  let ?g = "group_trim stu"
  let ?P = "\<lambda>s. group_trim s = ?g"
  let ?M = "Max (insert (-1::int) (month_score ` {s \<in> set xs. ?P s}))"
  have hi: "\<not> ?M \<le> 0" "\<not> ?M \<le> month_score stu"
    and l: "l = (case find (\<lambda>s. ?P s \<and> month_score s = ?M) xs of None \<Rightarrow> [] | Some s \<Rightarrow> stu_name s)"
    and d: "d = ?M - month_score stu"
    using assms by (simp_all add: month_status_of_eq Let_def del: Max_le_iff split: if_splits)
  have "0 < ?M" using hi by linarith
  then obtain s0 where "s0 \<in> set xs" "?P s0" "month_score s0 = ?M" using month_max_attained by blast
  then obtain s where s: "find (\<lambda>s. ?P s \<and> month_score s = ?M) xs = Some s"
    by (cases "find (\<lambda>s. ?P s \<and> month_score s = ?M) xs") (auto simp: find_None_iff)
  have ms: "s \<in> set xs" "?P s" "month_score s = ?M" using find_Some_mem [OF s] by auto
  have "\<forall>t \<in> set xs. ?P t \<longrightarrow> month_score t \<le> ?M" by (auto intro: Max_ge)
  moreover have "0 < d" using d hi by linarith
  ultimately show ?thesis using ms s l d by auto
qed

text \<open>Students tied at the best positive monthly score of their group are all shown as leading.\<close>

lemma month_ties_lead:
  assumes "stu \<in> set xs" and "0 < month_score stu"
    and "\<forall>t \<in> set xs. group_trim t = group_trim stu \<longrightarrow> month_score t \<le> month_score stu"
  shows "month_status_of xs stu = Leading"
proof -
  let ?M = "Max (insert (-1::int) (month_score ` {s \<in> set xs. group_trim s = group_trim stu}))"
  have "?M = month_score stu"
    using assms by (intro Max_eqI) auto
  then show ?thesis using assms(2) by (simp add: month_status_of_eq Let_def del: Max_le_iff)
qed

text \<open>The monthly comparison reports no activity exactly when no member of the group has a positive monthly score.\<close>

lemma month_no_activity:
  "month_status_of xs stu = NoActivity \<longleftrightarrow>
   (\<forall>t \<in> set xs. group_trim t = group_trim stu \<longrightarrow> month_score t \<le> 0)"
  by (auto simp: month_status_of_eq Let_def)

text \<open>With titles disabled or no rules the handler returns before it draws anything, so the
  monthly comparison is not shown either.\<close>

lemma month_hidden_without_titles:
  "\<not> tc_enabled tc \<or> tc_rules tc = [] \<Longrightarrow> update_level_progress xs tc n = None"
  by (simp add: update_level_progress_def split: option.splits)

text \<open>With two rules at the same threshold, the card shows the first rule while the modal shows the second: the ascending walk keeps the last qualifying rule, the resolver the first.\<close>

lemma progress_duplicate_threshold:
  "resolve_title [\<lparr>rule_score = 50, rule_title = ''X''\<rparr>, \<lparr>rule_score = 50, rule_title = ''Y''\<rparr>] 60 =
     Some \<lparr>rule_score = 50, rule_title = ''X''\<rparr> \<and>
   fst (level_of [\<lparr>rule_score = 50, rule_title = ''X''\<rparr>, \<lparr>rule_score = 50, rule_title = ''Y''\<rparr>] 60) =
     \<lparr>rule_score = 50, rule_title = ''Y''\<rparr>"
  by (simp add: progress_eval tier_eval)

text \<open>A rule with a negative threshold makes the no-title floor lie above it: a student below that threshold sees a full bar although points are still missing.\<close>

lemma progress_negative_threshold_full:
  "update_level_progress [ex_scored ''A'' (-20)] \<lparr>tc_enabled = True, tc_rules = [\<lparr>rule_score = -10, rule_title = ''T''\<rparr>]\<rparr> ''A'' =
     Some \<lparr>lv_title = no_title_label, lv_bar = XFin 100, lv_gap = Some 10, lv_month = NoActivity\<rparr>"
  by (simp add: progress_eval js_simps store_simps)

end
