(* ===== verification/History.thy ===== *)
theory History
  imports Store
begin

text \<open>
  The per-student history of the score modal in \<open>src/script.js\<close>: \<open>renderStudentHistory\<close>
  filters \<open>allLogs\<close> to the student, cuts it into pages of \<open>HISTORY_PER_PAGE = 5\<close> rows,
  clamps the global cursor \<open>currentHistoryPage\<close> into \<open>[1, totalPages]\<close> (writing it
  back), and enables the previous and next buttons; \<open>changeHistoryPage\<close> moves the
  cursor and re-renders; \<open>openScoreModal\<close> for a student resets it to 1. The cursor and
  \<open>currentModalStudent\<close> are the state, threaded explicitly; the handlers are the
  operations of a step relation, and the cursor invariant is proved by rule induction
  over the reachable states. The pages partition the student's logs.
\<close>

subsection \<open>Pages\<close>

text \<open>\<open>const HISTORY_PER_PAGE = 5; let currentHistoryPage = 1, currentModalStudent = null;\<close>\<close>

definition history_per_page :: nat where
  "history_per_page = 5"

record hist_state =
  cur_page :: int
  modal_student :: "string option"

definition hist_init :: hist_state where
  "hist_init = \<lparr>cur_page = 1, modal_student = None\<rparr>"

text \<open>\<open>allLogs.filter(log => log.student === name)\<close>; the name is \<open>null\<close> before any
  student modal was opened, and no log matches it.\<close>

definition student_logs :: "log_entry list \<Rightarrow> string option \<Rightarrow> log_entry list" where
  "student_logs logs name = filter (\<lambda>l. Some (log_student l) = name) logs"

text \<open>\<open>Math.ceil(myLogs.length / HISTORY_PER_PAGE)\<close>\<close>

definition total_pages :: "nat \<Rightarrow> nat" where
  "total_pages n = (n + history_per_page - 1) div history_per_page"

text \<open>\<open>if (currentHistoryPage > totalPages) currentHistoryPage = totalPages;
  if (currentHistoryPage < 1) currentHistoryPage = 1;\<close>\<close>

definition clamp_page :: "int \<Rightarrow> int \<Rightarrow> int" where
  "clamp_page tot p = (let p1 = (if tot < p then tot else p) in if p1 < 1 then 1 else p1)"

text \<open>What the history panel shows: hidden, or the rows of the page, the label
  \<open>page / totalPages\<close>, and whether the previous and next buttons are disabled.\<close>

datatype hist_view = HistHidden | HistShown "log_entry list" int int bool bool

definition render_student_history :: "log_entry list \<Rightarrow> string option \<Rightarrow> hist_state \<Rightarrow> hist_state \<times> hist_view" where
  "render_student_history logs name st =
     (let my = student_logs logs name in
      if my = [] then (st, HistHidden)
      else
        let tot = int (total_pages (length my));
            p = clamp_page tot (cur_page st);
            start = nat ((p - 1) * int history_per_page) in
        (st\<lparr>cur_page := p\<rparr>,
         HistShown (slice my start (start + history_per_page)) p tot (p = 1) (p = tot)))"

text \<open>\<open>changeHistoryPage(d)\<close>: \<open>currentHistoryPage += d; renderStudentHistory(currentModalStudent)\<close>.\<close>

definition change_history_page :: "log_entry list \<Rightarrow> int \<Rightarrow> hist_state \<Rightarrow> hist_state \<times> hist_view" where
  "change_history_page logs d st =
     render_student_history logs (modal_student st) (st\<lparr>cur_page := cur_page st + d\<rparr>)"

text \<open>The student branch of \<open>openScoreModal\<close>: \<open>currentModalStudent = name;
  currentHistoryPage = 1; renderStudentHistory(name)\<close>.\<close>

definition open_student_history :: "log_entry list \<Rightarrow> string \<Rightarrow> hist_state \<Rightarrow> hist_state \<times> hist_view" where
  "open_student_history logs name st =
     render_student_history logs (Some name) (st\<lparr>modal_student := Some name, cur_page := 1\<rparr>)"

subsection \<open>The cursor as a state machine\<close>

datatype hist_op = OpenModal string | ChangePage int

fun hist_apply :: "log_entry list \<Rightarrow> hist_op \<Rightarrow> hist_state \<Rightarrow> hist_state \<times> hist_view" where
  "hist_apply logs (OpenModal n) st = open_student_history logs n st"
| "hist_apply logs (ChangePage d) st = change_history_page logs d st"

inductive hist_reach :: "log_entry list \<Rightarrow> hist_state \<Rightarrow> bool" for logs where
  init: "hist_reach logs hist_init"
| step: "hist_reach logs st \<Longrightarrow> hist_reach logs (fst (hist_apply logs op st))"

text \<open>The cursor invariant: whenever the modal's student has logs, the cursor is a page
  that exists.\<close>

definition hist_inv :: "log_entry list \<Rightarrow> hist_state \<Rightarrow> bool" where
  "hist_inv logs st \<longleftrightarrow>
     (student_logs logs (modal_student st) \<noteq> [] \<longrightarrow>
        1 \<le> cur_page st \<and> cur_page st \<le> int (total_pages (length (student_logs logs (modal_student st)))))"


subsection \<open>Page arithmetic and the cursor\<close>

lemma total_pages_pos: "0 < n \<Longrightarrow> 0 < total_pages n"
  by (simp add: total_pages_def history_per_page_def)

lemma total_pages_bounds:
  "(total_pages n - 1) * history_per_page < n \<or> n = 0" "n \<le> total_pages n * history_per_page"
  by (auto simp: total_pages_def history_per_page_def)

lemma clamp_page_range: "1 \<le> tot \<Longrightarrow> 1 \<le> clamp_page tot p \<and> clamp_page tot p \<le> tot"
  by (simp add: clamp_page_def Let_def)

lemma clamp_page_id: "1 \<le> p \<Longrightarrow> p \<le> tot \<Longrightarrow> clamp_page tot p = p"
  by (simp add: clamp_page_def Let_def)

lemma render_inv:
  "hist_inv logs (fst (render_student_history logs (modal_student st) st))"
proof (cases "student_logs logs (modal_student st) = []")
  case True
  then show ?thesis by (simp add: hist_inv_def render_student_history_def)
next
  case False
  then have "1 \<le> int (total_pages (length (student_logs logs (modal_student st))))"
    using total_pages_pos by (simp add: Suc_le_eq)
  then show ?thesis using False clamp_page_range
    by (simp add: hist_inv_def render_student_history_def Let_def)
qed

lemma hist_apply_inv: "hist_inv logs (fst (hist_apply logs op st))"
proof (cases op)
  case (OpenModal n)
  then show ?thesis
    using render_inv [of logs "st\<lparr>modal_student := Some n, cur_page := 1\<rparr>"]
    by (simp add: open_student_history_def)
next
  case (ChangePage d)
  then show ?thesis
    using render_inv [of logs "st\<lparr>cur_page := cur_page st + d\<rparr>"]
    by (simp add: change_history_page_def)
qed

lemma slice_page_nonempty:
  assumes "xs \<noteq> []" "1 \<le> p" "p \<le> int (total_pages (length xs))"
  shows "0 < length (slice xs (nat ((p - 1) * int history_per_page)) (nat ((p - 1) * int history_per_page) + history_per_page))"
proof -
  have "nat (p - 1) \<le> total_pages (length xs) - 1" using assms(2,3) by linarith
  then have "nat (p - 1) * history_per_page \<le> (total_pages (length xs) - 1) * history_per_page" by simp
  moreover have "(total_pages (length xs) - 1) * history_per_page < length xs"
    using total_pages_bounds(1) assms(1) by auto
  moreover have "nat ((p - 1) * int history_per_page) = nat (p - 1) * history_per_page"
    using assms(2) by (simp add: nat_mult_distrib)
  ultimately show ?thesis by (simp add: slice_def history_per_page_def)
qed

subsection \<open>Example data\<close>

abbreviation ex_log :: "string \<Rightarrow> int \<Rightarrow> log_entry" where
  "ex_log n i \<equiv> \<lparr>log_student = n, log_score = JNum 1, log_item = [], log_time = i, log_teacher = [], log_row = i\<rparr>"

abbreviation ex_logs :: "log_entry list" where
  "ex_logs \<equiv> map (ex_log ''A'') [1, 2, 3] @ [ex_log ''B'' 0] @ map (ex_log ''A'') [4, 5, 6, 7]"

lemmas hist_eval = render_student_history_def student_logs_def total_pages_def clamp_page_def
  history_per_page_def slice_def change_history_page_def open_student_history_def hist_init_def

lemma history_example:
  "render_student_history ex_logs (Some ''A'') \<lparr>cur_page = 3, modal_student = Some ''A''\<rparr> =
     (\<lparr>cur_page = 2, modal_student = Some ''A''\<rparr>, HistShown [ex_log ''A'' 6, ex_log ''A'' 7] 2 2 False True)"
  by (simp add: hist_eval)

subsection \<open>Properties of the paginator\<close>

text \<open>C24: In every state reachable from the initial one by opening student modals and moving the page, the cursor is a page that exists (between 1 and the page count) whenever the modal's student has logs.\<close>

theorem hist_reach_inv: "hist_reach logs st \<Longrightarrow> hist_inv logs st"
proof (induction rule: hist_reach.induct)
  case init
  then show ?case by (simp add: hist_inv_def hist_init_def student_logs_def)
next
  case (step st op)
  show ?case by (simp only: hist_apply_inv)
qed

theorem hist_reach_inv_witness:
  "hist_reach ex_logs \<lparr>cur_page = 2, modal_student = Some ''A''\<rparr> \<and>
   hist_inv ex_logs \<lparr>cur_page = 2, modal_student = Some ''A''\<rparr>"
proof -
  have "hist_reach ex_logs (fst (hist_apply ex_logs (ChangePage 5) (fst (hist_apply ex_logs (OpenModal ''A'') hist_init))))"
    by (intro hist_reach.step hist_reach.init)
  moreover have "fst (hist_apply ex_logs (ChangePage 5) (fst (hist_apply ex_logs (OpenModal ''A'') hist_init))) =
      \<lparr>cur_page = 2, modal_student = Some ''A''\<rparr>"
    by (simp add: hist_eval)
  ultimately show ?thesis using hist_reach_inv [of ex_logs "\<lparr>cur_page = 2, modal_student = Some ''A''\<rparr>"] by simp
qed

text \<open>C25: Rendering pages 1 to the page count one after the other shows every log of the student exactly once, in store order: the pages partition the student's history.\<close>

theorem history_pages_partition:
  "concat (map (\<lambda>p. case snd (render_student_history logs name (st\<lparr>cur_page := int p\<rparr>)) of
        HistHidden \<Rightarrow> [] | HistShown rows _ _ _ _ \<Rightarrow> rows)
      [1..<Suc (total_pages (length (student_logs logs name)))]) = student_logs logs name"
proof (cases "student_logs logs name = []")
  case True
  then show ?thesis by (simp add: total_pages_def history_per_page_def)
next
  case False
  let ?my = "student_logs logs name"
  let ?T = "total_pages (length ?my)"
  have "map (\<lambda>p. case snd (render_student_history logs name (st\<lparr>cur_page := int p\<rparr>)) of
        HistHidden \<Rightarrow> [] | HistShown rows _ _ _ _ \<Rightarrow> rows) [1..<Suc ?T] =
      map (\<lambda>i. slice ?my (i * history_per_page) (i * history_per_page + history_per_page)) [0..<?T]"
  proof (rule nth_equalityI)
    fix i assume "i < length (map (\<lambda>p. case snd (render_student_history logs name (st\<lparr>cur_page := int p\<rparr>)) of
        HistHidden \<Rightarrow> [] | HistShown rows _ _ _ _ \<Rightarrow> rows) [1..<Suc ?T])"
    then have i: "i < ?T" by (simp del: upt_Suc)
    then have "clamp_page (int ?T) (int (Suc i)) = int (Suc i)" by (simp add: clamp_page_id)
    moreover have "nat (int i * 5) = i * 5" by (simp add: nat_mult_distrib)
    then show "map (\<lambda>p. case snd (render_student_history logs name (st\<lparr>cur_page := int p\<rparr>)) of
        HistHidden \<Rightarrow> [] | HistShown rows _ _ _ _ \<Rightarrow> rows) [1..<Suc ?T] ! i =
      map (\<lambda>i. slice ?my (i * history_per_page) (i * history_per_page + history_per_page)) [0..<?T] ! i"
      using i False calculation by (simp add: render_student_history_def Let_def history_per_page_def del: upt_Suc)
  qed (simp del: upt_Suc)
  moreover have "length ?my \<le> ?T * history_per_page" by (simp add: total_pages_bounds)
  ultimately show ?thesis by (simp add: concat_slices del: upt_Suc)
qed

text \<open>For a student with logs, the panel shows the clamped page, writes it back to the cursor, keeps an in-range cursor unchanged, shows between 1 and 5 rows, and disables the previous button exactly on page 1 and the next button exactly on the last page.\<close>

lemma render_history_shown:
  assumes "student_logs logs name \<noteq> []"
  shows "\<exists>rows p. render_student_history logs name st =
       (st\<lparr>cur_page := p\<rparr>, HistShown rows p (int (total_pages (length (student_logs logs name))))
          (p = 1) (p = int (total_pages (length (student_logs logs name))))) \<and>
     1 \<le> p \<and> p \<le> int (total_pages (length (student_logs logs name))) \<and>
     (1 \<le> cur_page st \<and> cur_page st \<le> int (total_pages (length (student_logs logs name))) \<longrightarrow> p = cur_page st) \<and>
     0 < length rows \<and> length rows \<le> history_per_page"
proof -
  let ?my = "student_logs logs name"
  let ?T = "int (total_pages (length ?my))"
  let ?p = "clamp_page ?T (cur_page st)"
  let ?s = "nat ((?p - 1) * int history_per_page)"
  have T: "1 \<le> ?T" using total_pages_pos assms by (simp add: Suc_le_eq)
  have P: "1 \<le> ?p \<and> ?p \<le> ?T" using clamp_page_range [OF T] .
  obtain rows where rows: "rows = slice ?my ?s (?s + history_per_page)" by simp
  have len: "0 < length rows \<and> length rows \<le> history_per_page"
    using slice_page_nonempty [OF assms] P rows by auto
  have R: "render_student_history logs name st = (st\<lparr>cur_page := ?p\<rparr>, HistShown rows ?p ?T (?p = 1) (?p = ?T))"
    using assms rows by (simp add: render_student_history_def Let_def)
  have "1 \<le> cur_page st \<and> cur_page st \<le> ?T \<longrightarrow> ?p = cur_page st" by (simp add: clamp_page_id)
  then show ?thesis using R P len by blast
qed

text \<open>Moving to the next page and back returns the cursor to where it was, when the current page is not the last.\<close>

lemma history_next_prev:
  assumes "student_logs logs (modal_student st) \<noteq> []" and "1 \<le> cur_page st"
    and "cur_page st < int (total_pages (length (student_logs logs (modal_student st))))"
  shows "fst (change_history_page logs (-1) (fst (change_history_page logs 1 st))) = st"
proof -
  let ?T = "int (total_pages (length (student_logs logs (modal_student st))))"
  have 1: "fst (change_history_page logs 1 st) = st\<lparr>cur_page := cur_page st + 1\<rparr>"
    using assms by (simp add: change_history_page_def render_student_history_def Let_def clamp_page_id)
  show ?thesis
    using assms by (simp add: 1 change_history_page_def render_student_history_def Let_def clamp_page_id)
qed

end
