(* ===== verification/Gifts.thy ===== *)
theory Gifts
  imports Store
begin

text \<open>
  The gift shelf of \<open>src/script.js\<close>, \<open>renderGifts\<close>: five fixed score ranges; for each,
  the gifts whose required score (\<open>Number(x) || 0\<close>) lies in the range, sorted by a
  comparator that puts sold-out gifts (quantity exactly 0) last and orders by required
  score otherwise. An empty or missing quantity reads as 999 (unlimited); any other
  quantity goes through \<open>Number\<close>, so \<open>null\<close> reads as 0 and a non-numeric text as
  \<open>NaN\<close>, which is not 0. The sort is \<^const>\<open>js_sort\<close> and is shown equal to a
  stable sort on the key (sold out, required score); the ranges partition
  \<open>[-9999, 99999]\<close> and miss everything outside it.
\<close>

subsection \<open>Tiers and the comparator\<close>

text \<open>\<open>const tiers = [{min: -9999, max: 5}, {min: 6, max: 25}, {min: 26, max: 40},
  {min: 41, max: 85}, {min: 86, max: 99999}]\<close>; names, range texts and colours are display.\<close>

record gift_tier =
  tier_min :: int
  tier_max :: int

definition gift_tiers :: "gift_tier list" where
  "gift_tiers = [\<lparr>tier_min = -9999, tier_max = 5\<rparr>, \<lparr>tier_min = 6, tier_max = 25\<rparr>,
     \<lparr>tier_min = 26, tier_max = 40\<rparr>, \<lparr>tier_min = 41, tier_max = 85\<rparr>,
     \<lparr>tier_min = 86, tier_max = 99999\<rparr>]"

text \<open>\<open>Number(g["required"]) || 0\<close>\<close>

definition gift_req :: "gift \<Rightarrow> int" where
  "gift_req g = coerce (gift_score g)"

text \<open>\<open>(a["quantity"] === "" || a["quantity"] === undefined) ? 999 : Number(a["quantity"])\<close>\<close>

definition gift_qty_num :: "gift \<Rightarrow> jsnum" where
  "gift_qty_num g = (if gift_qty g = JStr [] \<or> gift_qty g = JUndef then Num 999 else js_number (gift_qty g))"

text \<open>\<open>const isSoldOut = (qty === 0)\<close>\<close>

definition sold_out :: "gift \<Rightarrow> bool" where
  "sold_out g \<longleftrightarrow> gift_qty_num g = Num 0"

text \<open>\<open>if (qtyA === 0 && qtyB !== 0) return 1; if (qtyA !== 0 && qtyB === 0) return -1;
  return (Number(a["required"]) || 0) - (Number(b["required"]) || 0);\<close>\<close>

definition gift_cmp :: "gift \<Rightarrow> gift \<Rightarrow> int" where
  "gift_cmp a b =
     (if sold_out a \<and> \<not> sold_out b then 1
      else if \<not> sold_out a \<and> sold_out b then -1
      else gift_req a - gift_req b)"

text \<open>\<open>allGifts.filter(g => { const s = Number(g["required"]) || 0; return s >= tier.min &&
  s <= tier.max; })\<close>, then \<open>tierGifts.sort(\<dots>)\<close>.\<close>

definition in_tier :: "gift_tier \<Rightarrow> gift \<Rightarrow> bool" where
  "in_tier t g \<longleftrightarrow> tier_min t \<le> gift_req g \<and> gift_req g \<le> tier_max t"

definition tier_gifts :: "gift list \<Rightarrow> gift_tier \<Rightarrow> gift list" where
  "tier_gifts gifts t = js_sort gift_cmp (filter (in_tier t) gifts)"

text \<open>\<open>tiers.forEach(\<dots>)\<close>: one row per tier, each a list of cards, a card showing the
  gift and whether it is stamped sold out.\<close>

definition render_gifts :: "gift list \<Rightarrow> (gift_tier \<times> (gift \<times> bool) list) list" where
  "render_gifts gifts = map (\<lambda>t. (t, map (\<lambda>g. (g, sold_out g)) (tier_gifts gifts t))) gift_tiers"

text \<open>What the shelf promises within a tier: available gifts first, then by required
  score, ties in store order.\<close>

definition gift_key :: "gift \<Rightarrow> bool \<times> int" where
  "gift_key g = (sold_out g, gift_req g)"


subsection \<open>The comparator, the ranges and the rows\<close>

lemma gift_cmp_key: "\<forall>a b. gift_cmp a b < 0 \<longleftrightarrow> gift_key a < gift_key b"
  by (auto simp: gift_cmp_def gift_key_def less_prod_def)

lemma in_tier_unique:
  "-9999 \<le> gift_req g \<Longrightarrow> gift_req g \<le> 99999 \<Longrightarrow> length (filter (\<lambda>t. in_tier t g) gift_tiers) = 1"
  by (simp add: gift_tiers_def in_tier_def)

lemma in_tier_none:
  "gift_req g < -9999 \<or> 99999 < gift_req g \<Longrightarrow> filter (\<lambda>t. in_tier t g) gift_tiers = []"
  by (auto simp: gift_tiers_def in_tier_def)

lemma mset_render_gifts_rows:
  "mset (concat (map (\<lambda>(t, cards). map fst cards) (render_gifts gifts))) =
   mset (concat (map (\<lambda>t. filter (in_tier t) gifts) gift_tiers))"
proof -
  have "mset (concat (map (\<lambda>(t, cards). map fst cards) (render_gifts gifts))) =
      sum_list (map (\<lambda>t. mset (tier_gifts gifts t)) gift_tiers)"
    by (simp add: render_gifts_def mset_concat comp_def)
  also have "\<dots> = sum_list (map (\<lambda>t. mset (filter (in_tier t) gifts)) gift_tiers)"
    by (simp add: tier_gifts_def)
  finally show ?thesis by (simp add: mset_concat comp_def)
qed

subsection \<open>Example data\<close>

abbreviation ex_gift :: "int \<Rightarrow> jsval \<Rightarrow> gift" where
  "ex_gift s q \<equiv> \<lparr>gift_name = [], gift_score = JNum s, gift_qty = q\<rparr>"

lemmas gift_eval = gift_cmp_def sold_out_def gift_qty_num_def gift_req_def js_sort_def tier_gifts_def
  render_gifts_def gift_tiers_def in_tier_def

subsection \<open>Properties of the shelf\<close>

text \<open>C28: The comparator of renderGifts makes its in-place sort a stable sort on the key (sold out, required score): the tier rows are exactly the stably sorted filtered gifts.\<close>

theorem tier_gifts_sorted:
  "tier_gifts gifts t = sort_key gift_key (filter (in_tier t) gifts)"
  unfolding tier_gifts_def by (rule js_sort_eq_sort_key [OF gift_cmp_key])

text \<open>Within a tier row, every gift that is not sold out comes before every sold-out gift, and among gifts of the same availability the required scores ascend.\<close>

lemma tier_order:
  "sorted_wrt (\<lambda>a b. \<not> sold_out b \<longrightarrow> \<not> sold_out a \<and> gift_req a \<le> gift_req b) (tier_gifts gifts t)"
proof -
  have "sorted (map gift_key (tier_gifts gifts t))" unfolding tier_gifts_def by (simp add: js_sort_eq_sort_key [OF gift_cmp_key])
  then show ?thesis
    by (auto simp: sorted_map sorted_wrt_iff_nth_less gift_key_def less_eq_prod_def intro!: sorted_wrt_mono_rel[rotated])
qed


text \<open>The example of the specification: scores 10 (quantity 0), 5 (quantity 3) and 8 (empty
  quantity) are ordered 5, 8, 10.\<close>

lemma gift_sort_example:
  "js_sort gift_cmp [ex_gift 10 (JNum 0), ex_gift 5 (JNum 3), ex_gift 8 (JStr [])] =
     [ex_gift 5 (JNum 3), ex_gift 8 (JStr []), ex_gift 10 (JNum 0)]"
  by (simp add: gift_eval js_simps)

text \<open>A null quantity reads as 0 through Number and stamps the gift sold out, while an empty or missing quantity reads as unlimited; a gift requiring 100000 points appears in no row.\<close>

lemma gift_null_quantity_sold_out:
  "sold_out (ex_gift 5 JNull) \<and> \<not> sold_out (ex_gift 5 (JStr [])) \<and> \<not> sold_out (ex_gift 5 JUndef) \<and>
   render_gifts [ex_gift 5 JNull, ex_gift 100000 (JNum 1)] =
     [(\<lparr>tier_min = -9999, tier_max = 5\<rparr>, [(ex_gift 5 JNull, True)]), (\<lparr>tier_min = 6, tier_max = 25\<rparr>, []),
      (\<lparr>tier_min = 26, tier_max = 40\<rparr>, []), (\<lparr>tier_min = 41, tier_max = 85\<rparr>, []),
      (\<lparr>tier_min = 86, tier_max = 99999\<rparr>, [])]"
  by (simp add: gift_eval js_simps)

end
