(* ===== verification/App.thy ===== *)
theory App
  imports Ranking Tiers
begin

text \<open>
  The page state of \<open>src/script.js\<close> and the handlers that change it. The globals
  \<open>allStudents\<close>, \<open>originalStudents\<close>, \<open>isSorted\<close>, \<open>currentFilter\<close>, \<open>titleConfig\<close>,
  \<open>allLogs\<close> and \<open>monthlyKings\<close> form the record \<open>app_state\<close>; a snapshot the server returns
  is a record of optional arrays. The operations are the load of \<open>window.onload\<close>, the
  refresh shared by \<open>updateScores\<close> and \<open>sendScoreRecord\<close>, \<open>toggleSort\<close>,
  \<open>filterStudents\<close>, \<open>logoutTeacher\<close>, and \<open>renderPage\<close> with the two sorts it performs
  in place (the title rules in \<open>renderTitles\<close>, and \<open>allStudents\<close> by name in
  \<open>updateLogStudentOptions('all')\<close>). \<open>renderStudents\<close> produces the student cards,
  composing the rank map, the title resolver, the frame and the medal.
\<close>

subsection \<open>State and snapshot\<close>

record app_state =
  all_students :: "student list"
  original_students :: "student list"
  is_sorted :: bool
  cur_filter :: string
  app_titles :: title_config
  app_logs :: "log_entry list"
  monthly_kings :: "string list"

text \<open>The fields of a server response that the handlers read; \<open>None\<close> is a missing field.\<close>

record snapshot =
  snap_students :: "student list option"
  snap_logs :: "log_entry list option"
  snap_kings :: "string list option"
  snap_titles :: "title_config option"

text \<open>\<open>allStudents = data.students || []; originalStudents = [...allStudents]; \<dots>
  titleConfig = data.titles || { enabled: false, rules: [] }\<close>, with the initial
  \<open>isSorted = false\<close> and \<open>currentFilter = "all"\<close>.\<close>

definition load_snapshot :: "snapshot \<Rightarrow> app_state" where
  "load_snapshot d =
     (let xs = (case snap_students d of None \<Rightarrow> [] | Some xs \<Rightarrow> xs) in
      \<lparr>all_students = xs, original_students = xs, is_sorted = False, cur_filter = ''all'',
       app_titles = (case snap_titles d of None \<Rightarrow> \<lparr>tc_enabled = False, tc_rules = []\<rparr> | Some tc \<Rightarrow> tc),
       app_logs = (case snap_logs d of None \<Rightarrow> [] | Some ls \<Rightarrow> ls),
       monthly_kings = (case snap_kings d of None \<Rightarrow> [] | Some ks \<Rightarrow> ks)\<rparr>)"

subsection \<open>The score sort of the sorted mode\<close>

text \<open>\<open>x || 0\<close> on a stored value: \<open>""\<close>, \<open>null\<close> and \<open>undefined\<close> are falsy and give 0
  (and 0 gives 0); any other value is kept as it is, a text included.\<close>

fun js_or0_val :: "jsval \<Rightarrow> jsval" where
  "js_or0_val (JNum n) = JNum n"
| "js_or0_val (JStr s) = (if s = [] then JNum 0 else JStr s)"
| "js_or0_val JNull = JNum 0"
| "js_or0_val JUndef = JNum 0"

text \<open>\<open>(a, b) => (b["cumulative"] || 0) - (a["cumulative"] || 0)\<close>: the subtraction
  converts both sides with \<open>Number\<close>, and a \<open>NaN\<close> difference counts as 0.\<close>

definition cum_cmp :: "student \<Rightarrow> student \<Rightarrow> int" where
  "cum_cmp a b =
     (case (js_number (js_or0_val (stu_cumulative b)), js_number (js_or0_val (stu_cumulative a))) of
        (Num x, Num y) \<Rightarrow> x - y
      | _ \<Rightarrow> 0)"

text \<open>\<open>targetStudents.sort((a, b) => a["name"].localeCompare(b["name"]))\<close>\<close>

definition name_cmp :: "student \<Rightarrow> student \<Rightarrow> int" where
  "name_cmp a b = locale_cmp (stu_name a) (stu_name b)"

subsection \<open>The student cards\<close>

text \<open>One card of \<open>renderStudents\<close>: name, period score, cumulative score, group label,
  title, the monthly-king badge, frame and medal (image and colours are display).\<close>

record card =
  card_name :: string
  card_score :: int
  card_cum :: int
  card_group :: string
  card_title :: "title_rule option"
  card_king :: bool
  card_frame :: string
  card_medal :: "medal option"

definition student_card :: "app_state \<Rightarrow> (string \<rightharpoonup> nat) \<Rightarrow> student \<Rightarrow> card" where
  "student_card st rmap s =
     \<lparr>card_name = stu_name s, card_score = total_score s, card_cum = cum_score s,
      card_group = group_key s, card_title = student_title (app_titles st) s,
      card_king = (stu_name s \<in> set (monthly_kings st)), card_frame = frame_class (cum_score s),
      card_medal = medal_of rmap (stu_name s)\<rparr>"

text \<open>\<open>const groupRankMap = getGroupRankings(allStudents); let studentsToRender = isSorted ?
  allStudents : originalStudents; if (currentFilter !== 'all') studentsToRender =
  studentsToRender.filter(s => String(s["group"]).trim() === currentFilter);\<close>\<close>

definition visible_students :: "string \<Rightarrow> student list \<Rightarrow> student list" where
  "visible_students g xs = (if g \<noteq> ''all'' then filter (\<lambda>s. group_trim s = g) xs else xs)"

definition render_students :: "app_state \<Rightarrow> card list" where
  "render_students st =
     (let rmap = get_group_rankings (all_students st);
          xs = (if is_sorted st then all_students st else original_students st) in
      map (student_card st rmap) (visible_students (cur_filter st) xs))"

text \<open>\<open>renderPage\<close>: the cards are drawn first; \<open>renderTitles\<close> then sorts the title rules
  in place and \<open>initLogFilter\<close> sorts \<open>allStudents\<close> by name in place.\<close>

definition render_page :: "app_state \<Rightarrow> app_state \<times> card list" where
  "render_page st =
     (let cards = render_students st;
          st1 = st\<lparr>app_titles := fst (render_titles (app_titles st) (all_students st))\<rparr>;
          st2 = st1\<lparr>all_students := js_sort name_cmp (all_students st1)\<rparr> in
      (st2, cards))"

subsection \<open>Handlers\<close>

text \<open>The success branch shared by \<open>updateScores\<close> and \<open>sendScoreRecord\<close>:
  \<open>if (data.students) allStudents = data.students; \<dots> if (isSorted) allStudents.sort(\<dots>);
  renderPage();\<close>. \<open>originalStudents\<close> is left as it is.\<close>

definition refresh :: "snapshot \<Rightarrow> app_state \<Rightarrow> app_state \<times> card list" where
  "refresh d st =
     (let st1 = st\<lparr>all_students := (case snap_students d of None \<Rightarrow> all_students st | Some xs \<Rightarrow> xs),
                   app_logs := (case snap_logs d of None \<Rightarrow> app_logs st | Some ls \<Rightarrow> ls),
                   monthly_kings := (case snap_kings d of None \<Rightarrow> monthly_kings st | Some ks \<Rightarrow> ks)\<rparr>;
          st2 = (if is_sorted st1 then st1\<lparr>all_students := js_sort cum_cmp (all_students st1)\<rparr> else st1) in
      render_page st2)"

text \<open>The success branch of \<open>doEditLog\<close>: \<open>allStudents = data.students || []; allLogs =
  data.logs || []; monthlyKings = data.monthlyKings || []; renderPage(); renderStudents();\<close>;
  unlike the refresh it does not re-sort a sorted page. The cards are those of the second
  render.\<close>

definition edit_log_refresh :: "snapshot \<Rightarrow> app_state \<Rightarrow> app_state \<times> card list" where
  "edit_log_refresh d st =
     (let st1 = st\<lparr>all_students := (case snap_students d of None \<Rightarrow> [] | Some xs \<Rightarrow> xs),
                   app_logs := (case snap_logs d of None \<Rightarrow> [] | Some ls \<Rightarrow> ls),
                   monthly_kings := (case snap_kings d of None \<Rightarrow> [] | Some ks \<Rightarrow> ks)\<rparr>;
          st2 = fst (render_page st1) in
      (st2, render_students st2))"

text \<open>\<open>toggleSort\<close>: \<open>isSorted = !isSorted; if (isSorted) allStudents.sort(\<dots>); else
  allStudents = [...originalStudents]; renderStudents();\<close>\<close>

definition toggle_sort :: "app_state \<Rightarrow> app_state \<times> card list" where
  "toggle_sort st =
     (let st1 = st\<lparr>is_sorted := \<not> is_sorted st\<rparr>;
          st2 = (if is_sorted st1 then st1\<lparr>all_students := js_sort cum_cmp (all_students st1)\<rparr>
                 else st1\<lparr>all_students := original_students st1\<rparr>) in
      (st2, render_students st2))"

text \<open>\<open>filterStudents(groupName)\<close>: \<open>currentFilter = groupName; renderStudents();\<close>\<close>

definition filter_students :: "string \<Rightarrow> app_state \<Rightarrow> app_state \<times> card list" where
  "filter_students g st = (let st1 = st\<lparr>cur_filter := g\<rparr> in (st1, render_students st1))"

text \<open>\<open>logoutTeacher\<close>: \<open>isSorted = false; renderPage();\<close> (the teacher itself is not part of
  this state).\<close>

definition logout :: "app_state \<Rightarrow> app_state \<times> card list" where
  "logout st = render_page (st\<lparr>is_sorted := False\<rparr>)"

subsection \<open>The page as a state machine\<close>

datatype app_op = OpToggle | OpFilter string | OpLogout | OpRender | OpRefresh snapshot | OpEditLog snapshot

fun app_apply :: "app_op \<Rightarrow> app_state \<Rightarrow> app_state \<times> card list" where
  "app_apply OpToggle st = toggle_sort st"
| "app_apply (OpFilter g) st = filter_students g st"
| "app_apply OpLogout st = logout st"
| "app_apply OpRender st = render_page st"
| "app_apply (OpRefresh d) st = refresh d st"
| "app_apply (OpEditLog d) st = edit_log_refresh d st"

inductive app_reach :: "snapshot \<Rightarrow> app_state \<Rightarrow> bool" for d0 where
  load: "app_reach d0 (load_snapshot d0)"
| step: "app_reach d0 st \<Longrightarrow> app_reach d0 (fst (app_apply op st))"

text \<open>A stored cumulative score the sorted mode can compare: \<open>Number(x || 0)\<close> is not \<open>NaN\<close>.\<close>

definition cum_numeric :: "student \<Rightarrow> bool" where
  "cum_numeric s \<longleftrightarrow> js_number (js_or0_val (stu_cumulative s)) \<noteq> NaN"


subsection \<open>The sorted mode and the frozen copy\<close>

lemma str_to_num_empty: "str_to_num [] = Num 0"
  by (simp add: str_to_num_def js_trim_def)

lemma cum_numeric_score:
  assumes "cum_numeric s"
  shows "js_number (js_or0_val (stu_cumulative s)) = Num (cum_score s)"
proof (cases "stu_cumulative s")
  case (JStr x)
  then show ?thesis using assms
    by (cases "str_to_num x") (auto simp: cum_numeric_def cum_score_def coerce_def str_to_num_empty split: if_splits)
qed (use assms in \<open>auto simp: cum_numeric_def cum_score_def coerce_def\<close>)

lemma cum_cmp_key:
  "\<forall>s \<in> set xs. cum_numeric s \<Longrightarrow>
   \<forall>a \<in> set xs. \<forall>b \<in> set xs. cum_cmp a b < 0 \<longleftrightarrow> - cum_score a < - cum_score b"
  by (auto simp: cum_cmp_def cum_numeric_score)

lemma js_sort_cum:
  "\<forall>s \<in> set xs. cum_numeric s \<Longrightarrow> js_sort cum_cmp xs = sort_key (\<lambda>s. - cum_score s) xs"
  by (rule js_sort_eq_sort_key_on) (rule cum_cmp_key)

lemma render_students_names:
  "map card_name (render_students st) =
     map stu_name (visible_students (cur_filter st) (if is_sorted st then all_students st else original_students st))"
  by (simp add: render_students_def student_card_def Let_def comp_def)

lemma render_students_mem:
  "c \<in> set (render_students st) \<Longrightarrow>
   \<exists>s \<in> set (if is_sorted st then all_students st else original_students st).
     c = student_card st (get_group_rankings (all_students st)) s"
  by (auto simp: render_students_def visible_students_def Let_def split: if_splits)

lemma app_apply_original: "original_students (fst (app_apply op st)) = original_students st"
  by (cases op) (simp_all add: toggle_sort_def filter_students_def logout_def render_page_def refresh_def
    edit_log_refresh_def Let_def)

subsection \<open>Example data\<close>

abbreviation ex_app_stu :: "string \<Rightarrow> int \<Rightarrow> student" where
  "ex_app_stu n c \<equiv> \<lparr>stu_name = n, stu_group = JStr ''g'', stu_total = JNum c,
     stu_cumulative = JNum c, stu_monthly = JNum 0, stu_image = JUndef\<rparr>"

abbreviation ex_snap :: "student list \<Rightarrow> snapshot" where
  "ex_snap xs \<equiv> \<lparr>snap_students = Some xs, snap_logs = None, snap_kings = None, snap_titles = None\<rparr>"

lemmas app_eval = load_snapshot_def refresh_def render_page_def render_students_def visible_students_def
  student_card_def toggle_sort_def filter_students_def cum_cmp_def name_cmp_def locale_cmp_def
  render_titles_def student_title_def frame_class_def Let_def

subsection \<open>Properties of the page state\<close>

text \<open>C33: In the sorted mode entered by toggleSort, on a store whose cumulative scores are all numbers, the cards list the visible students in descending cumulative score, ties in store order.\<close>

theorem sorted_mode_order:
  assumes "\<not> is_sorted st" and "\<forall>s \<in> set (all_students st). cum_numeric s"
  shows "map card_name (snd (toggle_sort st)) =
           map stu_name (sort_key (\<lambda>s. - cum_score s) (visible_students (cur_filter st) (all_students st)))"
  using assms by (simp add: toggle_sort_def render_students_names js_sort_cum visible_students_def filter_sort Let_def)

theorem sorted_mode_order_witness:
  "map card_name (snd (toggle_sort (load_snapshot (ex_snap [ex_app_stu ''A'' 10, ex_app_stu ''B'' 50])))) = [''B'', ''A'']"
  using sorted_mode_order [of "load_snapshot (ex_snap [ex_app_stu ''A'' 10, ex_app_stu ''B'' 50])"]
  by (simp add: app_eval rank_eval cum_numeric_def store_simps js_simps)

text \<open>Toggling the sort twice from the unsorted mode restores the state, except that
  allStudents becomes the copy originalStudents.\<close>

lemma toggle_twice_restores:
  assumes "\<not> is_sorted st"
  shows "fst (toggle_sort (fst (toggle_sort st))) = st\<lparr>all_students := original_students st\<rparr>"
  using assms by (simp add: toggle_sort_def Let_def)

text \<open>C35: In every state reachable from a load, whatever refreshes, sorts, filters and renders happen, originalStudents is the student list of the first load: the unsorted mode always shows the load-time records.\<close>

theorem app_original_frozen:
  "app_reach d0 st \<Longrightarrow> original_students st = (case snap_students d0 of None \<Rightarrow> [] | Some xs \<Rightarrow> xs)"
proof (induction rule: app_reach.induct)
  case load
  then show ?case by (simp add: load_snapshot_def Let_def)
next
  case (step st op)
  then show ?case by (simp add: app_apply_original)
qed

theorem app_original_frozen_witness:
  "app_reach (ex_snap [ex_app_stu ''A'' 10])
     (fst (app_apply (OpRefresh (ex_snap [ex_app_stu ''A'' 50])) (load_snapshot (ex_snap [ex_app_stu ''A'' 10])))) \<and>
   original_students (fst (app_apply (OpRefresh (ex_snap [ex_app_stu ''A'' 50])) (load_snapshot (ex_snap [ex_app_stu ''A'' 10])))) =
     [ex_app_stu ''A'' 10]"
proof -
  have R: "app_reach (ex_snap [ex_app_stu ''A'' 10])
     (fst (app_apply (OpRefresh (ex_snap [ex_app_stu ''A'' 50])) (load_snapshot (ex_snap [ex_app_stu ''A'' 10]))))"
    by (intro app_reach.step app_reach.load)
  then show ?thesis using app_original_frozen [OF R] by simp
qed

text \<open>After a refresh that raises a student's cumulative score from 10 to 50, the unsorted page
  still shows 10 on the card.\<close>

lemma refresh_shows_stale_scores:
  "map card_cum (snd (refresh (ex_snap [ex_app_stu ''A'' 50]) (load_snapshot (ex_snap [ex_app_stu ''A'' 10])))) = [10]"
  by (simp add: app_eval rank_eval js_simps store_simps)

text \<open>After sorting by score, any full page render sorts allStudents by name in place, so the next renderStudents in the sorted mode lists the cards by name, not by score.\<close>

lemma page_render_breaks_sorted_mode:
  "let st1 = fst (toggle_sort (load_snapshot (ex_snap [ex_app_stu ''A'' 10, ex_app_stu ''B'' 50])));
       st2 = fst (refresh (ex_snap [ex_app_stu ''A'' 10, ex_app_stu ''B'' 50]) st1) in
   map card_name (snd (toggle_sort (load_snapshot (ex_snap [ex_app_stu ''A'' 10, ex_app_stu ''B'' 50])))) = [''B'', ''A''] \<and>
   is_sorted st2 \<and> map card_name (snd (filter_students ''all'' st2)) = [''A'', ''B'']"
  by (simp add: app_eval rank_eval js_simps store_simps)

end
