(* ===== verification/Actions.thy ===== *)
theory Actions
  imports App
begin

text \<open>
  The teacher's side of \<open>src/script.js\<close>: the check of a typed score and the target of
  a score submission (\<open>sendScoreRecord\<close> up to the request), the batch selector of a group
  (\<open>renderBatchSelector\<close>, \<open>toggleBatchItem\<close>, \<open>resetBatchSelection\<close>) whose exclusion
  set is the global \<open>batchExcludedSet\<close>, the log table filter and the marquee
  (\<open>renderLogs\<close>, \<open>renderMarquee\<close>), the student options of the log filter, and
  \<open>loginTeacher\<close>. The exclusion set is a step relation; its invariant by rule
  induction gives that a submission never goes to an empty custom list when names are
  distinct.
\<close>

subsection \<open>The typed score\<close>

text \<open>\<open>score = customScoreInput.value; if (!score || score <= 0) { alert(\<dots>); return; }\<close>:
  the value is text, \<open>score <= 0\<close> compares \<open>Number(score)\<close> with 0, and every comparison
  with \<open>NaN\<close> is false.\<close>

text \<open>The comparison reads the text as a decimal number: digits with an optional fraction
  after a point (\<open>"5."\<close>, \<open>".5"\<close>), an optional sign, surrounding blanks trimmed,
  the empty text read as 0; anything else is \<open>NaN\<close> (\<open>None\<close>). Exponents, hexadecimal
  and \<open>Infinity\<close> are not read.\<close>

definition unsigned_dec :: "string \<Rightarrow> rat option" where
  "unsigned_dec t =
     (let ip = takeWhile is_digit t; rest = dropWhile is_digit t in
      if rest = [] then (if ip = [] then None else Some (of_nat (digits_val 0 ip)))
      else if hd rest = CHR ''.'' \<and> list_all is_digit (tl rest) \<and> (ip \<noteq> [] \<or> tl rest \<noteq> []) then
        Some (of_nat (digits_val 0 ip) + of_nat (digits_val 0 (tl rest)) / 10 ^ length (tl rest))
      else None)"

definition str_to_dec :: "string \<Rightarrow> rat option" where
  "str_to_dec s =
     (let t = js_trim s in
      if t = [] then Some 0
      else if hd t = CHR ''+'' then unsigned_dec (tl t)
      else if hd t = CHR ''-'' then map_option uminus (unsigned_dec (tl t))
      else unsigned_dec t)"

definition custom_score_ok :: "string \<Rightarrow> bool" where
  "custom_score_ok v \<longleftrightarrow> v \<noteq> [] \<and> (case str_to_dec v of Some q \<Rightarrow> \<not> q \<le> 0 | None \<Rightarrow> True)"

subsection \<open>The batch selector\<close>

text \<open>The group of the open modal and \<open>batchExcludedSet\<close>, a set of names kept in
  insertion order.\<close>

record batch_state =
  batch_group :: string
  excluded :: "string list"

definition batch_init :: batch_state where
  "batch_init = \<lparr>batch_group = [], excluded = []\<rparr>"

text \<open>\<open>allStudents.filter(s => String(s["group"]).trim() === groupName)\<close>\<close>

definition group_students_of :: "student list \<Rightarrow> string \<Rightarrow> student list" where
  "group_students_of xs g = filter (\<lambda>s. group_trim s = g) xs"

text \<open>\<open>renderBatchSelector(groupName)\<close>: \<open>batchExcludedSet.clear()\<close> and one item per member.\<close>

definition render_batch_selector :: "string \<Rightarrow> batch_state \<Rightarrow> batch_state" where
  "render_batch_selector g st = st\<lparr>batch_group := g, excluded := []\<rparr>"

text \<open>\<open>toggleBatchItem(name)\<close>: \<open>delete\<close> if present, else \<open>add\<close>.\<close>

definition toggle_batch_item :: "string \<Rightarrow> batch_state \<Rightarrow> batch_state" where
  "toggle_batch_item n st =
     (if n \<in> set (excluded st) then st\<lparr>excluded := removeAll n (excluded st)\<rparr>
      else st\<lparr>excluded := excluded st @ [n]\<rparr>)"

text \<open>\<open>resetBatchSelection\<close>: \<open>batchExcludedSet.clear()\<close>.\<close>

definition reset_batch :: "batch_state \<Rightarrow> batch_state" where
  "reset_batch st = st\<lparr>excluded := []\<rparr>"

subsection \<open>The submission target\<close>

text \<open>\<open>modalTargetType\<close> and \<open>modalTargetName\<close>: a student or a group modal.\<close>

datatype modal_target = ModalStudent string | ModalGroup string

text \<open>The \<open>targetType\<close> and \<open>targetName\<close> of the request; a custom list is the names
  joined by commas (\<open>join_with\<close>).\<close>

datatype target = TargetStudent string | TargetGroup string | TargetList "string list"

fun join_with :: "char \<Rightarrow> string list \<Rightarrow> string" where
  "join_with c [] = []"
| "join_with c [x] = x"
| "join_with c (x # y # ys) = x @ c # join_with c (y # ys)"

datatype send_error = InvalidScore | NoStudentSelected

text \<open>\<open>sendScoreRecord\<close> before the request: the typed score is checked when the select
  says \<open>custom\<close>; for a group modal, excluding as many names as the group has members
  is refused, and any exclusion turns the target into the list of the other members.\<close>

definition score_request ::
  "student list \<Rightarrow> batch_state \<Rightarrow> modal_target \<Rightarrow> string \<Rightarrow> string \<Rightarrow> send_error + target \<times> string" where
  "score_request xs b tgt sel cust =
     (let score = (if sel = ''custom'' then cust else sel) in
      if sel = ''custom'' \<and> \<not> custom_score_ok cust then Inl InvalidScore
      else case tgt of
        ModalStudent n \<Rightarrow> Inr (TargetStudent n, score)
      | ModalGroup g \<Rightarrow>
          (let gs = group_students_of xs g in
           if length (excluded b) = length gs then Inl NoStudentSelected
           else if excluded b \<noteq> [] then
             Inr (TargetList (filter (\<lambda>n. n \<notin> set (excluded b)) (map stu_name gs)), score)
           else Inr (TargetGroup g, score)))"

definition target_name :: "target \<Rightarrow> string" where
  "target_name t = (case t of TargetStudent n \<Rightarrow> n | TargetGroup g \<Rightarrow> g | TargetList ns \<Rightarrow> join_with CHR '','' ns)"

datatype batch_op = BatchOpen string | BatchToggle string | BatchReset

text \<open>The selector only offers the members of the modal's group, so a toggle names one.\<close>

inductive batch_step :: "student list \<Rightarrow> batch_state \<Rightarrow> batch_op \<Rightarrow> batch_state \<Rightarrow> bool" for xs where
  open_group: "batch_step xs st (BatchOpen g) (render_batch_selector g st)"
| toggle: "n \<in> set (map stu_name (group_students_of xs (batch_group st))) \<Longrightarrow>
    batch_step xs st (BatchToggle n) (toggle_batch_item n st)"
| reset: "batch_step xs st BatchReset (reset_batch st)"

inductive batch_reach :: "student list \<Rightarrow> batch_state \<Rightarrow> bool" for xs where
  init: "batch_reach xs batch_init"
| step: "batch_reach xs st \<Longrightarrow> batch_step xs st op st' \<Longrightarrow> batch_reach xs st'"

text \<open>The exclusion set holds distinct names of members of the modal's group.\<close>

definition batch_inv :: "student list \<Rightarrow> batch_state \<Rightarrow> bool" where
  "batch_inv xs st \<longleftrightarrow> distinct (excluded st) \<and>
     set (excluded st) \<subseteq> set (map stu_name (group_students_of xs (batch_group st)))"

subsection \<open>The log table, the marquee and the login\<close>

text \<open>\<open>const studentInfo = allStudents.find(s => s["name"] === log.student); const
  studentGroup = studentInfo ? String(studentInfo["group"]).trim() : "unassigned";\<close>\<close>

definition log_group :: "student list \<Rightarrow> log_entry \<Rightarrow> string" where
  "log_group xs l =
     (case find (\<lambda>s. stu_name s = log_student l) xs of None \<Rightarrow> unassigned_label | Some s \<Rightarrow> group_trim s)"

definition log_visible :: "student list \<Rightarrow> string \<Rightarrow> string \<Rightarrow> log_entry \<Rightarrow> bool" where
  "log_visible xs gf sf l \<longleftrightarrow>
     (gf = ''all'' \<or> log_group xs l = gf) \<and> (sf = ''all'' \<or> log_student l = sf)"

text \<open>A teacher of the fetched list: account, password and name cells.\<close>

record teacher =
  t_account :: jsval
  t_password :: jsval
  t_name :: string

text \<open>\<open>const teacherObj = teacherList.find(t => t["account"] === log.teacherAcc);
  teacherObj ? teacherObj["name"] : log.teacherAcc\<close>\<close>

definition teacher_name :: "teacher list \<Rightarrow> string \<Rightarrow> string" where
  "teacher_name ts acc =
     (case find (\<lambda>t. t_account t = JStr acc) ts of None \<Rightarrow> acc | Some t \<Rightarrow> t_name t)"

record log_row =
  row_log :: log_entry
  row_teacher :: string
  row_score :: jsnum
  row_editable :: bool

datatype log_view = LogsEmpty | LogRows "log_row list"

text \<open>\<open>renderLogs(groupFilter, studentFilter)\<close>: the filtered logs in store order, or the
  empty message; an edit button on each row when a teacher is logged in.\<close>

definition render_logs ::
  "student list \<Rightarrow> teacher list \<Rightarrow> bool \<Rightarrow> log_entry list \<Rightarrow> string \<Rightarrow> string \<Rightarrow> log_view" where
  "render_logs xs ts logged_in logs gf sf =
     (let shown = filter (log_visible xs gf sf) logs in
      if shown = [] then LogsEmpty
      else LogRows (map (\<lambda>l. \<lparr>row_log = l, row_teacher = teacher_name ts (log_teacher l),
                               row_score = js_number (log_score l), row_editable = logged_in\<rparr>) shown))"

text \<open>\<open>renderMarquee\<close>: hidden without logs, else \<open>allLogs.slice(0, 15)\<close>.\<close>

definition render_marquee :: "log_entry list \<Rightarrow> log_entry list option" where
  "render_marquee logs = (if logs = [] then None else Some (slice logs 0 15))"

text \<open>\<open>updateLogStudentOptions(groupName)\<close>: the option names after the in-place sort; for
  \<open>'all'\<close> the sorted array is \<open>allStudents\<close> itself, which the first component
  returns.\<close>

definition log_student_options :: "student list \<Rightarrow> string \<Rightarrow> student list \<times> string list" where
  "log_student_options xs g =
     (if g \<noteq> ''all'' then (xs, map stu_name (js_sort name_cmp (group_students_of xs g)))
      else let ys = js_sort name_cmp xs in (ys, map stu_name ys))"

text \<open>\<open>loginTeacher\<close>: both inputs are trimmed; a teacher matches when \<open>String\<close> of its
  account and password cells equal them.\<close>

definition login_teacher :: "teacher list \<Rightarrow> string \<Rightarrow> string \<Rightarrow> teacher option" where
  "login_teacher ts acc pwd =
     find (\<lambda>t. js_string (t_account t) = js_trim acc \<and> js_string (t_password t) = js_trim pwd) ts"


subsection \<open>The exclusion set, the trimmed inputs and the marquee\<close>

text \<open>On integer texts the decimal reading agrees with \<open>str_to_num\<close>.\<close>

lemma unsigned_dec_digits:
  "unsigned_num t = Num n \<Longrightarrow> unsigned_dec t = Some (of_int n)"
proof -
  assume u: "unsigned_num t = Num n"
  then have d: "t \<noteq> []" "list_all is_digit t" and n: "n = int (digits_val 0 t)"
    by (auto simp: unsigned_num_def split: if_splits)
  have tw: "takeWhile is_digit t = t" and dw: "dropWhile is_digit t = []"
    using d(2) by (simp_all add: list_all_iff takeWhile_eq_all_conv dropWhile_eq_Nil_conv)
  show ?thesis unfolding unsigned_dec_def Let_def tw dw using d(1) n by simp
qed

lemma str_to_dec_int: "str_to_num s = Num n \<Longrightarrow> str_to_dec s = Some (of_int n)"
  by (auto simp: str_to_num_def str_to_dec_def neg_num_def Let_def unsigned_dec_digits
      split: if_splits jsnum.splits)

lemma batch_step_inv: "batch_step xs st op st' \<Longrightarrow> batch_inv xs st \<Longrightarrow> batch_inv xs st'"
  by (induction rule: batch_step.induct)
     (auto simp: batch_inv_def render_batch_selector_def toggle_batch_item_def reset_batch_def distinct_removeAll)

lemma batch_reach_inv: "batch_reach xs st \<Longrightarrow> batch_inv xs st"
proof (induction rule: batch_reach.induct)
  case init
  then show ?case by (simp add: batch_inv_def batch_init_def)
next
  case (step st op st')
  then show ?case using batch_step_inv by blast
qed

lemma exists_not_excluded:
  assumes "distinct ex" "distinct ns" "set ex \<subseteq> set ns" "length ex \<noteq> length ns"
  shows "filter (\<lambda>n. n \<notin> set ex) ns \<noteq> []"
proof
  assume "filter (\<lambda>n. n \<notin> set ex) ns = []"
  then have "set ns \<subseteq> set ex" by (auto simp: filter_empty_conv)
  with assms(3) have "set ex = set ns" by blast
  then have "length ex = length ns" using assms(1,2) by (metis distinct_card)
  with assms(4) show False by simp
qed

lemma trim_prefix: "\<exists>zs. ys = rev (dropWhile P (rev ys)) @ zs"
proof -
  have "rev ys = takeWhile P (rev ys) @ dropWhile P (rev ys)" by simp
  then have "ys = rev (dropWhile P (rev ys)) @ rev (takeWhile P (rev ys))"
    by (metis rev_append rev_rev_ident)
  then show ?thesis by blast
qed

lemma js_trim_hd: "js_trim s \<noteq> [] \<Longrightarrow> \<not> is_ws (hd (js_trim s))"
proof -
  assume ne: "js_trim s \<noteq> []"
  let ?d = "dropWhile is_ws s"
  obtain zs where zs: "?d = rev (dropWhile is_ws (rev ?d)) @ zs" using trim_prefix by blast
  have "js_trim s = rev (dropWhile is_ws (rev ?d))" by (simp add: js_trim_def)
  then have "hd ?d = hd (js_trim s)" using ne zs by (metis hd_append2)
  moreover have "?d \<noteq> []"
  proof
    assume d: "?d = []"
    have "js_trim s = []" by (simp only: js_trim_def d rev.simps dropWhile.simps)
    with ne show False by simp
  qed
  ultimately show ?thesis by (metis hd_dropWhile)
qed

lemma login_padded_password:
  assumes "js_string (t_password t) \<noteq> []" and "is_ws (hd (js_string (t_password t)))"
  shows "login_teacher ts acc pwd \<noteq> Some t"
proof
  assume "login_teacher ts acc pwd = Some t"
  then have "js_string (t_password t) = js_trim pwd"
    unfolding login_teacher_def by (metis (mono_tags, lifting) find_Some_iff)
  then show False using assms js_trim_hd by metis
qed

lemma marquee_prefix: "render_marquee logs = Some ms \<Longrightarrow> length ms \<le> 15 \<and> (\<exists>zs. logs = ms @ zs)"
  by (auto simp: render_marquee_def slice_def split: if_splits intro: append_take_drop_id [symmetric])

text \<open>With two members of one name, excluding that name passes the size check and
  submits to an empty list.\<close>

lemma batch_duplicate_names_empty_list:
  "score_request [ex_app_stu ''A'' 1, ex_app_stu ''A'' 2] \<lparr>batch_group = ''g'', excluded = [''A'']\<rparr> (ModalGroup ''g'') ''1'' [] =
     Inr (TargetList [], ''1'')"
  by (simp add: score_request_def group_students_of_def store_simps js_simps)

subsection \<open>Properties of the submission\<close>


text \<open>Texts that are not numbers, and fractions, pass; zero, blanks and negative numbers
  do not.\<close>

lemma custom_score_examples:
  "score_request [] batch_init (ModalStudent ''A'') ''custom'' ''abc'' = Inr (TargetStudent ''A'', ''abc'') \<and>
   score_request [] batch_init (ModalStudent ''A'') ''custom'' ''1.5'' = Inr (TargetStudent ''A'', ''1.5'') \<and>
   score_request [] batch_init (ModalStudent ''A'') ''custom'' ''0'' = Inl InvalidScore \<and>
   score_request [] batch_init (ModalStudent ''A'') ''custom'' '' '' = Inl InvalidScore \<and>
   score_request [] batch_init (ModalStudent ''A'') ''custom'' ''-1.5'' = Inl InvalidScore \<and>
   score_request [] batch_init (ModalStudent ''A'') ''custom'' ''0.0'' = Inl InvalidScore \<and>
   score_request [] batch_init (ModalStudent ''A'') ''custom'' ''7'' = Inr (TargetStudent ''A'', ''7'')"
  by (simp add: score_request_def custom_score_ok_def str_to_dec_def unsigned_dec_def js_simps)

text \<open>C34: in every reachable state of the batch selector, and with distinct student names,
  a group submission that goes to a custom list goes to a non-empty list: exactly the
  members of the group that are not excluded.\<close>

theorem batch_target_nonempty:
  assumes "batch_reach xs st" and "distinct (map stu_name xs)"
    and "score_request xs st (ModalGroup (batch_group st)) sel cust = Inr (TargetList ns, sc)"
  shows "ns \<noteq> [] \<and>
    set ns = set (map stu_name (group_students_of xs (batch_group st))) - set (excluded st)"
proof -
  let ?gs = "group_students_of xs (batch_group st)"
  have inv: "distinct (excluded st)" "set (excluded st) \<subseteq> set (map stu_name ?gs)"
    using batch_reach_inv [OF assms(1)] by (auto simp: batch_inv_def)
  have dg: "distinct (map stu_name ?gs)"
    using assms(2) by (simp add: group_students_of_def distinct_map_filter)
  have len: "length (excluded st) \<noteq> length ?gs"
    and ns: "ns = filter (\<lambda>n. n \<notin> set (excluded st)) (map stu_name ?gs)"
    using assms(3) by (auto simp: score_request_def Let_def split: if_splits modal_target.splits)
  have "ns \<noteq> []" using exists_not_excluded [OF inv(1) dg inv(2)] len ns by simp
  then show ?thesis using ns by auto
qed

theorem batch_target_nonempty_witness:
  "score_request [ex_app_stu ''A'' 1, ex_app_stu ''B'' 2] (toggle_batch_item ''A'' (render_batch_selector ''g'' batch_init))
     (ModalGroup ''g'') ''1'' [] = Inr (TargetList [''B''], ''1'')"
proof -
  let ?xs = "[ex_app_stu ''A'' 1, ex_app_stu ''B'' 2]"
  have r1: "batch_reach ?xs (render_batch_selector ''g'' batch_init)"
    by (rule batch_reach.step [OF batch_reach.init batch_step.open_group])
  have "''A'' \<in> set (map stu_name (group_students_of ?xs (batch_group (render_batch_selector ''g'' batch_init))))"
    by (simp add: render_batch_selector_def batch_init_def group_students_of_def store_simps js_simps)
  then have r2: "batch_reach ?xs (toggle_batch_item ''A'' (render_batch_selector ''g'' batch_init))"
    by (rule batch_reach.step [OF r1 batch_step.toggle])
  have "score_request ?xs (toggle_batch_item ''A'' (render_batch_selector ''g'' batch_init)) (ModalGroup ''g'') ''1'' [] =
      Inr (TargetList [''B''], ''1'')"
    by (simp add: score_request_def toggle_batch_item_def render_batch_selector_def batch_init_def
      group_students_of_def store_simps js_simps)
  then show ?thesis
    using batch_target_nonempty [OF r2, of "''1''" "[]" "[''B'']" "''1''"]
    by (simp add: render_batch_selector_def toggle_batch_item_def batch_init_def)
qed

end
