(* ===== verification/Timer.thy ===== *)
theory Timer
  imports JsValues
begin

text \<open>
  The classroom countdown of \<open>src/script.js\<close> (\<open>toggleTimerPanel\<close> to \<open>stopAlarm\<close>): the
  globals \<open>totalSeconds\<close> and \<open>isTimerRunning\<close>, whether the alarm rings (the red
  \<open>.timer-box\<close> and the looping sound), whether the panel is open, and the two input
  fields. A field is modelled by what \<open>parseInt\<close> reads from it (\<open>NaN\<close> for the
  empty field), so writing a number and reading it back is the identity. The
  \<open>setInterval\<close> callback is the operation \<open>tick\<close>, which the page runs once a second
  while the timer runs; the handlers and the tick form a step relation whose invariant
  is proved by rule induction, and the countdown is shown to ring after exactly
  \<open>totalSeconds + 1\<close> ticks.
\<close>

subsection \<open>State\<close>

record timer_state =
  total_secs :: int
  running :: bool
  alarm :: bool
  panel_open :: bool
  min_field :: jsnum
  sec_field :: jsnum

text \<open>\<open>let timerInterval = null, totalSeconds = 0, isTimerRunning = false;\<close>, the panel
  hidden and the fields empty.\<close>

definition timer_init :: timer_state where
  "timer_init = \<lparr>total_secs = 0, running = False, alarm = False, panel_open = False,
     min_field = NaN, sec_field = NaN\<rparr>"

text \<open>\<open>n % 60\<close> in JavaScript keeps the sign of \<open>n\<close>.\<close>

definition js_rem :: "int \<Rightarrow> int \<Rightarrow> int" where
  "js_rem a b = (if a < 0 then - ((- a) mod b) else a mod b)"

subsection \<open>Handlers\<close>

text \<open>\<open>stopTimer\<close>: \<open>isTimerRunning = false; clearInterval(timerInterval)\<close>.\<close>

definition stop_timer :: "timer_state \<Rightarrow> timer_state" where
  "stop_timer st = st\<lparr>running := False\<rparr>"

text \<open>\<open>stopAlarm\<close>: the sound paused and the red box cleared.\<close>

definition stop_alarm :: "timer_state \<Rightarrow> timer_state" where
  "stop_alarm st = st\<lparr>alarm := False\<rparr>"

text \<open>\<open>toggleTimerPanel\<close>\<close>

definition toggle_timer_panel :: "timer_state \<Rightarrow> timer_state" where
  "toggle_timer_panel st =
     (if \<not> panel_open st then stop_alarm (st\<lparr>panel_open := True\<rparr>)
      else stop_alarm (stop_timer (st\<lparr>panel_open := False\<rparr>)))"

text \<open>\<open>applyCustomTime\<close>: \<open>let m = parseInt(min) || 0; let s = parseInt(sec) || 0;
  stopTimer(); stopAlarm(); totalSeconds = (m * 60) + s;\<close>\<close>

definition apply_custom_time :: "timer_state \<Rightarrow> timer_state" where
  "apply_custom_time st =
     (let m = js_or0 (min_field st); s = js_or0 (sec_field st) in
      (stop_alarm (stop_timer st))\<lparr>total_secs := m * 60 + s\<rparr>)"

text \<open>\<open>addTime(minutes)\<close>: \<open>stopAlarm(); if (isTimerRunning) stopTimer(); totalSeconds +=
  minutes * 60;\<close> and the fields set to \<open>Math.floor(totalSeconds / 60)\<close> and
  \<open>totalSeconds % 60\<close>.\<close>

definition add_time :: "int \<Rightarrow> timer_state \<Rightarrow> timer_state" where
  "add_time mins st =
     (let st1 = stop_alarm st;
          st2 = (if running st1 then stop_timer st1 else st1);
          t = total_secs st2 + mins * 60 in
      st2\<lparr>total_secs := t, min_field := Num (t div 60), sec_field := Num (js_rem t 60)\<rparr>)"

text \<open>\<open>resetTimer\<close>: stopped, silent, zero, fields emptied.\<close>

definition reset_timer :: "timer_state \<Rightarrow> timer_state" where
  "reset_timer st = (stop_alarm (stop_timer st))\<lparr>total_secs := 0, min_field := NaN, sec_field := NaN\<rparr>"

text \<open>\<open>startTimer\<close>: \<open>if (totalSeconds === 0) applyCustomTime(); if (totalSeconds <= 0) {
  alert(\<dots>); return; } if (isTimerRunning) return; \<dots> isTimerRunning = true;
  timerInterval = setInterval(\<dots>)\<close>. The flag says whether the alert was shown.\<close>

definition start_timer :: "timer_state \<Rightarrow> timer_state \<times> bool" where
  "start_timer st =
     (let st1 = (if total_secs st = 0 then apply_custom_time st else st) in
      if total_secs st1 \<le> 0 then (st1, True)
      else if running st1 then (st1, False)
      else (st1\<lparr>running := True\<rparr>, False))"

text \<open>\<open>timeIsUp\<close>: \<open>stopTimer()\<close>, then the box turns red and the alarm rings.\<close>

definition time_is_up :: "timer_state \<Rightarrow> timer_state" where
  "time_is_up st = (stop_timer st)\<lparr>alarm := True\<rparr>"

text \<open>The interval callback: \<open>if (totalSeconds > 0) totalSeconds--; else timeIsUp();\<close>.\<close>

definition tick :: "timer_state \<Rightarrow> timer_state" where
  "tick st =
     (if 0 < total_secs st then st\<lparr>total_secs := total_secs st - 1\<rparr>
      else time_is_up st)"

text \<open>The interval of \<open>startTimer\<close> fires until \<open>timeIsUp\<close> clears it: run as a loop,
  the callback is applied while the timer runs. The count of remaining callbacks, the
  seconds left plus one, decreases with each.\<close>

function run_interval :: "timer_state \<Rightarrow> timer_state" where
  "run_interval st = (if running st then run_interval (tick st) else st)"
  by pat_completeness auto
termination
  by (relation "measure (\<lambda>st. if running st then nat (total_secs st) + 1 else 0)")
     (auto simp: tick_def time_is_up_def stop_timer_def)

declare run_interval.simps [simp del]

text \<open>\<open>updateTimerDisplay\<close>: \<open>const m = Math.floor(totalSeconds / 60); const s =
  totalSeconds % 60; `${m < 10 ? "0" + m : m}:${s < 10 ? "0" + s : s}`\<close>.\<close>

definition pad2 :: "int \<Rightarrow> string" where
  "pad2 n = (if n < 10 then CHR ''0'' # int_to_string n else int_to_string n)"

definition timer_text :: "int \<Rightarrow> string" where
  "timer_text t = pad2 (t div 60) @ CHR '':'' # pad2 (js_rem t 60)"

subsection \<open>The timer as a state machine\<close>

datatype timer_op = TogglePanel | ApplyCustom jsnum jsnum | AddTime int | Reset | Start | Tick

text \<open>\<open>ApplyCustom m s\<close> is the user typing into the fields and pressing apply; a tick
  only happens while the interval is set, that is while the timer runs.\<close>

inductive timer_step :: "timer_state \<Rightarrow> timer_op \<Rightarrow> timer_state \<Rightarrow> bool" where
  panel: "timer_step st TogglePanel (toggle_timer_panel st)"
| custom: "timer_step st (ApplyCustom m s) (apply_custom_time (st\<lparr>min_field := m, sec_field := s\<rparr>))"
| add: "timer_step st (AddTime k) (add_time k st)"
| reset: "timer_step st Reset (reset_timer st)"
| start: "timer_step st Start (fst (start_timer st))"
| tick: "running st \<Longrightarrow> timer_step st Tick (tick st)"

inductive timer_reach :: "timer_state \<Rightarrow> bool" where
  init: "timer_reach timer_init"
| step: "timer_reach st \<Longrightarrow> timer_step st op st' \<Longrightarrow> timer_reach st'"

text \<open>A running timer counts down from a non-negative number, and the alarm rings only
  on a stopped timer at zero.\<close>

definition timer_inv :: "timer_state \<Rightarrow> bool" where
  "timer_inv st \<longleftrightarrow>
     (running st \<longrightarrow> 0 \<le> total_secs st) \<and> (alarm st \<longrightarrow> \<not> running st \<and> total_secs st = 0)"


subsection \<open>Steps preserve the invariant; the countdown\<close>

lemma timer_step_inv: "timer_step st op st' \<Longrightarrow> timer_inv st \<Longrightarrow> timer_inv st'"
  by (induction rule: timer_step.induct)
     (auto simp: timer_inv_def toggle_timer_panel_def apply_custom_time_def add_time_def reset_timer_def
        start_timer_def tick_def time_is_up_def stop_timer_def stop_alarm_def Let_def)

lemma tick_funpow:
  "0 \<le> total_secs st \<Longrightarrow> running st \<Longrightarrow> k \<le> nat (total_secs st) \<Longrightarrow>
   (tick ^^ k) st = st\<lparr>total_secs := total_secs st - int k\<rparr>"
proof (induction k)
  case 0
  then show ?case by simp
next
  case (Suc k)
  then have "(tick ^^ k) st = st\<lparr>total_secs := total_secs st - int k\<rparr>" by simp
  then have E: "(tick ^^ Suc k) st = tick (st\<lparr>total_secs := total_secs st - int k\<rparr>)" by simp
  have "0 < total_secs st - int k" using Suc.prems by linarith
  then have T: "tick (st\<lparr>total_secs := total_secs st - int k\<rparr>) = st\<lparr>total_secs := total_secs st - int (Suc k)\<rparr>"
    by (simp add: tick_def time_is_up_def)
  show ?case by (simp only: E T)
qed

lemma js_rem_nonneg: "0 \<le> a \<Longrightarrow> js_rem a 60 = a mod 60"
  by (simp add: js_rem_def)

lemma digits_val_append: "digits_val acc (xs @ ys) = digits_val (digits_val acc xs) ys"
  by (induction xs arbitrary: acc) auto

lemma pad2_props:
  assumes "0 \<le> n" "n < 100"
  shows "length (pad2 n) = 2 \<and> list_all is_digit (pad2 n) \<and> str_to_num (pad2 n) = Num n"
proof (cases "n < 10")
  case True
  let ?c = "''0123456789'' ! nat n"
  have nn: "nat n < 10" using True by simp
  have nd: "nat_digits (nat n) = [?c]" using nn by (simp add: nat_digits.simps)
  have d: "int_to_string n = [?c]" using assms nd by (simp add: int_to_string_def)
  have p: "list_all is_digit (nat_digits (nat n)) \<and> digits_val 0 (nat_digits (nat n)) = nat n"
    using nat_digits_props by blast
  then have c: "is_digit ?c" "digits_val 0 [?c] = nat n"
    by (simp_all add: nd)
  have z: "is_digit (CHR ''0'')" by (simp add: is_digit_def)
  have "str_to_num (CHR ''0'' # [?c]) = Num n"
    using c z assms js_trim_digits(1) [of "CHR ''0'' # [?c]"]
    by (simp add: str_to_num_def unsigned_num_def)
  then show ?thesis using True d c z by (simp add: pad2_def)
next
  case False
  have "nat n div 10 < 10" "10 \<le> nat n" using False assms by auto
  then have "length (nat_digits (nat n)) = 2"
    by (simp add: nat_digits.simps [of "nat n"] nat_digits.simps [of "nat n div 10"])
  moreover have "list_all is_digit (nat_digits (nat n))" using nat_digits_props by blast
  ultimately show ?thesis using False assms str_to_num_int_to_string [of n]
    by (simp add: pad2_def int_to_string_def)
qed

text \<open>For a total below 100 minutes the display is \<open>mm:ss\<close>, and reading its two
  fields back with \<open>Number\<close> gives the minutes and seconds of the total.\<close>

lemma timer_text_roundtrip:
  assumes "0 \<le> t" "t < 6000"
  shows "length (timer_text t) = 5 \<and> timer_text t ! 2 = CHR '':'' \<and>
         str_to_num (take 2 (timer_text t)) = Num (t div 60) \<and> str_to_num (drop 3 (timer_text t)) = Num (t mod 60) \<and>
         60 * (t div 60) + t mod 60 = t"
proof -
  have m: "length (pad2 (t div 60)) = 2 \<and> list_all is_digit (pad2 (t div 60)) \<and> str_to_num (pad2 (t div 60)) = Num (t div 60)"
    using assms by (intro pad2_props) auto
  have s: "length (pad2 (t mod 60)) = 2 \<and> list_all is_digit (pad2 (t mod 60)) \<and> str_to_num (pad2 (t mod 60)) = Num (t mod 60)"
    by (intro pad2_props) auto
  show ?thesis using m s assms by (simp add: timer_text_def js_rem_def nth_append)
qed

lemmas timer_eval = timer_init_def toggle_timer_panel_def apply_custom_time_def add_time_def reset_timer_def
  start_timer_def tick_def time_is_up_def stop_timer_def stop_alarm_def js_rem_def Let_def

text \<open>With the fields at 0 minutes and -30 seconds the total is -30; \<open>addTime(0)\<close> writes
  \<open>Math.floor(-30 / 60) = -1\<close> and \<open>-30 % 60 = -30\<close> into them, which apply then reads
  as -90.\<close>

lemma add_time_negative_fields:
  "let st = add_time 0 (apply_custom_time (timer_init\<lparr>min_field := Num 0, sec_field := Num (-30)\<rparr>)) in
   total_secs st = -30 \<and> total_secs (apply_custom_time st) = -90"
  by (simp add: timer_eval)

subsection \<open>Properties of the timer\<close>

text \<open>C22: the interval loop of a running timer terminates: applied until the timer stops,
  the callback leaves it stopped at zero (or at its negative total) with the alarm
  ringing; a stopped timer has no interval.\<close>

theorem run_interval_rings:
  "run_interval st =
     (if running st then st\<lparr>total_secs := min 0 (total_secs st), running := False, alarm := True\<rparr> else st)"
proof (induction st rule: run_interval.induct)
  case (1 st)
  show ?case
  proof (cases "running st")
    case False
    then show ?thesis by (simp add: run_interval.simps [of st])
  next
    case True
    show ?thesis
    proof (cases "0 < total_secs st")
      case pos: True
      have "run_interval st = run_interval (tick st)" using True by (simp add: run_interval.simps [of st])
      also have "\<dots> = (tick st)\<lparr>total_secs := min 0 (total_secs (tick st)), running := False, alarm := True\<rparr>"
        using "1.IH" [OF True] True pos by (simp add: tick_def time_is_up_def)
      finally show ?thesis using True pos by (simp add: tick_def time_is_up_def)
    next
      case npos: False
      have t: "tick st = st\<lparr>running := False, alarm := True\<rparr>" using npos by (simp add: tick_def time_is_up_def stop_timer_def)
      have "run_interval st = run_interval (tick st)" using True by (simp add: run_interval.simps [of st])
      also have "\<dots> = tick st" by (subst run_interval.simps) (simp add: t)
      finally show ?thesis using True npos t by simp
    qed
  qed
qed

text \<open>C38: In every state reachable from the initial one by the handlers and the ticks of a running timer, a running timer holds a non-negative number of seconds, and the alarm rings only on a stopped timer at zero.\<close>

theorem timer_reach_inv: "timer_reach st \<Longrightarrow> timer_inv st"
proof (induction rule: timer_reach.induct)
  case init
  then show ?case by (simp add: timer_inv_def timer_init_def)
next
  case (step st op st')
  then show ?case using timer_step_inv by blast
qed

theorem timer_reach_inv_witness:
  "timer_reach (tick (fst (start_timer (apply_custom_time (timer_init\<lparr>min_field := Num 1, sec_field := Num 0\<rparr>))))) \<and>
   timer_inv (tick (fst (start_timer (apply_custom_time (timer_init\<lparr>min_field := Num 1, sec_field := Num 0\<rparr>)))))"
proof -
  let ?s1 = "apply_custom_time (timer_init\<lparr>min_field := Num 1, sec_field := Num 0\<rparr>)"
  have r1: "timer_reach ?s1"
    using timer_reach.step [OF timer_reach.init timer_step.custom [of timer_init "Num 1" "Num 0"]] by simp
  have r2: "timer_reach (fst (start_timer ?s1))" by (rule timer_reach.step [OF r1 timer_step.start])
  have "running (fst (start_timer ?s1))" by (simp add: timer_eval)
  then have r3: "timer_reach (tick (fst (start_timer ?s1)))" by (rule timer_reach.step [OF r2 timer_step.tick])
  then show ?thesis using timer_reach_inv [OF r3] by simp
qed

text \<open>C39: A running timer with n non-negative seconds left keeps running silently for n ticks, and the tick after them stops it at zero and rings the alarm: the countdown ends.\<close>

theorem countdown_rings:
  assumes "running st" and "0 \<le> total_secs st"
  shows "(tick ^^ (nat (total_secs st) + 1)) st = st\<lparr>total_secs := 0, running := False, alarm := True\<rparr> \<and>
         (\<forall>k \<le> nat (total_secs st). running ((tick ^^ k) st) \<and> \<not> alarm ((tick ^^ k) st) \<longleftrightarrow> \<not> alarm st)"
proof -
  have "(tick ^^ nat (total_secs st)) st = st\<lparr>total_secs := 0\<rparr>"
    using tick_funpow [OF assms(2,1) order_refl] assms by simp
  then have 1: "(tick ^^ (nat (total_secs st) + 1)) st = st\<lparr>total_secs := 0, running := False, alarm := True\<rparr>"
    by (simp add: tick_def time_is_up_def stop_timer_def)
  have "\<forall>k \<le> nat (total_secs st). running ((tick ^^ k) st) \<and> \<not> alarm ((tick ^^ k) st) \<longleftrightarrow> \<not> alarm st"
    using tick_funpow assms by simp
  with 1 show ?thesis by blast
qed

theorem countdown_rings_witness:
  "(tick ^^ 3) (timer_init\<lparr>total_secs := 2, running := True\<rparr>) = timer_init\<lparr>total_secs := 0, running := False, alarm := True\<rparr>"
  using countdown_rings [of "timer_init\<lparr>total_secs := 2, running := True\<rparr>"] by (simp add: timer_init_def numeral_3_eq_3)

text \<open>C40: The input fields that addTime fills in read back, through applyCustomTime, as the same total when the total is not negative.\<close>

theorem add_time_fields_roundtrip:
  assumes "0 \<le> total_secs (add_time k st)"
  shows "total_secs (apply_custom_time (add_time k st)) = total_secs (add_time k st)"
proof -
  let ?t = "total_secs (add_time k st)"
  have "min_field (add_time k st) = Num (?t div 60)" "sec_field (add_time k st) = Num (js_rem ?t 60)"
    by (simp_all add: add_time_def Let_def stop_alarm_def stop_timer_def)
  then show ?thesis using assms by (simp add: apply_custom_time_def js_rem_nonneg stop_alarm_def stop_timer_def)
qed

theorem add_time_fields_roundtrip_witness:
  "total_secs (apply_custom_time (add_time 5 timer_init)) = 300"
  using add_time_fields_roundtrip [of 5 timer_init] by (simp add: timer_eval)

end
