(* ===== verification/Lucky.thy ===== *)
theory Lucky
  imports Store
begin

text \<open>
  The lucky draw of \<open>src/script.js\<close> (\<open>selectLuckyGroup\<close> to \<open>resetLuckyCard\<close>): the
  globals \<open>currentGroupStudents\<close>, \<open>excludedNames\<close>, \<open>activeCandidates\<close>,
  \<open>luckyIntervalId\<close> (whether the animation runs) and \<open>currentLuckyStudent\<close>. The
  animation's interval callback picks \<open>activeCandidates[Math.floor(Math.random() * n)]\<close>;
  the random index is a parameter of the step. Reading a field of the \<open>undefined\<close> it
  picks from an empty list throws, which is the error value of a frame. Exclusions are
  locked while the animation runs; switching the group is not, and that is how a running
  animation can reach an empty candidate list.
\<close>

subsection \<open>State and handlers\<close>

record lucky_state =
  lk_group :: "student list"
  lk_excluded :: "string list"
  lk_active :: "student list"
  lk_running :: bool
  lk_current :: "student option"

definition lucky_init :: lucky_state where
  "lucky_init = \<lparr>lk_group = [], lk_excluded = [], lk_active = [], lk_running = False, lk_current = None\<rparr>"

text \<open>\<open>updateActiveCandidates\<close>: \<open>activeCandidates = currentGroupStudents.filter(s =>
  !excludedNames.has(s["name"]))\<close>.\<close>

definition update_active :: "lucky_state \<Rightarrow> lucky_state" where
  "update_active st = st\<lparr>lk_active := filter (\<lambda>s. stu_name s \<notin> set (lk_excluded st)) (lk_group st)\<rparr>"

text \<open>\<open>selectLuckyGroup(groupName)\<close>: the members of the group, \<open>excludedNames.clear()\<close>,
  the candidates, and \<open>resetLuckyCard\<close> (\<open>currentLuckyStudent = null\<close>); the running
  animation is not stopped.\<close>

definition select_lucky_group :: "student list \<Rightarrow> string \<Rightarrow> lucky_state \<Rightarrow> lucky_state" where
  "select_lucky_group xs g st =
     (update_active (st\<lparr>lk_group := filter (\<lambda>s. group_trim s = g) xs, lk_excluded := []\<rparr>))\<lparr>lk_current := None\<rparr>"

text \<open>\<open>toggleExclusion(name)\<close>: ignored while the animation runs.\<close>

definition toggle_exclusion :: "string \<Rightarrow> lucky_state \<Rightarrow> lucky_state" where
  "toggle_exclusion n st =
     (if lk_running st then st
      else update_active (if n \<in> set (lk_excluded st) then st\<lparr>lk_excluded := removeAll n (lk_excluded st)\<rparr>
                          else st\<lparr>lk_excluded := lk_excluded st @ [n]\<rparr>))"

text \<open>\<open>resetExclusion\<close>: ignored while the animation runs.\<close>

definition reset_exclusion :: "lucky_state \<Rightarrow> lucky_state" where
  "reset_exclusion st = (if lk_running st then st else update_active (st\<lparr>lk_excluded := []\<rparr>))"

text \<open>\<open>toggleLuckyDrawManual\<close> and \<open>startAutoLuckyDraw\<close> start the animation only on a
  non-empty candidate list (\<open>startAnimation\<close> sets the interval).\<close>

definition start_lucky :: "lucky_state \<Rightarrow> lucky_state" where
  "start_lucky st = (if lk_running st \<or> lk_active st = [] then st else st\<lparr>lk_running := True\<rparr>)"

text \<open>\<open>stopAnimation\<close>: the interval cleared; the score modal opens for the current
  student, whose name is returned.\<close>

definition stop_lucky :: "lucky_state \<Rightarrow> lucky_state \<times> string option" where
  "stop_lucky st = (st\<lparr>lk_running := False\<rparr>, map_option stu_name (lk_current st))"

datatype lucky_error = UndefinedStudent

text \<open>One frame of the animation with the random index \<open>i\<close>: \<open>const student =
  activeCandidates[i]; currentLuckyStudent = student; updateLuckyCardDisplay(student)\<close>,
  which reads \<open>student["name"]\<close> and throws on \<open>undefined\<close>.\<close>

definition lucky_frame :: "nat \<Rightarrow> lucky_state \<Rightarrow> lucky_error + lucky_state" where
  "lucky_frame i st =
     (if i < length (lk_active st) then Inr (st\<lparr>lk_current := Some (lk_active st ! i)\<rparr>)
      else Inl UndefinedStudent)"

subsection \<open>The draw as a state machine\<close>

datatype lucky_op = LkSelect string | LkToggle string | LkReset | LkStart | LkStop | LkFrame nat

text \<open>The random index of a frame is below the number of candidates when there are any
  (\<open>Math.floor(Math.random() * n)\<close>) and 0 otherwise; frames only come while the
  interval runs. A step that throws leaves the state as it was (the interval goes on).\<close>

inductive lucky_step :: "student list \<Rightarrow> lucky_state \<Rightarrow> lucky_op \<Rightarrow> lucky_error + lucky_state \<Rightarrow> bool" for xs where
  select: "lucky_step xs st (LkSelect g) (Inr (select_lucky_group xs g st))"
| toggle: "lucky_step xs st (LkToggle n) (Inr (toggle_exclusion n st))"
| reset: "lucky_step xs st LkReset (Inr (reset_exclusion st))"
| start: "lucky_step xs st LkStart (Inr (start_lucky st))"
| stop: "lk_running st \<Longrightarrow> lucky_step xs st LkStop (Inr (fst (stop_lucky st)))"
| frame: "lk_running st \<Longrightarrow> (i < length (lk_active st) \<or> (lk_active st = [] \<and> i = 0)) \<Longrightarrow>
    lucky_step xs st (LkFrame i) (lucky_frame i st)"

inductive lucky_reach :: "student list \<Rightarrow> lucky_state \<Rightarrow> bool" for xs where
  init: "lucky_reach xs lucky_init"
| step: "lucky_reach xs st \<Longrightarrow> lucky_step xs st op (Inr st') \<Longrightarrow> lucky_reach xs st'"

text \<open>The same steps, but the group buttons are not pressed while the animation runs.\<close>

inductive lucky_reach_guarded :: "student list \<Rightarrow> lucky_state \<Rightarrow> bool" for xs where
  init: "lucky_reach_guarded xs lucky_init"
| step: "lucky_reach_guarded xs st \<Longrightarrow> lucky_step xs st op (Inr st') \<Longrightarrow>
    (\<forall>g. op = LkSelect g \<longrightarrow> \<not> lk_running st) \<Longrightarrow> lucky_reach_guarded xs st'"

text \<open>The candidates are the members not excluded, and the drawn student is one of the
  group's members.\<close>

definition lucky_inv :: "lucky_state \<Rightarrow> bool" where
  "lucky_inv st \<longleftrightarrow>
     lk_active st = filter (\<lambda>s. stu_name s \<notin> set (lk_excluded st)) (lk_group st) \<and>
     (\<forall>s. lk_current st = Some s \<longrightarrow> s \<in> set (lk_group st))"


abbreviation ex_app_lk :: "string \<Rightarrow> student" where
  "ex_app_lk n \<equiv> \<lparr>stu_name = n, stu_group = JStr ''g'', stu_total = JNum 0, stu_cumulative = JNum 0,
     stu_monthly = JNum 0, stu_image = JUndef\<rparr>"

subsection \<open>Invariants of the draw\<close>

lemma lucky_step_inv:
  "lucky_step xs st op (Inr st') \<Longrightarrow> lucky_inv st \<Longrightarrow> lucky_inv st'"
proof (induction st op "Inr st' :: lucky_error + lucky_state" rule: lucky_step.induct)
  case (frame st i)
  then have i: "i < length (lk_active st)" and st': "st' = st\<lparr>lk_current := Some (lk_active st ! i)\<rparr>"
    by (auto simp: lucky_frame_def split: if_splits)
  have "lk_active st ! i \<in> set (lk_active st)" using i by (rule nth_mem)
  moreover have "set (lk_active st) \<subseteq> set (lk_group st)" using frame.prems by (auto simp: lucky_inv_def)
  ultimately show ?case using frame.prems st' by (auto simp: lucky_inv_def)
qed (auto simp: lucky_inv_def select_lucky_group_def update_active_def toggle_exclusion_def
       reset_exclusion_def start_lucky_def stop_lucky_def split: if_splits)

lemma lucky_reach_inv: "lucky_reach xs st \<Longrightarrow> lucky_inv st"
proof (induction rule: lucky_reach.induct)
  case init
  then show ?case by (simp add: lucky_inv_def lucky_init_def)
next
  case (step st op st')
  then show ?case using lucky_step_inv by blast
qed

lemma lucky_guarded_running:
  "lucky_reach_guarded xs st \<Longrightarrow> lk_running st \<Longrightarrow> lk_active st \<noteq> []"
proof (induction rule: lucky_reach_guarded.induct)
  case init
  then show ?case by (simp add: lucky_init_def)
next
  case (step st op st')
  from step.hyps(2) step.hyps(3) step.IH step.prems show ?case
    by (cases rule: lucky_step.cases)
       (auto simp: select_lucky_group_def update_active_def toggle_exclusion_def reset_exclusion_def
          start_lucky_def stop_lucky_def lucky_frame_def split: if_splits)
qed

text \<open>Switching to a group without members while the animation runs leaves it running
  on an empty candidate list, and the next frame throws.\<close>

lemma lucky_switch_crash:
  "let xs = [\<lparr>stu_name = ''A'', stu_group = JStr ''g'', stu_total = JNum 0, stu_cumulative = JNum 0,
              stu_monthly = JNum 0, stu_image = JUndef\<rparr>];
       st = select_lucky_group xs ''h'' (start_lucky (select_lucky_group xs ''g'' lucky_init)) in
   lk_running st \<and> lk_active st = [] \<and> lucky_step xs st (LkFrame 0) (Inl UndefinedStudent)"
proof -
  let ?xs = "[\<lparr>stu_name = ''A'', stu_group = JStr ''g'', stu_total = JNum 0, stu_cumulative = JNum 0,
              stu_monthly = JNum 0, stu_image = JUndef\<rparr>]"
  let ?st = "select_lucky_group ?xs ''h'' (start_lucky (select_lucky_group ?xs ''g'' lucky_init))"
  have r: "lk_running ?st" and e: "lk_active ?st = []"
    by (simp_all add: select_lucky_group_def start_lucky_def update_active_def lucky_init_def store_simps js_simps)
  have "lucky_step ?xs ?st (LkFrame 0) (lucky_frame 0 ?st)" by (rule lucky_step.frame) (simp_all add: r e)
  moreover have "lucky_frame 0 ?st = Inl UndefinedStudent" using e by (simp add: lucky_frame_def)
  ultimately show ?thesis using r e by (simp add: Let_def)
qed

subsection \<open>Properties of the draw\<close>

text \<open>C36: as long as the group is not switched during an animation, every frame of a
  running animation draws one of the current candidates and never throws.\<close>

theorem lucky_frames_safe:
  assumes "lucky_reach_guarded xs st" and "lucky_step xs st (LkFrame i) r"
  shows "\<exists>st'. r = Inr st' \<and> (\<exists>s \<in> set (lk_active st). lk_current st' = Some s)"
proof -
  from assms(2) have run: "lk_running st" and i: "i < length (lk_active st) \<or> (lk_active st = [] \<and> i = 0)"
    and r: "r = lucky_frame i st"
    by (auto elim: lucky_step.cases)
  have "lk_active st \<noteq> []" using lucky_guarded_running [OF assms(1) run] .
  then have "i < length (lk_active st)" using i by auto
  then show ?thesis using r by (auto simp: lucky_frame_def)
qed

theorem lucky_frames_safe_witness:
  "lucky_frame 0 (start_lucky (select_lucky_group [ex_app_lk ''A''] ''g'' lucky_init)) =
     Inr ((start_lucky (select_lucky_group [ex_app_lk ''A''] ''g'' lucky_init))\<lparr>lk_current := Some (ex_app_lk ''A'')\<rparr>)"
proof -
  let ?xs = "[ex_app_lk ''A'']"
  let ?s1 = "select_lucky_group ?xs ''g'' lucky_init"
  let ?s2 = "start_lucky ?s1"
  have lk: "lk_running lucky_init = False" by (simp add: lucky_init_def)
  have r1: "lucky_reach_guarded ?xs ?s1"
    by (rule lucky_reach_guarded.step [OF lucky_reach_guarded.init lucky_step.select]) (simp add: lk)
  have r2: "lucky_reach_guarded ?xs ?s2"
    by (rule lucky_reach_guarded.step [OF r1 lucky_step.start]) simp
  have act: "lk_active ?s2 = [ex_app_lk ''A'']" and run: "lk_running ?s2"
    by (simp_all add: select_lucky_group_def start_lucky_def update_active_def lucky_init_def store_simps js_simps)
  have st: "lucky_step ?xs ?s2 (LkFrame 0) (lucky_frame 0 ?s2)"
    by (rule lucky_step.frame [OF run]) (simp add: act)
  show ?thesis
    using lucky_frames_safe [OF r2 st] act by (simp add: lucky_frame_def)
qed

end
