(* ===== verification/Widgets.thy ===== *)
theory Widgets
  imports Prelude
begin

text \<open>
  The classroom widgets of \<open>src/script.js\<close> that hold state of their own: the dice of
  \<open>selectDiceType\<close>/\<open>rollDice\<close> over \<open>currentDiceMax\<close> and \<open>isRolling\<close>, and the loading
  bar of \<open>startLoadingSimulation\<close>, \<open>updateProgressBar\<close> and \<open>finishLoading\<close> driven by the
  first request of \<open>window.onload\<close>. Each \<open>Math.random()\<close> is a parameter
  \<open>r \<in> [0, 1)\<close> of the step that draws it; every timer callback (interval frame or
  timeout) is a step of a relation, enabled while the timer that fires it is scheduled.
\<close>

subsection \<open>Dice\<close>

text \<open>\<open>Math.floor(Math.random() * currentDiceMax) + 1\<close>.\<close>

definition dice_roll :: "rat \<Rightarrow> int \<Rightarrow> int" where
  "dice_roll r m = \<lfloor>r * of_int m\<rfloor> + 1"

datatype dice_face = DiceD6 | DiceD20

text \<open>\<open>currentDiceMax\<close>, \<open>isRolling\<close>, the text of \<open>diceResult\<close> (\<open>None\<close> for \<open>"?"\<close>), the
  d6/d20 class of \<open>diceDisplay\<close>, its \<open>dice-shaking\<close> and \<open>dice-pop\<close> classes, and the
  number of roll animations (a frame interval with its closing timeout) scheduled.\<close>

record dice_state =
  dice_max :: int
  is_rolling :: bool
  dice_shown :: "int option"
  dice_class :: dice_face
  dice_shaking :: bool
  dice_pop :: bool
  dice_anims :: nat

definition dice_init :: dice_state where
  "dice_init = \<lparr>dice_max = 6, is_rolling = False, dice_shown = None, dice_class = DiceD6,
     dice_shaking = False, dice_pop = False, dice_anims = 0\<rparr>"

definition select_dice_type :: "int \<Rightarrow> dice_state \<Rightarrow> dice_state" where
  "select_dice_type sides st =
     (if is_rolling st then st
      else st\<lparr>dice_max := sides, dice_shown := None,
               dice_class := (if sides = 6 then DiceD6 else DiceD20)\<rparr>)"

definition roll_dice :: "dice_state \<Rightarrow> dice_state" where
  "roll_dice st =
     (if is_rolling st then st
      else st\<lparr>is_rolling := True, dice_shaking := True, dice_pop := False,
               dice_anims := dice_anims st + 1\<rparr>)"

text \<open>The 80 ms interval of a roll shows a random face.\<close>

definition dice_frame :: "rat \<Rightarrow> dice_state \<Rightarrow> dice_state" where
  "dice_frame r st = st\<lparr>dice_shown := Some (dice_roll r (dice_max st))\<rparr>"

text \<open>The 1500 ms timeout of a roll clears its interval and shows the final face.\<close>

definition dice_settle :: "rat \<Rightarrow> dice_state \<Rightarrow> dice_state" where
  "dice_settle r st =
     st\<lparr>dice_anims := dice_anims st - 1, dice_shaking := False,
        dice_shown := Some (dice_roll r (dice_max st)), dice_pop := True, is_rolling := False\<rparr>"

definition is_random :: "rat \<Rightarrow> bool" where
  "is_random r \<longleftrightarrow> 0 \<le> r \<and> r < 1"

text \<open>The page calls \<open>selectDiceType\<close> with 6 or 20 only (its two buttons).\<close>

inductive dice_step :: "dice_state \<Rightarrow> dice_state \<Rightarrow> bool" where
  select: "sides \<in> {6, 20} \<Longrightarrow> dice_step st (select_dice_type sides st)"
| roll: "dice_step st (roll_dice st)"
| frame: "0 < dice_anims st \<Longrightarrow> is_random r \<Longrightarrow> dice_step st (dice_frame r st)"
| settle: "0 < dice_anims st \<Longrightarrow> is_random r \<Longrightarrow> dice_step st (dice_settle r st)"

inductive dice_reach :: "dice_state \<Rightarrow> bool" where
  init: "dice_reach dice_init"
| step: "dice_reach st \<Longrightarrow> dice_step st st' \<Longrightarrow> dice_reach st'"

definition dice_ok :: "dice_state \<Rightarrow> bool" where
  "dice_ok st \<longleftrightarrow> dice_max st \<in> {6, 20} \<and>
     dice_anims st = (if is_rolling st then 1 else 0) \<and> dice_shaking st = is_rolling st \<and>
     (case dice_shown st of None \<Rightarrow> True | Some v \<Rightarrow> 1 \<le> v \<and> v \<le> dice_max st)"

subsection \<open>Loading bar\<close>

text \<open>The closure variable \<open>p\<close> of \<open>startLoadingSimulation\<close>, the width of \<open>progressBar\<close>,
  whether \<open>progressInterval\<close> runs, whether the request of \<open>window.onload\<close> is still
  pending, the overlay's opacity and display, and the two timeouts of \<open>finishLoading\<close>
  still scheduled (fade after 300 ms, hide 500 ms later).\<close>

record load_state =
  load_p :: int
  bar_width :: int
  load_interval :: bool
  awaiting :: bool
  overlay_faded :: bool
  overlay_shown :: bool
  fade_pending :: nat
  hide_pending :: nat

definition update_progress_bar :: "int \<Rightarrow> load_state \<Rightarrow> load_state" where
  "update_progress_bar p st = st\<lparr>bar_width := p\<rparr>"

text \<open>\<open>window.onload\<close> starts the simulation before it sends the request; the bar starts
  empty.\<close>

definition start_loading :: load_state where
  "start_loading = \<lparr>load_p = 0, bar_width = 0, load_interval = True, awaiting = True,
     overlay_faded = False, overlay_shown = True, fade_pending = 0, hide_pending = 0\<rparr>"

definition load_tick :: "rat \<Rightarrow> load_state \<Rightarrow> load_state" where
  "load_tick r st =
     (if load_p st < 95 then
        let p = load_p st + (\<lfloor>r * 5\<rfloor> + 1);
            p = (if p > 95 then 95 else p)
        in update_progress_bar p (st\<lparr>load_p := p\<rparr>)
      else st)"

definition finish_loading :: "load_state \<Rightarrow> load_state" where
  "finish_loading st =
     update_progress_bar 100 (st\<lparr>load_interval := False\<rparr>)\<lparr>fade_pending := fade_pending st + 1\<rparr>"

definition fade_timeout :: "load_state \<Rightarrow> load_state" where
  "fade_timeout st =
     st\<lparr>overlay_faded := True, fade_pending := fade_pending st - 1, hide_pending := hide_pending st + 1\<rparr>"

definition hide_timeout :: "load_state \<Rightarrow> load_state" where
  "hide_timeout st = st\<lparr>overlay_shown := False, hide_pending := hide_pending st - 1\<rparr>"

text \<open>How the first request ends: data, an empty answer (the \<open>then\<close> branch throws
  after \<open>finishLoading\<close>), or a failed request.\<close>

datatype api_outcome = ApiData | ApiNoData | ApiFail

definition load_catch :: "load_state \<Rightarrow> load_state" where
  "load_catch st = finish_loading (update_progress_bar 100 (st\<lparr>load_interval := False\<rparr>))"

definition load_response :: "api_outcome \<Rightarrow> load_state \<Rightarrow> load_state" where
  "load_response outc st =
     (case outc of
        ApiData \<Rightarrow> finish_loading st
      | ApiNoData \<Rightarrow> load_catch (finish_loading st)
      | ApiFail \<Rightarrow> load_catch st)\<lparr>awaiting := False\<rparr>"

inductive load_step :: "load_state \<Rightarrow> load_state \<Rightarrow> bool" where
  tick: "load_interval st \<Longrightarrow> is_random r \<Longrightarrow> load_step st (load_tick r st)"
| response: "awaiting st \<Longrightarrow> load_step st (load_response outc st)"
| fade: "0 < fade_pending st \<Longrightarrow> load_step st (fade_timeout st)"
| hide: "0 < hide_pending st \<Longrightarrow> load_step st (hide_timeout st)"

inductive load_reach :: "load_state \<Rightarrow> bool" where
  init: "load_reach start_loading"
| step: "load_reach st \<Longrightarrow> load_step st st' \<Longrightarrow> load_reach st'"

definition load_ok :: "load_state \<Rightarrow> bool" where
  "load_ok st \<longleftrightarrow> 0 \<le> load_p st \<and> load_p st \<le> 95 \<and>
     load_interval st = awaiting st \<and>
     bar_width st = (if awaiting st then load_p st else 100)"

subsection \<open>Dice lemmas\<close>

lemma dice_roll_bounds:
  assumes "is_random r" and "0 < m"
  shows "1 \<le> dice_roll r m \<and> dice_roll r m \<le> m"
proof -
  have "0 \<le> r * of_int m" using assms by (simp add: is_random_def)
  moreover have "r * of_int m < of_int m" using assms by (simp add: is_random_def)
  ultimately have "0 \<le> \<lfloor>r * of_int m\<rfloor> \<and> \<lfloor>r * of_int m\<rfloor> < m"
    by (simp add: floor_less_iff)
  then show ?thesis by (simp add: dice_roll_def)
qed

lemma dice_roll_hits:
  assumes "1 \<le> k" and "k \<le> m"
  shows "\<exists>r. is_random r \<and> dice_roll r m = k"
proof
  show "is_random (of_int (k - 1) / of_int m) \<and> dice_roll (of_int (k - 1) / of_int m) m = k"
    using assms by (simp add: dice_roll_def is_random_def)
qed

lemma dice_ok_init: "dice_ok dice_init"
  by (simp add: dice_ok_def dice_init_def)

lemma dice_ok_step: "dice_step st st' \<Longrightarrow> dice_ok st \<Longrightarrow> dice_ok st'"
proof (induction rule: dice_step.induct)
  case (select sides st) then show ?case by (auto simp: dice_ok_def select_dice_type_def)
next
  case (roll st) then show ?case by (auto simp: dice_ok_def roll_dice_def split: option.splits)
next
  case (frame st r)
  then have "0 < dice_max st" by (auto simp: dice_ok_def)
  then show ?case using frame dice_roll_bounds [of r "dice_max st"] by (simp add: dice_ok_def dice_frame_def)
next
  case (settle st r)
  then have "0 < dice_max st" by (auto simp: dice_ok_def)
  then show ?case using settle dice_roll_bounds [of r "dice_max st"]
    by (auto simp: dice_ok_def dice_settle_def split: if_splits)
qed

lemma dice_reach_ok: "dice_reach st \<Longrightarrow> dice_ok st"
  by (induction rule: dice_reach.induct) (auto intro: dice_ok_init dice_ok_step)

text \<open>C32: a roll of \<open>rollDice\<close> on a die with m > 0 faces shows a face in [1, m] for every
  value of \<open>Math.random()\<close> in [0, 1), and every face in [1, m] is shown for some value.\<close>

theorem dice_roll_range:
  assumes "0 < m"
  shows "(\<forall>r. is_random r \<longrightarrow> dice_roll r m \<in> {1..m}) \<and>
         (\<forall>k \<in> {1..m}. \<exists>r. is_random r \<and> dice_roll r m = k)"
  using assms dice_roll_bounds [of _ m] dice_roll_hits [of _ m] by auto

theorem dice_roll_range_witness:
  "dice_roll 0 6 = 1 \<and> dice_roll (5/6) 6 = 6 \<and> dice_roll (1/2) 20 = 11"
  using dice_roll_range [of 6] dice_roll_range [of 20] by (simp add: dice_roll_def)

subsection \<open>Loading lemmas\<close>

lemma load_ok_step: "load_step st st' \<Longrightarrow> load_ok st \<Longrightarrow> load_ok st'"
proof (induction rule: load_step.induct)
  case (tick st r)
  have "0 \<le> \<lfloor>r * 5\<rfloor>" using tick by (simp add: is_random_def)
  then show ?case using tick by (auto simp: load_ok_def load_tick_def update_progress_bar_def Let_def)
next
  case (response st outc) then show ?case
    by (cases outc) (auto simp: load_ok_def load_response_def finish_loading_def load_catch_def update_progress_bar_def)
next
  case (fade st) then show ?case by (simp add: load_ok_def fade_timeout_def)
next
  case (hide st) then show ?case by (simp add: load_ok_def hide_timeout_def)
qed

text \<open>C37: in every state of the loading bar reachable from \<open>window.onload\<close>, while the
  first request is pending the interval runs and the bar shows its counter, in [0, 95];
  once the request is answered (data, an empty answer or a failure) the interval is
  cleared and the bar shows 100 percent, whatever timer fires afterwards.\<close>

theorem load_reach_ok: "load_reach st \<Longrightarrow> load_ok st"
  by (induction rule: load_reach.induct) (simp add: load_ok_def start_loading_def, blast intro: load_ok_step)

theorem load_reach_ok_witness:
  "bar_width (load_response ApiFail (load_tick 0 start_loading)) = 100 \<and>
   \<not> load_interval (load_response ApiFail (load_tick 0 start_loading))"
proof -
  have "load_reach (load_tick 0 start_loading)"
    by (rule load_reach.step [OF load_reach.init load_step.tick]) (simp_all add: start_loading_def is_random_def)
  then have "load_reach (load_response ApiFail (load_tick 0 start_loading))"
    by (rule load_reach.step [OF _ load_step.response])
      (simp add: start_loading_def load_tick_def update_progress_bar_def)
  from load_reach_ok [OF this] show ?thesis
    by (simp add: load_ok_def load_response_def load_catch_def finish_loading_def update_progress_bar_def)
qed

lemma load_tick_bounds:
  assumes "is_random r" and "0 \<le> load_p st" and "load_p st \<le> 95"
  shows "min 95 (load_p st + 1) \<le> load_p (load_tick r st) \<and> load_p (load_tick r st) \<le> 95 \<and>
         bar_width (load_tick r st) = (if load_p st < 95 then load_p (load_tick r st) else bar_width st)"
proof -
  have "0 \<le> \<lfloor>r * 5\<rfloor>" using assms(1) by (simp add: is_random_def)
  then show ?thesis using assms(2,3) by (auto simp: load_tick_def update_progress_bar_def Let_def)
qed

lemma load_ticks_bounds:
  assumes "list_all is_random rs" and "0 \<le> load_p st" and "load_p st \<le> 95" and "bar_width st = load_p st"
  shows "min 95 (load_p st + int (length rs)) \<le> load_p (foldl (\<lambda>s r. load_tick r s) st rs) \<and>
         load_p (foldl (\<lambda>s r. load_tick r s) st rs) \<le> 95 \<and>
         bar_width (foldl (\<lambda>s r. load_tick r s) st rs) = load_p (foldl (\<lambda>s r. load_tick r s) st rs)"
  using assms
proof (induction rs arbitrary: st)
  case Nil then show ?case by simp
next
  case (Cons r rs)
  let ?st = "load_tick r st"
  have b: "min 95 (load_p st + 1) \<le> load_p ?st \<and> load_p ?st \<le> 95 \<and>
      bar_width ?st = (if load_p st < 95 then load_p ?st else bar_width st)"
    using load_tick_bounds [of r st] Cons.prems by simp
  have bw: "bar_width ?st = load_p ?st" using b Cons.prems by (auto simp: load_tick_def)
  have nn: "0 \<le> load_p ?st" using b Cons.prems by linarith
  have "list_all is_random rs" using Cons.prems by simp
  note ih = Cons.IH [OF this nn _ bw]
  have "min 95 (load_p ?st + int (length rs)) \<le> load_p (foldl (\<lambda>s r. load_tick r s) ?st rs) \<and>
         load_p (foldl (\<lambda>s r. load_tick r s) ?st rs) \<le> 95 \<and>
         bar_width (foldl (\<lambda>s r. load_tick r s) ?st rs) = load_p (foldl (\<lambda>s r. load_tick r s) ?st rs)"
    using ih b by simp
  then show ?case using b Cons.prems by auto
qed

text \<open>C20: while the first request is pending, n ticks of the loading interval leave the bar
  at least at min(95, n) percent and at most at 95 percent, for any values of
  \<open>Math.random()\<close>: the bar reaches 95 percent within 95 ticks.\<close>

theorem loading_bar_progress:
  assumes "list_all is_random rs"
  shows "min 95 (int (length rs)) \<le> bar_width (foldl (\<lambda>s r. load_tick r s) start_loading rs) \<and>
         bar_width (foldl (\<lambda>s r. load_tick r s) start_loading rs) \<le> 95"
  using load_ticks_bounds [OF assms, of start_loading] by (simp add: start_loading_def)

theorem loading_bar_progress_witness:
  "bar_width (foldl (\<lambda>s r. load_tick r s) start_loading [0, 4/5, 1/5]) = 8"
  using loading_bar_progress [of "[0, 4/5, 1/5]"]
  by (simp add: is_random_def load_tick_def start_loading_def update_progress_bar_def)

end
