(* ===== verification/Bible.thy ===== *)
theory Bible
  imports JsValues
begin

text \<open>
  \<open>renderBibleVerses\<close> of \<open>src/script.js\<close>: the verse of the week and the list of the
  other verses. A row of \<open>allVerses\<close> is the record \<open>verse\<close>. \<open>new Date(x)\<close> is a
  parameter \<open>date\<close> of the model: the local wall-clock time of \<open>x\<close> in milliseconds, or
  \<open>None\<close> for an Invalid Date; \<open>now\<close> is \<open>new Date()\<close> read the same way. The script
  compares the dates after \<open>setHours\<close>, which this theory writes out on those values.
\<close>

record verse =
  v_start :: jsval
  v_end :: jsval
  v_text :: jsval
  v_ref :: jsval
  v_highlight :: jsval

type_synonym date_reader = "jsval \<Rightarrow> int option"

definition day_ms :: int where
  "day_ms = 86400000"

text \<open>\<open>d.setHours(0, 0, 0, 0)\<close> and \<open>d.setHours(23, 59, 59, 999)\<close>.\<close>

definition day_start :: "int \<Rightarrow> int" where
  "day_start t = t - t mod day_ms"

definition day_end :: "int \<Rightarrow> int" where
  "day_end t = day_start t + (day_ms - 1)"

text \<open>The comparator: the start date of \<open>b\<close> minus that of \<open>a\<close>, as Date objects; an Invalid
  Date makes the difference \<open>NaN\<close>, which \<open>sort\<close> reads as 0.\<close>

definition bible_cmp :: "date_reader \<Rightarrow> verse \<Rightarrow> verse \<Rightarrow> int" where
  "bible_cmp date a b =
     (case (date (v_start b), date (v_start a)) of
        (Some tb, Some ta) \<Rightarrow> tb - ta
      | _ \<Rightarrow> 0)"

definition highlighted :: "verse \<Rightarrow> bool" where
  "highlighted v \<longleftrightarrow>
     js_trim (js_string (if js_truthy (v_highlight v) then v_highlight v else JStr [])) \<noteq> []"

text \<open>One pass of the \<open>for ... of\<close> loop over the sorted verses, with \<open>currentVerse\<close>
  and \<open>otherVerses\<close> as the accumulator.\<close>

definition bible_step ::
  "date_reader \<Rightarrow> int \<Rightarrow> verse option \<times> verse list \<Rightarrow> verse \<Rightarrow> verse option \<times> verse list" where
  "bible_step date now acc v =
     (case (date (v_start v), date (v_end v)) of
        (Some s, Some e) \<Rightarrow>
          (let s = day_start s; e = day_end e; now = day_start now in
           if fst acc = None \<and> ((s \<le> now \<and> now \<le> e) \<or> highlighted v) then (Some v, snd acc)
           else (fst acc, snd acc @ [v]))
      | _ \<Rightarrow> acc)"

definition render_bible_verses :: "date_reader \<Rightarrow> int \<Rightarrow> verse list \<Rightarrow> verse option \<times> verse list" where
  "render_bible_verses date now vs =
     foldl (bible_step date now) (None, []) (js_sort (bible_cmp date) vs)"

text \<open>What the two containers show: the main card, or the placeholder "no verse this week"
  for \<open>None\<close>; the small cards, or the placeholder "no past verses" for the empty list. A
  card shows, through template literals, the start date, the end date, the verse text and
  its reference.\<close>

datatype verse_card = VerseCard string string string string

datatype bible_panel = BiblePanel "verse_card option" "verse_card list"

definition verse_card :: "verse \<Rightarrow> verse_card" where
  "verse_card v = VerseCard (js_string (v_start v)) (js_string (v_end v)) (js_string (v_text v)) (js_string (v_ref v))"

definition bible_panel :: "date_reader \<Rightarrow> int \<Rightarrow> verse list \<Rightarrow> bible_panel" where
  "bible_panel date now vs =
     (let (cur, others) = render_bible_verses date now vs in
      BiblePanel (map_option verse_card cur) (map verse_card others))"

subsection \<open>Specification\<close>

definition bible_valid :: "date_reader \<Rightarrow> verse \<Rightarrow> bool" where
  "bible_valid date v \<longleftrightarrow> date (v_start v) \<noteq> None \<and> date (v_end v) \<noteq> None"

text \<open>A verse is featured when today lies in its week (by local day) or it is highlighted.\<close>

definition bible_pick :: "date_reader \<Rightarrow> int \<Rightarrow> verse \<Rightarrow> bool" where
  "bible_pick date now v \<longleftrightarrow>
     (case (date (v_start v), date (v_end v)) of
        (Some s, Some e) \<Rightarrow> (day_start s \<le> day_start now \<and> day_start now \<le> day_end e) \<or> highlighted v
      | _ \<Rightarrow> False)"

definition bible_spec :: "date_reader \<Rightarrow> int \<Rightarrow> verse list \<Rightarrow> verse option \<times> verse list" where
  "bible_spec date now vs =
     (let ws = filter (bible_valid date) (js_sort (bible_cmp date) vs) in
      case find (bible_pick date now) ws of
        None \<Rightarrow> (None, ws)
      | Some c \<Rightarrow> (Some c, remove1 c ws))"

text \<open>Example data: a cell holding a number is read as that many milliseconds.\<close>

abbreviation ex_verse :: "int \<Rightarrow> int \<Rightarrow> string \<Rightarrow> verse" where
  "ex_verse s e h \<equiv> \<lparr>v_start = JNum (s * day_ms), v_end = JNum (e * day_ms), v_text = JStr ''v'',
     v_ref = JStr ''r'', v_highlight = JStr h\<rparr>"

abbreviation ex_date :: date_reader where
  "ex_date \<equiv> (\<lambda>x. case x of JNum n \<Rightarrow> Some n | _ \<Rightarrow> None)"

subsection \<open>Lemmas\<close>

lemma bible_step_found:
  "foldl (bible_step date now) (Some c, acc) xs = (Some c, acc @ filter (bible_valid date) xs)"
  by (induction xs arbitrary: acc) (auto simp: bible_step_def bible_valid_def Let_def split: option.splits)

lemma bible_step_search:
  "foldl (bible_step date now) (None, acc) xs =
     (case find (bible_pick date now) (filter (bible_valid date) xs) of
        None \<Rightarrow> (None, acc @ filter (bible_valid date) xs)
      | Some c \<Rightarrow> (Some c, acc @ remove1 c (filter (bible_valid date) xs)))"
proof (induction xs arbitrary: acc)
  case Nil then show ?case by simp
next
  case (Cons v xs)
  show ?case
  proof (cases "bible_valid date v")
    case False
    then have "bible_step date now (None, acc) v = (None, acc)"
      by (auto simp: bible_step_def bible_valid_def split: option.splits)
    then show ?thesis using Cons.IH False by (simp split: option.split)
  next
    case valid: True
    show ?thesis
    proof (cases "bible_pick date now v")
      case True
      then have "bible_step date now (None, acc) v = (Some v, acc)"
        using valid by (auto simp: bible_step_def bible_valid_def bible_pick_def Let_def split: option.splits)
      then show ?thesis using valid True by (simp add: bible_step_found)
    next
      case False
      then have "bible_step date now (None, acc) v = (None, acc @ [v])"
        using valid by (auto simp: bible_step_def bible_valid_def bible_pick_def Let_def split: option.splits)
      moreover have "\<And>c. find (bible_pick date now) (filter (bible_valid date) xs) = Some c \<Longrightarrow> c \<noteq> v"
        using False by (auto dest: find_Some_iff [THEN iffD1])
      ultimately show ?thesis using Cons.IH [of "acc @ [v]"] valid False
        by (auto split: option.splits)
    qed
  qed
qed

lemma render_bible_eq_spec: "render_bible_verses date now vs = bible_spec date now vs"
  by (simp add: render_bible_verses_def bible_spec_def bible_step_search Let_def split: option.split)

lemma bible_sort_desc:
  assumes "\<forall>v \<in> set vs. date (v_start v) \<noteq> None"
  shows "js_sort (bible_cmp date) vs = sort_key (\<lambda>v. - the (date (v_start v))) vs"
proof (rule js_sort_eq_sort_key_on)
  show "\<forall>a \<in> set vs. \<forall>b \<in> set vs. bible_cmp date a b < 0 \<longleftrightarrow> - the (date (v_start a)) < - the (date (v_start b))"
  proof (intro ballI)
    fix a b assume "a \<in> set vs" "b \<in> set vs"
    then obtain ta tb where "date (v_start a) = Some ta" "date (v_start b) = Some tb"
      using assms by blast
    then show "bible_cmp date a b < 0 \<longleftrightarrow> - the (date (v_start a)) < - the (date (v_start b))"
      by (simp add: bible_cmp_def)
  qed
qed

text \<open>C19: when every start date parses, renderBibleVerses features the first verse, in
  descending order of start date (stable), whose week contains today or which is
  highlighted, and lists the other verses with valid dates in that order; a verse with an
  invalid date is shown nowhere.\<close>

theorem render_bible_spec:
  assumes "\<forall>v \<in> set vs. date (v_start v) \<noteq> None"
  shows "render_bible_verses date now vs =
     (let ws = filter (bible_valid date) (sort_key (\<lambda>v. - the (date (v_start v))) vs) in
      case find (bible_pick date now) ws of
        None \<Rightarrow> (None, ws)
      | Some c \<Rightarrow> (Some c, remove1 c ws))"
  using assms by (simp add: render_bible_eq_spec bible_spec_def bible_sort_desc)

theorem render_bible_spec_witness:
  "render_bible_verses ex_date (5 * day_ms + 43200000) [ex_verse 1 2 '' '', ex_verse 10 16 [], ex_verse 3 9 []] =
     (Some (ex_verse 3 9 []), [ex_verse 10 16 [], ex_verse 1 2 '' ''])"
  using render_bible_spec [of "[ex_verse 1 2 '' '', ex_verse 10 16 [], ex_verse 3 9 []]" ex_date "5 * day_ms + 43200000"]
  by (simp add: bible_valid_def bible_pick_def day_start_def day_end_def day_ms_def highlighted_def js_simps)

end
