(* ===== verification/Dialog.thy ===== *)
theory Dialog
  imports Actions History Progress
begin

text \<open>
  The score dialog of \<open>src/script.js\<close>: \<open>openScoreModal\<close>, which composes the level view
  (\<open>Progress\<close>), the history cursor (\<open>History\<close>) and the batch selector (\<open>Actions\<close>); the
  score form of \<open>setScoreCategory\<close>, \<open>updateScoreOptions\<close> and \<open>toggleCustomInput\<close> over
  \<open>currentScoreCategory\<close> and the item, score and custom inputs; and the payload
  \<open>sendScoreRecord\<close> hands to \<open>callApi('addScoreRecord', ...)\<close>. A \<open><select>\<close> whose options
  were just rebuilt holds its first option, or \<open>""\<close> when it has none.
\<close>

subsection \<open>The score form\<close>

definition add_label :: string where
  "add_label = map char_of [229, 138, 160, 229, 136, 134 :: nat]"

definition deduct_label :: string where
  "deduct_label = map char_of [230, 137, 163, 229, 136, 134 :: nat]"

text \<open>A row of \<open>allItems\<close>: the item name and its add/deduct cell.\<close>

record score_item =
  item_name :: jsval
  item_kind :: jsval

record score_form =
  score_cat :: string
  add_opacity :: rat
  deduct_opacity :: rat
  item_options :: "string list"
  item_value :: string
  score_options :: "string list"
  score_value :: string
  custom_shown :: bool
  custom_value :: string

definition select_value :: "string list \<Rightarrow> string" where
  "select_value opts = (case opts of [] \<Rightarrow> [] | o1 # _ \<Rightarrow> o1)"

definition score_presets :: "string \<Rightarrow> int list" where
  "score_presets c = (if c = add_label then [1, 2, 3, 4, 5] else [1, 2, 3, 5, 7])"

definition toggle_custom_input :: "score_form \<Rightarrow> score_form" where
  "toggle_custom_input f =
     (if score_value f = ''custom'' then f\<lparr>custom_shown := True, custom_value := []\<rparr>
      else f\<lparr>custom_shown := False\<rparr>)"

definition update_score_options :: "score_form \<Rightarrow> score_form" where
  "update_score_options f =
     (let opts = map int_to_string (score_presets (score_cat f)) @ [''custom''] in
      toggle_custom_input (f\<lparr>score_options := opts, score_value := select_value opts\<rparr>))"

definition set_score_category :: "score_item list \<Rightarrow> string \<Rightarrow> score_form \<Rightarrow> score_form" where
  "set_score_category items c f =
     (let f = f\<lparr>score_cat := c, add_opacity := (if c = add_label then 1 else 1 / 2),
                deduct_opacity := (if c = deduct_label then 1 else 1 / 2)\<rparr>;
          opts = map (\<lambda>it. js_string (item_name it)) (filter (\<lambda>it. item_kind it = JStr c) items)
      in update_score_options (f\<lparr>item_options := opts, item_value := select_value opts\<rparr>))"

text \<open>The form before any dialog: \<open>currentScoreCategory\<close> is the add category and the
  selects are empty.\<close>

definition form_init :: score_form where
  "form_init = \<lparr>score_cat = add_label, add_opacity = 1, deduct_opacity = 1, item_options = [],
     item_value = [], score_options = [], score_value = [], custom_shown = False, custom_value = []\<rparr>"

text \<open>What the teacher does in an open dialog: the two category buttons, a choice in the
  score select (whose change runs \<open>toggleCustomInput\<close>), a choice of item, and typing into
  the custom input while it is shown.\<close>

datatype form_op = PickCategory string | PickScore string | PickItem string | TypeCustom string

inductive form_step :: "score_item list \<Rightarrow> score_form \<Rightarrow> form_op \<Rightarrow> score_form \<Rightarrow> bool" for items where
  category: "c \<in> {add_label, deduct_label} \<Longrightarrow>
    form_step items f (PickCategory c) (set_score_category items c f)"
| score: "v \<in> set (score_options f) \<Longrightarrow>
    form_step items f (PickScore v) (toggle_custom_input (f\<lparr>score_value := v\<rparr>))"
| item: "v \<in> set (item_options f) \<Longrightarrow> form_step items f (PickItem v) (f\<lparr>item_value := v\<rparr>)"
| typed: "custom_shown f \<Longrightarrow> form_step items f (TypeCustom s) (f\<lparr>custom_value := s\<rparr>)"

text \<open>A teacher's dialog starts with \<open>setScoreCategory\<close> of the add category on whatever
  the form held.\<close>

inductive form_reach :: "score_item list \<Rightarrow> score_form \<Rightarrow> bool" for items where
  opened: "form_reach items (set_score_category items add_label f)"
| step: "form_reach items f \<Longrightarrow> form_step items f op f' \<Longrightarrow> form_reach items f'"

text \<open>The form of an open dialog: the score select holds the presets of the category and
  \<open>custom\<close>, one of them selected, the custom input shown exactly for \<open>custom\<close>, and
  the item select the items of the category, one of them selected when there is one.\<close>

definition category_items :: "score_item list \<Rightarrow> string \<Rightarrow> string list" where
  "category_items items c = map (\<lambda>it. js_string (item_name it)) (filter (\<lambda>it. item_kind it = JStr c) items)"

definition form_ok :: "score_item list \<Rightarrow> score_form \<Rightarrow> bool" where
  "form_ok items f \<longleftrightarrow>
     score_cat f \<in> {add_label, deduct_label} \<and>
     score_options f = map int_to_string (score_presets (score_cat f)) @ [''custom''] \<and>
     score_value f \<in> set (score_options f) \<and> custom_shown f = (score_value f = ''custom'') \<and>
     item_options f = category_items items (score_cat f) \<and>
     (if item_options f = [] then item_value f = [] else item_value f \<in> set (item_options f))"

subsection \<open>The request of sendScoreRecord\<close>

record score_payload =
  pay_teacher :: string
  pay_target :: target
  pay_item :: string
  pay_score :: string

definition send_score_record ::
  "student list \<Rightarrow> teacher \<Rightarrow> batch_state \<Rightarrow> modal_target \<Rightarrow> score_form \<Rightarrow> send_error + score_payload" where
  "send_score_record xs t b tgt f =
     (case score_request xs b tgt (score_value f) (custom_value f) of
        Inl e \<Rightarrow> Inl e
      | Inr (tg, sc) \<Rightarrow> Inr \<lparr>pay_teacher = js_string (t_account t), pay_target = tg,
                             pay_item = item_value f, pay_score = sc\<rparr>)"

subsection \<open>Opening the dialog\<close>

record dialog =
  dlg_target :: modal_target
  dlg_level :: "level_view option"
  dlg_hist :: hist_state
  dlg_hist_view :: hist_view
  dlg_batch :: batch_state
  dlg_batch_shown :: bool
  dlg_controls :: bool
  dlg_form :: score_form

text \<open>\<open>openScoreModal(type, name)\<close>: the level bar and the history for a student, the
  batch selector for a group (\<open>renderBatchSelector\<close> shows it to teachers only), and the
  teacher's controls with \<open>setScoreCategory\<close> of the add category when a teacher is
  logged in.\<close>

definition open_score_modal ::
  "student list \<Rightarrow> log_entry list \<Rightarrow> title_config \<Rightarrow> score_item list \<Rightarrow> teacher option \<Rightarrow>
   modal_target \<Rightarrow> dialog \<Rightarrow> dialog" where
  "open_score_modal xs logs tc items cur tgt d =
     (let d = d\<lparr>dlg_target := tgt, dlg_level := None, dlg_hist_view := HistHidden, dlg_batch_shown := False\<rparr>;
          d = (case tgt of
                 ModalStudent n \<Rightarrow>
                   (let (h, v) = open_student_history logs n (dlg_hist d) in
                    d\<lparr>dlg_level := update_level_progress xs tc n, dlg_hist := h, dlg_hist_view := v\<rparr>)
               | ModalGroup g \<Rightarrow>
                   d\<lparr>dlg_batch := render_batch_selector g (dlg_batch d), dlg_batch_shown := cur \<noteq> None\<rparr>)
      in case cur of
           Some _ \<Rightarrow> d\<lparr>dlg_controls := True, dlg_form := set_score_category items add_label (dlg_form d)\<rparr>
         | None \<Rightarrow> d\<lparr>dlg_controls := False\<rparr>)"

text \<open>Example data: one item, of the add category, and a teacher.\<close>

abbreviation ex_items :: "score_item list" where
  "ex_items \<equiv> [\<lparr>item_name = JStr ''quiz'', item_kind = JStr add_label\<rparr>]"

abbreviation ex_teacher :: teacher where
  "ex_teacher \<equiv> \<lparr>t_account = JStr ''t1'', t_password = JStr ''pw'', t_name = ''T''\<rparr>"

subsection \<open>The score form keeps its shape\<close>

lemma select_value_mem: "opts \<noteq> [] \<Longrightarrow> select_value opts \<in> set opts"
  by (cases opts) (auto simp: select_value_def)

lemma score_cat_set_category: "score_cat (set_score_category items c f) = c"
  by (simp add: set_score_category_def update_score_options_def toggle_custom_input_def Let_def)

lemma select_value_Nil: "select_value [] = []"
  by (simp add: select_value_def)

lemma score_select_first:
  "select_value (map int_to_string (score_presets c) @ [''custom'']) = ''1''"
  by (simp add: score_presets_def select_value_def js_simps)

lemma form_ok_set_category:
  assumes "c \<in> {add_label, deduct_label}"
  shows "form_ok items (set_score_category items c f)"
proof -
  let ?opts = "category_items items c"
  have "(if ?opts = [] then select_value ?opts = [] else select_value ?opts \<in> set ?opts)"
    by (simp add: select_value_mem) (simp add: select_value_def)
  moreover have "''1'' \<in> set (map int_to_string (score_presets c))"
    by (simp add: score_presets_def js_simps)
  ultimately show ?thesis using assms
    by (simp add: form_ok_def set_score_category_def update_score_options_def toggle_custom_input_def
        score_select_first category_items_def [symmetric] Let_def select_value_Nil)
qed

lemma form_ok_step: "form_step items f op f' \<Longrightarrow> form_ok items f \<Longrightarrow> form_ok items f'"
proof (induction rule: form_step.induct)
  case (category c f) then show ?case by (rule_tac form_ok_set_category) simp
next
  case (score v f) then show ?case by (auto simp: form_ok_def toggle_custom_input_def)
next
  case (item v f) then show ?case by (auto simp: form_ok_def)
next
  case (typed f s) then show ?case by (auto simp: form_ok_def)
qed

lemma form_reach_ok: "form_reach items f \<Longrightarrow> form_ok items f"
  by (induction rule: form_reach.induct) (simp add: form_ok_set_category, blast intro: form_ok_step)

text \<open>A teacher's \<open>openScoreModal\<close> starts a form of \<open>form_reach\<close>; for anybody else it
  shows no controls, no batch selector, and leaves the form as it was.\<close>

lemma open_score_modal_form:
  "form_reach items (dlg_form (open_score_modal xs logs tc items (Some t) tgt d))"
  "dlg_form (open_score_modal xs logs tc items None tgt d) = dlg_form d \<and>
   \<not> dlg_controls (open_score_modal xs logs tc items None tgt d) \<and>
   \<not> dlg_batch_shown (open_score_modal xs logs tc items None tgt d)"
  by (auto simp: open_score_modal_def Let_def intro: form_reach.opened split: modal_target.splits prod.splits)

lemma score_request_score:
  "score_request xs b tgt sel cust = Inr (tg, sc) \<Longrightarrow>
     sc = (if sel = ''custom'' then cust else sel) \<and> (sel = ''custom'' \<longrightarrow> custom_score_ok cust)"
  by (auto simp: score_request_def Let_def split: if_splits modal_target.splits)

lemma send_score_record_Inr:
  "send_score_record xs t b tgt f = Inr p \<Longrightarrow>
     \<exists>tg. score_request xs b tgt (score_value f) (custom_value f) = Inr (tg, pay_score p) \<and> pay_item p = item_value f"
  by (auto simp: send_score_record_def split: sum.splits)

text \<open>C27: for a dialog reached from openScoreModal by a teacher's clicks, a request that
  sendScoreRecord sends carries a preset score of the selected category, or the typed text
  when the select says custom and the text passed the check; and an item of the selected
  category, or the empty text when that category has no item.\<close>

theorem send_score_payload:
  assumes "form_reach items f" and "send_score_record xs t b tgt f = Inr p"
  shows "(pay_score p \<in> int_to_string ` set (score_presets (score_cat f)) \<or>
          (score_value f = ''custom'' \<and> pay_score p = custom_value f \<and> custom_score_ok (custom_value f))) \<and>
         (pay_item p \<in> set (category_items items (score_cat f)) \<or>
          (pay_item p = [] \<and> category_items items (score_cat f) = []))"
proof -
  have ok: "form_ok items f" using form_reach_ok [OF assms(1)] .
  obtain tg where r: "score_request xs b tgt (score_value f) (custom_value f) = Inr (tg, pay_score p)"
    and it: "pay_item p = item_value f"
    using send_score_record_Inr [OF assms(2)] by blast
  show ?thesis
    using score_request_score [OF r] ok it by (auto simp: form_ok_def split: if_splits)
qed

theorem send_score_payload_witness:
  "send_score_record [] ex_teacher batch_init (ModalStudent ''A'')
     (set_score_category ex_items deduct_label (set_score_category ex_items add_label form_init)) =
   Inr \<lparr>pay_teacher = ''t1'', pay_target = TargetStudent ''A'', pay_item = [], pay_score = ''1''\<rparr> \<and>
   category_items ex_items deduct_label = []"
proof -
  let ?f = "set_score_category ex_items deduct_label (set_score_category ex_items add_label form_init)"
  have r: "form_reach ex_items ?f"
    by (rule form_reach.step [OF form_reach.opened form_step.category]) simp
  have s: "send_score_record [] ex_teacher batch_init (ModalStudent ''A'') ?f =
     Inr \<lparr>pay_teacher = ''t1'', pay_target = TargetStudent ''A'', pay_item = [], pay_score = ''1''\<rparr>"
    by (simp add: send_score_record_def score_request_def set_score_category_def update_score_options_def
        toggle_custom_input_def select_value_def score_presets_def add_label_def deduct_label_def js_simps)
  show ?thesis
    using send_score_payload [OF r s] s by (simp add: score_cat_set_category category_items_def add_label_def deduct_label_def)
qed

end
