(* ===== verification/Panels.thy ===== *)
theory Panels
  imports Actions Lucky
begin

text \<open>
  The navigation and list panels of \<open>src/script.js\<close> that read \<open>allGroups\<close>: the filter
  buttons of \<open>generateFilterButtons\<close>/\<open>filterStudents\<close>, the group tiles of
  \<open>renderGroups\<close>, the two selects of the log table (\<open>initLogFilter\<close>,
  \<open>onLogGroupChange\<close>, \<open>filterLogs\<close>) as a step relation, the group buttons of
  \<open>initLuckyDraw\<close>, and the tab switch \<open>switchCategory\<close>. \<open>allGroups\<close> (\<open>data.groups\<close>) is
  a parameter \<open>gs\<close>; \<open>[...allGroups].sort()\<close> is \<open>sort\<close> on strings.
\<close>

subsection \<open>Filter buttons\<close>

text \<open>The values of the buttons (\<open>'all'\<close> first, then one per group) and the index of the
  button marked active.\<close>

record filter_bar =
  fb_values :: "string list"
  fb_active :: nat

definition generate_filter_buttons :: "string list \<Rightarrow> filter_bar" where
  "generate_filter_buttons gs = \<lparr>fb_values = ''all'' # gs, fb_active = 0\<rparr>"

text \<open>A click on button \<open>i\<close> runs \<open>filterStudents(value, btn)\<close>.\<close>

definition click_filter_button :: "nat \<Rightarrow> filter_bar \<Rightarrow> app_state \<Rightarrow> filter_bar \<times> app_state \<times> card list" where
  "click_filter_button i fb st = (fb\<lparr>fb_active := i\<rparr>, filter_students (fb_values fb ! i) st)"

subsection \<open>Group tiles\<close>

record group_tile =
  tile_name :: string
  tile_members :: "string list"
  tile_gradient :: nat

definition render_groups :: "string list \<Rightarrow> student list \<Rightarrow> group_tile list" where
  "render_groups gs xs =
     map (\<lambda>(i, g). \<lparr>tile_name = g, tile_members = map stu_name (filter (\<lambda>s. group_trim s = g) xs),
                    tile_gradient = i mod 6\<rparr>) (enumerate 0 gs)"

subsection \<open>The selects of the log table\<close>

text \<open>The value and the options of \<open>logGroupSelect\<close> and of \<open>logFilterSelect\<close>. Rebuilding a
  select's options selects its first option, \<open>'all'\<close>.\<close>

record log_filter =
  lf_group :: string
  lf_group_opts :: "string list"
  lf_student :: string
  lf_student_opts :: "string list"

definition init_log_filter :: "string list \<Rightarrow> student list \<Rightarrow> log_filter" where
  "init_log_filter gs xs =
     \<lparr>lf_group = ''all'', lf_group_opts = ''all'' # sort gs,
      lf_student = ''all'', lf_student_opts = ''all'' # snd (log_student_options xs ''all'')\<rparr>"

definition filter_logs ::
  "student list \<Rightarrow> teacher list \<Rightarrow> bool \<Rightarrow> log_entry list \<Rightarrow> log_filter \<Rightarrow> log_view" where
  "filter_logs xs ts li logs lf = render_logs xs ts li logs (lf_group lf) (lf_student lf)"

definition on_log_group_change :: "student list \<Rightarrow> string \<Rightarrow> log_filter \<Rightarrow> log_filter" where
  "on_log_group_change xs g lf =
     lf\<lparr>lf_group := g, lf_student := ''all'', lf_student_opts := ''all'' # snd (log_student_options xs g)\<rparr>"

definition on_log_student_change :: "string \<Rightarrow> log_filter \<Rightarrow> log_filter" where
  "on_log_student_change s lf = lf\<lparr>lf_student := s\<rparr>"

text \<open>What changes the selects: \<open>renderPage\<close> (through \<open>initLogFilter\<close>), a choice in the
  group select (\<open>onLogGroupChange\<close>) and a choice in the student select (which the page
  wires to \<open>filterLogs\<close>); each choice is one of the select's options.\<close>

datatype lf_op = LfRender | LfGroup string | LfStudent string

inductive lf_step :: "string list \<Rightarrow> student list \<Rightarrow> log_filter \<Rightarrow> lf_op \<Rightarrow> log_filter \<Rightarrow> bool"
  for gs xs where
  render: "lf_step gs xs lf LfRender (init_log_filter gs xs)"
| group: "g \<in> set (lf_group_opts lf) \<Longrightarrow> lf_step gs xs lf (LfGroup g) (on_log_group_change xs g lf)"
| student: "s \<in> set (lf_student_opts lf) \<Longrightarrow> lf_step gs xs lf (LfStudent s) (on_log_student_change s lf)"

inductive lf_reach :: "string list \<Rightarrow> student list \<Rightarrow> log_filter \<Rightarrow> bool" for gs xs where
  init: "lf_reach gs xs (init_log_filter gs xs)"
| step: "lf_reach gs xs lf \<Longrightarrow> lf_step gs xs lf op lf' \<Longrightarrow> lf_reach gs xs lf'"

subsection \<open>The lucky-draw group buttons\<close>

text \<open>\<open>initLuckyDraw\<close>: one button per group in sorted order, and the first group selected.\<close>

definition init_lucky_draw :: "string list \<Rightarrow> student list \<Rightarrow> lucky_state \<Rightarrow> string list \<times> lucky_state" where
  "init_lucky_draw gs xs st =
     (let bs = sort gs in (bs, case bs of [] \<Rightarrow> st | g # _ \<Rightarrow> select_lucky_group xs g st))"

subsection \<open>Tabs\<close>

definition tab_names :: "string list" where
  "tab_names = [''student'', ''group'', ''gift'', ''title'', ''log'', ''luckydraw'', ''dice'', ''bible'']"

text \<open>The render functions \<open>switchCategory\<close> calls, in the order it calls them.\<close>

datatype panel_render = RenderStudents | RenderGroups | RenderGifts | RenderTitles | FilterLogs
  | InitLuckyDraw | RenderBibleVerses

record nav_view =
  nav_shown :: "string list"
  nav_filter_bar :: bool
  nav_sort_visible :: bool

definition switch_category :: "string \<Rightarrow> nav_view \<times> panel_render list" where
  "switch_category t =
     (\<lparr>nav_shown = filter (\<lambda>k. k = t) tab_names, nav_filter_bar = (t = ''student''),
       nav_sort_visible = (t = ''student'' \<or> t = ''group'')\<rparr>,
      (if t = ''student'' then [RenderStudents] else []) @ (if t = ''group'' then [RenderGroups] else []) @
      (if t = ''gift'' then [RenderGifts] else []) @ (if t = ''title'' then [RenderTitles] else []) @
      (if t = ''log'' then [FilterLogs] else []) @ (if t = ''luckydraw'' then [InitLuckyDraw] else []) @
      (if t = ''bible'' then [RenderBibleVerses] else []))"

definition lf_ok :: "string list \<Rightarrow> student list \<Rightarrow> log_filter \<Rightarrow> bool" where
  "lf_ok gs xs lf \<longleftrightarrow>
     lf_group_opts lf = ''all'' # sort gs \<and> lf_group lf \<in> set (lf_group_opts lf) \<and>
     lf_student_opts lf = ''all'' # snd (log_student_options xs (lf_group lf)) \<and>
     lf_student lf \<in> set (lf_student_opts lf)"

subsection \<open>Group tiles and filter buttons agree\<close>

text \<open>On a fresh page, the filter button of a group shows, in order, the names its tile on
  the group page lists; a group literally named \<open>'all'\<close> is the exception, since its
  button's value is the filter's sentinel.\<close>

lemma group_tile_cards:
  assumes fresh: "is_sorted st \<or> original_students st = all_students st"
    and t: "t \<in> set (render_groups gs (all_students st))" and g: "tile_name t \<noteq> ''all''"
  shows "map card_name (snd (filter_students (tile_name t) st)) = tile_members t"
proof -
  obtain i g where "(i, g) \<in> set (enumerate 0 gs)"
    and "t = \<lparr>tile_name = g, tile_members = map stu_name (filter (\<lambda>s. group_trim s = g) (all_students st)),
                tile_gradient = i mod 6\<rparr>"
    using t by (auto simp: render_groups_def)
  then show ?thesis
    using fresh g by (auto simp: filter_students_def render_students_names visible_students_def Let_def)
qed

lemma group_named_all_button:
  assumes "i < length gs" and "gs ! i = ''all''"
  shows "snd (snd (click_filter_button (Suc i) (generate_filter_buttons gs) st)) =
           render_students (st\<lparr>cur_filter := ''all''\<rparr>)"
  using assms by (simp add: click_filter_button_def generate_filter_buttons_def filter_students_def Let_def)

subsection \<open>The selects stay consistent\<close>

lemma log_student_options_names:
  "set (snd (log_student_options xs g)) =
     stu_name ` set (if g = ''all'' then xs else group_students_of xs g)"
  by (simp add: log_student_options_def Let_def)

lemma lf_ok_step: "lf_step gs xs lf op lf' \<Longrightarrow> lf_ok gs xs lf \<Longrightarrow> lf_ok gs xs lf'"
  by (induction rule: lf_step.induct)
     (auto simp: lf_ok_def init_log_filter_def on_log_group_change_def on_log_student_change_def)

lemma lf_reach_ok: "lf_reach gs xs lf \<Longrightarrow> lf_ok gs xs lf"
proof (induction rule: lf_reach.induct)
  case init then show ?case by (simp add: lf_ok_def init_log_filter_def)
next
  case (step lf op lf') then show ?case using lf_ok_step by blast
qed

text \<open>C18: in every state of the log table's selects, the group filter is \<open>'all'\<close> or a group
  of \<open>allGroups\<close>, and the student filter is \<open>'all'\<close> or a student of the selected group
  (of all students under \<open>'all'\<close>): changing the group resets the student filter, so the
  table never combines a group with a student outside it.\<close>

theorem log_filter_consistent:
  assumes "lf_reach gs xs lf"
  shows "lf_group lf \<in> insert ''all'' (set gs) \<and>
         (lf_student lf = ''all'' \<or>
          lf_student lf \<in> stu_name ` set (if lf_group lf = ''all'' then xs else group_students_of xs (lf_group lf)))"
  using lf_reach_ok [OF assms] by (auto simp: lf_ok_def log_student_options_names [symmetric])

theorem log_filter_consistent_witness:
  "lf_group (on_log_student_change ''B'' (on_log_group_change [ex_g ''A'' ''a'', ex_g ''B'' ''b''] ''b''
      (init_log_filter [''b'', ''a''] [ex_g ''A'' ''a'', ex_g ''B'' ''b'']))) = ''b'' \<and>
   lf_student (on_log_student_change ''B'' (on_log_group_change [ex_g ''A'' ''a'', ex_g ''B'' ''b''] ''b''
      (init_log_filter [''b'', ''a''] [ex_g ''A'' ''a'', ex_g ''B'' ''b'']))) = ''B'' \<and>
   ''B'' \<in> stu_name ` set (group_students_of [ex_g ''A'' ''a'', ex_g ''B'' ''b''] ''b'')"
proof -
  let ?xs = "[ex_g ''A'' ''a'', ex_g ''B'' ''b'']" and ?gs = "[''b'', ''a'']"
  let ?l1 = "on_log_group_change ?xs ''b'' (init_log_filter ?gs ?xs)"
  have r1: "lf_reach ?gs ?xs ?l1"
    by (rule lf_reach.step [OF lf_reach.init lf_step.group]) (simp add: init_log_filter_def)
  have r2: "lf_reach ?gs ?xs (on_log_student_change ''B'' ?l1)"
    by (rule lf_reach.step [OF r1 lf_step.student])
       (simp add: on_log_group_change_def log_student_options_def group_students_of_def js_simps store_simps
          name_cmp_def locale_cmp_def)
  show ?thesis
    using log_filter_consistent [OF r2]
    by (simp add: on_log_group_change_def on_log_student_change_def)
qed

end
