(* ===== verification/Handlers.thy ===== *)
theory Handlers
  imports Ranking
begin

text \<open>
  The inline \<open>onclick\<close> handlers that \<open>src/script.js\<close> writes into its markup: the medal
  of \<open>getMedalHtml\<close> calls \<open>showRankingModal(name, group, rank, score, img, event)\<close> and
  the edit button of \<open>renderLogs\<close> calls \<open>openEditLogModal(rowIndex, student, score, item)\<close>.
  Both interpolate the values between single quotes without escaping. The browser's
  reading of such a call is modelled on the fragment of JavaScript the templates produce:
  arguments separated by \<open>", "\<close>, each a single-quoted literal without escapes (a
  backslash or a line break leaves the fragment) or a bare token up to the next comma or
  parenthesis. The attribute itself is double-quoted HTML, so values are taken without
  \<open>"\<close> and \<open>&\<close>, which the HTML parser would act on first.
\<close>

subsection \<open>The handler texts\<close>

definition squote :: char where
  "squote = CHR 0x27"

definition quoted :: "string \<Rightarrow> string" where
  "quoted s = squote # s @ [squote]"

definition rank_word :: "medal \<Rightarrow> string" where
  "rank_word m = [CHR 0xE7, CHR 0xAC, CHR 0xAC] @ (case m of
       Gold \<Rightarrow> [CHR 0xE4, CHR 0xB8, CHR 0x80]
     | Silver \<Rightarrow> [CHR 0xE4, CHR 0xBA, CHR 0x8C]
     | Bronze \<Rightarrow> [CHR 0xE4, CHR 0xB8, CHR 0x89])"

text \<open>The \<open>onclick\<close> text of \<open>getMedalHtml(type, name, group, score, imgUrl)\<close>; a missing
  image is \<open>''\<close> (\<open>imgUrl ? imgUrl : ''\<close>).\<close>

definition medal_onclick :: "medal \<Rightarrow> string \<Rightarrow> string \<Rightarrow> int \<Rightarrow> string \<Rightarrow> string" where
  "medal_onclick m nm grp sc img =
     ''showRankingModal('' @ quoted nm @ '', '' @ quoted grp @ '', '' @ quoted (rank_word m) @ '', '' @
     int_to_string sc @ '', '' @ quoted img @ '', event)''"

text \<open>\<open>${scoreNum}\<close> for \<open>Number(log.score)\<close>.\<close>

primrec jsnum_text :: "jsnum \<Rightarrow> string" where
  "jsnum_text (Num n) = int_to_string n"
| "jsnum_text NaN = ''NaN''"

definition edit_onclick :: "log_entry \<Rightarrow> string" where
  "edit_onclick l =
     ''openEditLogModal('' @ int_to_string (log_row l) @ '', '' @ quoted (log_student l) @ '', '' @
     jsnum_text (js_number (log_score l)) @ '', '' @ quoted (log_item l) @ '')''"

subsection \<open>Reading a call\<close>

definition is_sep :: "char \<Rightarrow> bool" where
  "is_sep c \<longleftrightarrow> c = CHR '','' \<or> c = CHR '')''"

text \<open>The body of a single-quoted literal, up to its closing quote.\<close>

fun read_lit :: "string \<Rightarrow> (string \<times> string) option" where
  "read_lit [] = None"
| "read_lit (c # cs) =
     (if c = squote then Some ([], cs)
      else if c = CHR 0x5C \<or> c = CHR 10 \<or> c = CHR 13 then None
      else map_option (\<lambda>(a, r). (c # a, r)) (read_lit cs))"

definition read_arg :: "string \<Rightarrow> (string \<times> string) option" where
  "read_arg s =
     (if s \<noteq> [] \<and> hd s = squote then read_lit (tl s)
      else Some (takeWhile (Not \<circ> is_sep) s, dropWhile (Not \<circ> is_sep) s))"

text \<open>At most \<open>n\<close> arguments, then the closing parenthesis and the end of the text.\<close>

fun read_args :: "nat \<Rightarrow> string \<Rightarrow> string list option" where
  "read_args 0 s = None"
| "read_args (Suc n) s =
     (case read_arg s of
        None \<Rightarrow> None
      | Some (a, r) \<Rightarrow>
          if r = '')'' then Some [a]
          else if take 2 r = '', '' then map_option (Cons a) (read_args n (drop 2 r))
          else None)"

definition read_call :: "string \<Rightarrow> string \<Rightarrow> string list option" where
  "read_call f s =
     (if take (length f + 1) s = f @ ''('' then read_args (length s) (drop (length f + 1) s) else None)"

definition safe_text :: "string \<Rightarrow> bool" where
  "safe_text s \<longleftrightarrow> squote \<notin> set s \<and> CHR 0x5C \<notin> set s \<and> CHR 10 \<notin> set s \<and> CHR 13 \<notin> set s \<and>
     CHR 0x22 \<notin> set s \<and> CHR ''&'' \<notin> set s"

subsection \<open>Lemmas\<close>

lemma read_lit_safe: "safe_text s \<Longrightarrow> read_lit (s @ squote # r) = Some (s, r)"
  by (induction s) (auto simp: safe_text_def)

lemma read_arg_quoted: "safe_text s \<Longrightarrow> read_arg (quoted s @ r) = Some (s, r)"
  by (simp add: read_arg_def quoted_def read_lit_safe)

lemma read_arg_token:
  assumes "list_all (Not \<circ> is_sep) t" and "t \<noteq> []" and "hd t \<noteq> squote" and "r = [] \<or> is_sep (hd r)"
  shows "read_arg (t @ r) = Some (t, r)"
proof -
  have "takeWhile (Not \<circ> is_sep) (t @ r) = t" "dropWhile (Not \<circ> is_sep) (t @ r) = r"
    using assms(1,4) by (cases r; auto simp: takeWhile_append2 dropWhile_append2 list_all_iff)+
  then show ?thesis using assms(2,3) by (simp add: read_arg_def)
qed

lemma int_to_string_token:
  "list_all (Not \<circ> is_sep) (int_to_string n) \<and> int_to_string n \<noteq> [] \<and> hd (int_to_string n) \<noteq> squote"
proof -
  have d: "list_all is_digit (nat_digits k) \<and> nat_digits k \<noteq> []" for k
    using nat_digits_props [of k] by simp
  have "is_digit c \<Longrightarrow> \<not> is_sep c \<and> c \<noteq> squote" for c
    by (auto simp: is_digit_def is_sep_def squote_def)
  then show ?thesis
    using d [of "nat (- n)"] d [of "nat n"]
    by (auto simp: int_to_string_def is_sep_def squote_def list_all_iff neq_Nil_conv)
qed

lemma safe_rank_word: "safe_text (rank_word m)"
  by (cases m) (simp_all add: safe_text_def rank_word_def squote_def)

lemma read_arg_event: "read_arg ''event)'' = Some (''event'', '')'')"
  by (simp add: read_arg_def is_sep_def squote_def)

lemma read_arg_int:
  "r = [] \<or> is_sep (hd r) \<Longrightarrow> read_arg (int_to_string n @ r) = Some (int_to_string n, r)"
  using int_to_string_token [of n] by (intro read_arg_token) auto

lemma read_medal_call:
  assumes "safe_text nm" and "safe_text grp" and "safe_text img"
  shows "read_call ''showRankingModal'' (medal_onclick m nm grp sc img) =
           Some [nm, grp, rank_word m, int_to_string sc, img, ''event'']"
proof -
  let ?r = "quoted nm @ '', '' @ quoted grp @ '', '' @ quoted (rank_word m) @ '', '' @
     int_to_string sc @ '', '' @ quoted img @ '', event)''"
  have s: "medal_onclick m nm grp sc img = ''showRankingModal('' @ ?r"
    by (simp add: medal_onclick_def)
  have k: "length (medal_onclick m nm grp sc img) = Suc (Suc (Suc (Suc (Suc (Suc (length ?r + 11))))))"
    by (simp add: s)
  have p: "take (length ''showRankingModal'' + 1) (medal_onclick m nm grp sc img) = ''showRankingModal('' \<and>
           drop (length ''showRankingModal'' + 1) (medal_onclick m nm grp sc img) = ?r"
    by (simp add: s)
  have "read_args (Suc (Suc (Suc (Suc (Suc (Suc n)))))) ?r =
          Some [nm, grp, rank_word m, int_to_string sc, img, ''event'']" for n
    using assms safe_rank_word [of m]
    by (simp add: read_arg_quoted read_arg_int is_sep_def read_arg_event)
  from this [of "length ?r + 11"] show ?thesis using p k by (simp only: read_call_def) simp
qed

text \<open>C26: when the name, the group and the image address hold no quote, backslash, line
  break, double quote or ampersand, the medal's handler calls \<open>showRankingModal\<close> with
  exactly the name, the group, the rank word, the score and the image address.\<close>

theorem medal_onclick_roundtrip:
  assumes "safe_text nm" and "safe_text grp" and "safe_text img"
  shows "read_call ''showRankingModal'' (medal_onclick m nm grp sc img) =
           Some [nm, grp, rank_word m, int_to_string sc, img, ''event'']"
  using assms by (rule read_medal_call)

theorem medal_onclick_roundtrip_witness:
  "read_call ''showRankingModal'' (medal_onclick Silver ''Amy'' ''g1'' 42 []) =
     Some [''Amy'', ''g1'', rank_word Silver, ''42'', [], ''event'']"
  using medal_onclick_roundtrip [of "''Amy''" "''g1''" "[]" Silver 42]
  by (simp add: safe_text_def squote_def js_simps)

lemma jsnum_text_token: "list_all (Not \<circ> is_sep) (jsnum_text v) \<and> jsnum_text v \<noteq> [] \<and> hd (jsnum_text v) \<noteq> squote"
  using int_to_string_token by (cases v) (simp_all add: is_sep_def squote_def)

text \<open>The edit button of a log row reads back the same way when the student and the item
  are safe texts.\<close>

lemma edit_onclick_roundtrip:
  assumes "safe_text (log_student l)" and "safe_text (log_item l)"
  shows "read_call ''openEditLogModal'' (edit_onclick l) =
           Some [int_to_string (log_row l), log_student l, jsnum_text (js_number (log_score l)), log_item l]"
proof -
  let ?r = "int_to_string (log_row l) @ '', '' @ quoted (log_student l) @ '', '' @
     jsnum_text (js_number (log_score l)) @ '', '' @ quoted (log_item l) @ '')''"
  have s: "edit_onclick l = ''openEditLogModal('' @ ?r" by (simp add: edit_onclick_def)
  have k: "length (edit_onclick l) = Suc (Suc (Suc (Suc (length ?r + 13))))" by (simp add: s)
  have p: "take (length ''openEditLogModal'' + 1) (edit_onclick l) = ''openEditLogModal('' \<and>
           drop (length ''openEditLogModal'' + 1) (edit_onclick l) = ?r"
    by (simp add: s)
  have rt: "read_arg (jsnum_text v @ r) = Some (jsnum_text v, r)" if "r = [] \<or> is_sep (hd r)" for v r
    using jsnum_text_token [of v] that by (intro read_arg_token) auto
  have lit: "read_arg (quoted s @ '')'') = Some (s, '')'')" if "safe_text s" for s
    using read_arg_quoted [OF that, of "'')''"] .
  have "read_args (Suc (Suc (Suc (Suc n)))) ?r =
          Some [int_to_string (log_row l), log_student l, jsnum_text (js_number (log_score l)), log_item l]" for n
    using assms by (simp add: read_arg_quoted read_arg_int rt is_sep_def lit)
  from this [of "length ?r + 13"] show ?thesis using p k by (simp only: read_call_def) simp
qed

text \<open>A quote in a name breaks the call: \<open>O'Neil\<close> ends the literal early and leaves a
  syntax error, and a name holding \<open>', '\<close> shifts the arguments, so the dialog shows a
  fragment of the name as the student and the name's tail as the group.\<close>

lemma medal_onclick_quote:
  "read_call ''showRankingModal'' (medal_onclick Gold (''O'' @ squote # ''Neil'') ''g1'' 5 []) = None"
  "read_call ''showRankingModal'' (medal_onclick Gold (''x'' @ squote # '', '' @ squote # ''y'') ''g1'' 5 []) =
     Some [''x'', ''y'', ''g1'', rank_word Gold, ''5'', [], ''event'']"
  by (simp_all add: medal_onclick_def read_call_def quoted_def read_arg_def squote_def is_sep_def rank_word_def js_simps)

end
