(* ===== verification/Requests.thy ===== *)
theory Requests
  imports Handlers Actions
begin

text \<open>
  The requests of \<open>src/script.js\<close>: \<open>callApi(action, params)\<close> builds a \<open>GET\<close> with the
  parameters in the query string for the two read actions and a \<open>POST\<close> with a JSON body
  for the others, and turns a response with an \<open>error\<close> field into a rejection; and the
  log editor, \<open>openEditLogModal\<close> filled from the edit button's call and \<open>doEditLog\<close>,
  which checks its inputs and sends \<open>editLogRecord\<close>. Parameters are a flat object of
  texts (UTF-8 byte strings) with distinct keys. \<open>URLSearchParams\<close> and \<open>JSON.stringify\<close>
  are modelled from their specifications on such objects: the
  \<open>application/x-www-form-urlencoded\<close> serializer and JSON string escaping; \<open>url_decode\<close>
  and \<open>parse_query\<close> are the receiving side, for the round trip.
\<close>

subsection \<open>The urlencoded serializer and its parser\<close>

definition hex_digit :: "nat \<Rightarrow> char" where
  "hex_digit n = ''0123456789ABCDEF'' ! n"

definition hex_val :: "char \<Rightarrow> nat" where
  "hex_val c = (let n = of_char c :: nat in if n \<le> 0x39 then n - 0x30 else n - 0x37)"

text \<open>The bytes the serializer leaves as they are: \<open>*-._\<close>, digits and ASCII letters.\<close>

definition url_plain :: "char \<Rightarrow> bool" where
  "url_plain c \<longleftrightarrow> (let n = of_char c :: nat in
     n = 0x2A \<or> n = 0x2D \<or> n = 0x2E \<or> n = 0x5F \<or> (0x30 \<le> n \<and> n \<le> 0x39) \<or>
     (0x41 \<le> n \<and> n \<le> 0x5A) \<or> (0x61 \<le> n \<and> n \<le> 0x7A))"

definition url_byte :: "char \<Rightarrow> string" where
  "url_byte c =
     (if c = CHR '' '' then ''+''
      else if url_plain c then [c]
      else [CHR ''%'', hex_digit (of_char c div 16), hex_digit (of_char c mod 16)])"

definition url_encode :: "string \<Rightarrow> string" where
  "url_encode s = concat (map url_byte s)"

definition url_pair :: "string \<times> string \<Rightarrow> string" where
  "url_pair p = url_encode (fst p) @ CHR ''='' # url_encode (snd p)"

fun join_with_amp :: "string list \<Rightarrow> string" where
  "join_with_amp [] = []"
| "join_with_amp [w] = w"
| "join_with_amp (w # v # ws) = w @ CHR ''&'' # join_with_amp (v # ws)"

definition url_search_params :: "(string \<times> string) list \<Rightarrow> string" where
  "url_search_params ps = join_with_amp (map url_pair ps)"

function url_decode :: "string \<Rightarrow> string" where
  "url_decode [] = []"
| "url_decode (c # cs) =
     (if c = CHR ''%'' \<and> 2 \<le> length cs then char_of (16 * hex_val (cs ! 0) + hex_val (cs ! 1)) # url_decode (drop 2 cs)
      else (if c = CHR ''+'' then CHR '' '' else c) # url_decode cs)"
  by pat_completeness auto
termination
  by (relation "measure length") auto

fun split_on :: "char \<Rightarrow> string \<Rightarrow> string list" where
  "split_on c [] = [[]]"
| "split_on c (x # xs) =
     (if x = c then [] # split_on c xs
      else (case split_on c xs of [] \<Rightarrow> [[x]] | w # ws \<Rightarrow> (x # w) # ws))"

definition parse_pair :: "string \<Rightarrow> string \<times> string" where
  "parse_pair w = (let k = takeWhile (\<lambda>c. c \<noteq> CHR ''='') w in (url_decode k, url_decode (drop (Suc (length k)) w)))"

definition parse_query :: "string \<Rightarrow> (string \<times> string) list" where
  "parse_query q = (if q = [] then [] else map parse_pair (split_on (CHR ''&'') q))"

subsection \<open>JSON bodies\<close>

definition json_char :: "char \<Rightarrow> string" where
  "json_char c =
     (let n = of_char c :: nat in
      if c = CHR 0x22 then [CHR 0x5C, CHR 0x22]
      else if c = CHR 0x5C then [CHR 0x5C, CHR 0x5C]
      else if c = CHR 0x08 then [CHR 0x5C, CHR ''b''] else if c = CHR 0x0C then [CHR 0x5C, CHR ''f'']
      else if c = CHR 0x0A then [CHR 0x5C, CHR ''n''] else if c = CHR 0x0D then [CHR 0x5C, CHR ''r'']
      else if c = CHR 0x09 then [CHR 0x5C, CHR ''t'']
      else if n < 0x20 then [CHR 0x5C, CHR ''u'', CHR ''0'', CHR ''0'', hex_digit (n div 16), hex_digit (n mod 16)]
      else [c])"

definition json_string :: "string \<Rightarrow> string" where
  "json_string s = CHR 0x22 # concat (map json_char s) @ [CHR 0x22]"

fun join_with_comma :: "string list \<Rightarrow> string" where
  "join_with_comma [] = []"
| "join_with_comma [w] = w"
| "join_with_comma (w # v # ws) = w @ CHR '','' # join_with_comma (v # ws)"

definition json_object :: "(string \<times> string) list \<Rightarrow> string" where
  "json_object ps = CHR ''{'' # join_with_comma (map (\<lambda>(k, v). json_string k @ CHR '':'' # json_string v) ps) @ ''}''"

subsection \<open>callApi\<close>

text \<open>\<open>{ action: action, ...params }\<close>: the action first; a parameter named \<open>action\<close>
  overwrites its value in place.\<close>

definition spread_action :: "string \<Rightarrow> (string \<times> string) list \<Rightarrow> (string \<times> string) list" where
  "spread_action a ps =
     (''action'', case map_of ps ''action'' of None \<Rightarrow> a | Some v \<Rightarrow> v) # filter (\<lambda>p. fst p \<noteq> ''action'') ps"

definition read_actions :: "string list" where
  "read_actions = [''getInitialData'', ''getLatestScores'']"

datatype http_method = HttpGet | HttpPost

record api_request =
  req_method :: http_method
  req_url :: string
  req_body :: "string option"

definition call_api_request :: "string \<Rightarrow> string \<Rightarrow> (string \<times> string) list \<Rightarrow> api_request" where
  "call_api_request url a ps =
     (if a \<in> set read_actions
      then \<lparr>req_method = HttpGet, req_url = url @ CHR ''?'' # url_search_params (spread_action a ps), req_body = None\<rparr>
      else \<lparr>req_method = HttpPost, req_url = url, req_body = Some (json_object (spread_action a ps))\<rparr>)"

text \<open>\<open>if (data.error) throw new Error(data.error); return data;\<close>: the response's \<open>error\<close>
  field and the rest of it.\<close>

definition call_api_response :: "jsval \<Rightarrow> 'a \<Rightarrow> string + 'a" where
  "call_api_response err d = (if js_truthy err then Inl (js_string err) else Inr d)"

subsection \<open>The log editor\<close>

text \<open>The four inputs of the edit dialog; \<open>openEditLogModal(rowIndex, name, score, item)\<close>
  writes \<open>String\<close> of its arguments into them, which for the arguments of the edit
  button's call are the texts the call was read with.\<close>

record edit_form =
  ef_row :: string
  ef_name :: string
  ef_score :: string
  ef_item :: string

definition open_edit_log_modal :: "string \<Rightarrow> string \<Rightarrow> string \<Rightarrow> string \<Rightarrow> edit_form" where
  "open_edit_log_modal r n sc i = \<lparr>ef_row = r, ef_name = n, ef_score = sc, ef_item = i\<rparr>"

text \<open>A click on a row's edit button: the call the browser reads from the button's
  \<open>onclick\<close>; a text outside the call fragment leaves the dialog closed.\<close>

definition click_edit :: "log_entry \<Rightarrow> edit_form option" where
  "click_edit l =
     (case read_call ''openEditLogModal'' (edit_onclick l) of
        Some [r, n, sc, i] \<Rightarrow> Some (open_edit_log_modal r n sc i)
      | _ \<Rightarrow> None)"

datatype edit_error = EditIncomplete

text \<open>\<open>doEditLog\<close>: \<open>if (!n || !s || !i)\<close> alerts and returns; otherwise the parameters of
  \<open>callApi('editLogRecord', ...)\<close> (the row index is not checked).\<close>

definition do_edit_log :: "edit_form \<Rightarrow> edit_error + (string \<times> string) list" where
  "do_edit_log ef =
     (if ef_name ef = [] \<or> ef_score ef = [] \<or> ef_item ef = [] then Inl EditIncomplete
      else Inr [(''rowIndex'', ef_row ef), (''newName'', ef_name ef), (''newScore'', ef_score ef),
                (''newItem'', ef_item ef)])"

text \<open>Example data: a log row of student Amy, row 7.\<close>

abbreviation ex_edit_log :: "jsval \<Rightarrow> string \<Rightarrow> log_entry" where
  "ex_edit_log sc i \<equiv> \<lparr>log_student = ''Amy'', log_score = sc, log_item = i, log_time = 0,
     log_teacher = ''t1'', log_row = 7\<rparr>"

subsection \<open>The query string reads back\<close>

lemma hex_val_digit: "n < 16 \<Longrightarrow> hex_val (hex_digit n) = n"
  by (auto simp: less_Suc_eq numeral_eq_Suc hex_digit_def hex_val_def)

lemma hex_digit_not_sep: "n < 16 \<Longrightarrow> hex_digit n \<noteq> CHR ''&'' \<and> hex_digit n \<noteq> CHR ''=''"
  by (auto simp: less_Suc_eq numeral_eq_Suc hex_digit_def)

lemma char_of_hex: "char_of (16 * (of_char c div 16) + of_char c mod (16 :: nat)) = c"
proof -
  have "16 * (of_char c div 16) + of_char c mod (16 :: nat) = of_char c" by simp
  then show ?thesis by simp
qed

lemma of_char_div16: "of_char c div 16 < (16 :: nat)"
  by (rule less_mult_imp_div_less) (use nat_of_char_less_256 [of c] in simp)

lemma url_plain_special: "\<not> url_plain CHR ''%''" "\<not> url_plain CHR ''+''" "\<not> url_plain CHR ''&''" "\<not> url_plain CHR ''=''"
  by (simp_all add: url_plain_def)

lemma url_decode_byte: "url_decode (url_byte c @ r) = c # url_decode r"
proof -
  show ?thesis
    using url_plain_special of_char_div16 [of c]
    by (auto simp: url_byte_def hex_val_digit char_of_hex)
qed

lemma url_decode_encode: "url_decode (url_encode s) = s"
  by (induction s) (simp_all add: url_encode_def url_decode_byte)

lemma url_byte_no_sep: "CHR ''&'' \<notin> set (url_byte c) \<and> CHR ''='' \<notin> set (url_byte c)"
proof -
  show ?thesis
    using of_char_div16 [of c] url_plain_special hex_digit_not_sep [of "of_char c div 16"] hex_digit_not_sep [of "of_char c mod 16"]
    by (auto simp: url_byte_def)
qed

lemma url_encode_no_sep: "CHR ''&'' \<notin> set (url_encode s) \<and> CHR ''='' \<notin> set (url_encode s)"
  using url_byte_no_sep by (auto simp: url_encode_def)

lemma split_on_none: "c \<notin> set w \<Longrightarrow> split_on c w = [w]"
  by (induction w) auto

lemma split_on_append: "c \<notin> set w \<Longrightarrow> split_on c (w @ c # r) = w # split_on c r"
proof (induction w)
  case Nil then show ?case by simp
next
  case (Cons x w)
  then show ?case by (cases "split_on c (w @ c # r)") auto
qed

lemma split_on_join_amp:
  "ws \<noteq> [] \<Longrightarrow> \<forall>w \<in> set ws. CHR ''&'' \<notin> set w \<Longrightarrow> split_on (CHR ''&'') (join_with_amp ws) = ws"
  by (induction ws rule: join_with_amp.induct) (auto simp: split_on_none split_on_append)

lemma parse_url_pair: "parse_pair (url_pair p) = p"
proof -
  have "takeWhile (\<lambda>c. c \<noteq> CHR ''='') (url_pair p) = url_encode (fst p)"
    using url_encode_no_sep [of "fst p"] by (auto simp: url_pair_def intro: takeWhile_append2 [THEN trans])
  then show ?thesis by (simp add: parse_pair_def url_pair_def url_decode_encode Let_def)
qed

lemma parse_query_params: "parse_query (url_search_params ps) = ps"
proof (cases ps)
  case Nil then show ?thesis by (simp add: parse_query_def url_search_params_def)
next
  case (Cons p ps')
  have "\<forall>w \<in> set (map url_pair ps). CHR ''&'' \<notin> set w"
    using url_encode_no_sep by (auto simp: url_pair_def)
  then have "split_on (CHR ''&'') (url_search_params ps) = map url_pair ps"
    using Cons by (simp add: url_search_params_def split_on_join_amp)
  moreover have "url_search_params ps \<noteq> []"
    using Cons by (cases ps') (simp_all add: url_search_params_def url_pair_def)
  ultimately show ?thesis by (simp add: parse_query_def comp_def parse_url_pair)
qed

text \<open>A read action goes out as a \<open>GET\<close> without a body, to the address followed by a
  query string that reads back as the action followed by the parameters.\<close>

lemma read_request_roundtrip:
  assumes "a \<in> set read_actions"
  shows "\<exists>q. call_api_request url a ps = \<lparr>req_method = HttpGet, req_url = url @ CHR ''?'' # q, req_body = None\<rparr> \<and>
             parse_query q = spread_action a ps"
  using assms by (simp add: call_api_request_def parse_query_params)

lemma read_request_example:
  "call_api_request ''https://x'' ''getInitialData'' [] =
     \<lparr>req_method = HttpGet, req_url = ''https://x?action=getInitialData'', req_body = None\<rparr> \<and>
   parse_query ''action=getInitialData'' = [(''action'', ''getInitialData'')]"
proof -
  have r: "''getInitialData'' \<in> set read_actions" by (simp add: read_actions_def)
  obtain q where c: "call_api_request ''https://x'' ''getInitialData'' [] =
      \<lparr>req_method = HttpGet, req_url = ''https://x'' @ CHR ''?'' # q, req_body = None\<rparr>"
    and pq: "parse_query q = spread_action ''getInitialData'' []"
    using read_request_roundtrip [OF r, of "''https://x''" "[]"] by blast
  have e: "call_api_request ''https://x'' ''getInitialData'' [] =
     \<lparr>req_method = HttpGet, req_url = ''https://x?action=getInitialData'', req_body = None\<rparr>"
    by (simp add: call_api_request_def read_actions_def spread_action_def url_search_params_def url_pair_def
        url_encode_def url_byte_def url_plain_def)
  then have "q = ''action=getInitialData''" using c by simp
  then show ?thesis using e pq by (simp add: spread_action_def)
qed

subsection \<open>Saving a log unchanged\<close>

text \<open>C12: opening a log row's editor from its edit button and saving it unchanged sends
  the row index, the student, the score as \<open>Number(log.score)\<close> prints it, and the item,
  when the student and item texts are safe; an empty student or item is refused.\<close>

theorem edit_unchanged_request:
  assumes "safe_text (log_student l)" and "safe_text (log_item l)"
  shows "map_option do_edit_log (click_edit l) =
     Some (if log_student l = [] \<or> log_item l = [] then Inl EditIncomplete
           else Inr [(''rowIndex'', int_to_string (log_row l)), (''newName'', log_student l),
                     (''newScore'', jsnum_text (js_number (log_score l))), (''newItem'', log_item l)])"
  using edit_onclick_roundtrip [OF assms] jsnum_text_token [of "js_number (log_score l)"]
  by (simp add: click_edit_def open_edit_log_modal_def do_edit_log_def)

theorem edit_unchanged_request_witness:
  "map_option do_edit_log (click_edit (ex_edit_log (JStr ''abc'') ''quiz'')) =
     Some (Inr [(''rowIndex'', ''7''), (''newName'', ''Amy''), (''newScore'', ''NaN''), (''newItem'', ''quiz'')]) \<and>
   map_option do_edit_log (click_edit (ex_edit_log (JNum 3) [])) = Some (Inl EditIncomplete)"
  using edit_unchanged_request [of "ex_edit_log (JStr ''abc'') ''quiz''"] edit_unchanged_request [of "ex_edit_log (JNum 3) []"]
  by (simp add: safe_text_def squote_def js_simps)

end
