(* ===== verification/Session.thy ===== *)
theory Session
  imports Panels Handlers
begin

text \<open>
  The session-level handlers of \<open>src/script.js\<close>: \<open>loginTeacher\<close> and \<open>logoutTeacher\<close>
  over \<open>currentTeacher\<close> and the login overlay, the overlays of the page
  (\<open>openImageModal\<close>, \<open>closeImageModal\<close>, \<open>closeScoreModal\<close>, \<open>showLoginOverlay\<close>,
  \<open>hideLoginOverlay\<close>), the ranking dialog \<open>showRankingModal\<close> as a medal's handler opens
  it, \<open>openELearning\<close>, and \<open>handleImageError\<close> with \<open>generateRandomPastelColor\<close>. The
  re-renders a handler triggers are returned as the list of calls it makes; the active
  tab is the \<open>data-type\<close> of the active navigation link, which the page always has.
\<close>

subsection \<open>Overlays\<close>

record overlays =
  image_modal_shown :: bool
  expanded_src :: string
  login_shown :: bool
  score_modal_shown :: bool

definition close_image_modal :: "overlays \<Rightarrow> overlays" where
  "close_image_modal ov = ov\<lparr>image_modal_shown := False\<rparr>"

definition open_image_modal :: "string \<Rightarrow> overlays \<Rightarrow> overlays" where
  "open_image_modal url ov = ov\<lparr>expanded_src := url, image_modal_shown := True\<rparr>"

definition close_score_modal :: "overlays \<Rightarrow> overlays" where
  "close_score_modal ov = ov\<lparr>score_modal_shown := False\<rparr>"

definition show_login_overlay :: "overlays \<Rightarrow> overlays" where
  "show_login_overlay ov = ov\<lparr>login_shown := True\<rparr>"

definition hide_login_overlay :: "overlays \<Rightarrow> overlays" where
  "hide_login_overlay ov = ov\<lparr>login_shown := False\<rparr>"

subsection \<open>Login and logout\<close>

record session =
  cur_teacher :: "teacher option"
  sess_overlays :: overlays
  active_tab :: string

datatype page_call = CallRenderPage | CallFilterLogs

datatype login_error = WrongCredentials

text \<open>\<open>loginTeacher\<close>: on a match, \<open>currentTeacher = t\<close>, the overlay hidden, \<open>renderPage()\<close>,
  and \<open>filterLogs()\<close> again when the log tab is active (to show the edit buttons); else
  the alert.\<close>

definition login_handler ::
  "teacher list \<Rightarrow> string \<Rightarrow> string \<Rightarrow> session \<Rightarrow> login_error + session \<times> page_call list" where
  "login_handler ts acc pwd s =
     (case login_teacher ts acc pwd of
        None \<Rightarrow> Inl WrongCredentials
      | Some t \<Rightarrow> Inr (s\<lparr>cur_teacher := Some t, sess_overlays := hide_login_overlay (sess_overlays s)\<rparr>,
                       CallRenderPage # (if active_tab s = ''log'' then [CallFilterLogs] else [])))"

text \<open>\<open>logoutTeacher\<close>: \<open>currentTeacher = null\<close> and \<open>renderPage()\<close> (the sort mode it resets
  is \<open>App.logout\<close>).\<close>

definition logout_handler :: "session \<Rightarrow> session \<times> page_call list" where
  "logout_handler s = (s\<lparr>cur_teacher := None\<rparr>, [CallRenderPage])"

subsection \<open>The ranking dialog\<close>

text \<open>What \<open>showRankingModal(name, group, rank, score, img)\<close> shows: the medal emoji chosen
  by the rank word (anything else than first or second shows bronze), the image or the
  default icon for an empty address, the name, the group, the rank word and the score.\<close>

record ranking_view =
  rv_medal :: medal
  rv_image :: "string option"
  rv_name :: string
  rv_group :: string
  rv_rank :: string
  rv_score :: string

definition show_ranking_modal :: "string \<Rightarrow> string \<Rightarrow> string \<Rightarrow> string \<Rightarrow> string \<Rightarrow> ranking_view" where
  "show_ranking_modal n g r sc img =
     \<lparr>rv_medal = (if r = rank_word Gold then Gold else if r = rank_word Silver then Silver else Bronze),
      rv_image = (if img = [] then None else Some img), rv_name = n, rv_group = g, rv_rank = r, rv_score = sc\<rparr>"

text \<open>A click on a medal: the call the browser reads from its \<open>onclick\<close>.\<close>

definition medal_click :: "medal \<Rightarrow> string \<Rightarrow> string \<Rightarrow> int \<Rightarrow> string \<Rightarrow> ranking_view option" where
  "medal_click m nm grp sc img =
     (case read_call ''showRankingModal'' (medal_onclick m nm grp sc img) of
        Some [n, g, r, s, i, e] \<Rightarrow> Some (show_ranking_modal n g r s i)
      | _ \<Rightarrow> None)"

subsection \<open>The revision site link\<close>

datatype elearn_result = OpenWindow string | AlertNoUrl | ElearnTypeError

text \<open>\<open>if (url && url.startsWith("http")) window.open(url) else alert(...)\<close> on the settings
  cell: a non-zero number is truthy but has no \<open>startsWith\<close>, so the call throws.\<close>

definition open_e_learning :: "jsval \<Rightarrow> elearn_result" where
  "open_e_learning v =
     (case v of
        JStr s \<Rightarrow> if s \<noteq> [] \<and> take 4 s = ''http'' then OpenWindow s else AlertNoUrl
      | JNum n \<Rightarrow> if n \<noteq> 0 then ElearnTypeError else AlertNoUrl
      | _ \<Rightarrow> AlertNoUrl)"

subsection \<open>Broken images\<close>

text \<open>\<open>handleImageError(img)\<close>: the image hidden and a square coloured
  \<open>hsl(Math.floor(Math.random()*360), 70%, 80%)\<close> put first in its container; a slot keeps
  the image's visibility and the hues of the squares, first to last.\<close>

definition pastel_hue :: "rat \<Rightarrow> int" where
  "pastel_hue r = \<lfloor>r * 360\<rfloor>"

record image_slot =
  slot_image_shown :: bool
  slot_squares :: "int list"

definition handle_image_error :: "rat \<Rightarrow> image_slot \<Rightarrow> image_slot" where
  "handle_image_error r sl = sl\<lparr>slot_image_shown := False, slot_squares := pastel_hue r # slot_squares sl\<rparr>"

subsection \<open>Lemmas\<close>

lemma rank_word_distinct: "rank_word Gold \<noteq> rank_word Silver" "rank_word Gold \<noteq> rank_word Bronze"
  "rank_word Silver \<noteq> rank_word Bronze"
  by (simp_all add: rank_word_def)

text \<open>A medal whose texts are safe opens the ranking dialog on its own medal, name, group,
  rank word and score.\<close>

lemma medal_click_shows:
  assumes "safe_text nm" and "safe_text grp" and "safe_text img"
  shows "medal_click m nm grp sc img =
     Some \<lparr>rv_medal = m, rv_image = (if img = [] then None else Some img), rv_name = nm, rv_group = grp,
           rv_rank = rank_word m, rv_score = int_to_string sc\<rparr>"
  using read_medal_call [OF assms, of m sc] rank_word_distinct
  by (cases m) (auto simp: medal_click_def show_ranking_modal_def)

text \<open>The link opens only texts that start with \<open>http\<close>; a numeric cell throws.\<close>

lemma open_e_learning_opens:
  "open_e_learning v = OpenWindow u \<longleftrightarrow> v = JStr u \<and> take 4 u = ''http''"
  "open_e_learning (JNum n) = ElearnTypeError \<longleftrightarrow> n \<noteq> 0"
  by (cases v; auto simp: open_e_learning_def) (simp add: open_e_learning_def)

lemma pastel_hue_range: "0 \<le> r \<Longrightarrow> r < 1 \<Longrightarrow> 0 \<le> pastel_hue r \<and> pastel_hue r \<le> 359"
  by (simp add: pastel_hue_def floor_le_iff)

end
