(* ===== verification/Submit.thy ===== *)
theory Submit
  imports Dialog Requests
begin

text \<open>
  The three buttons of \<open>src/script.js\<close> that send a request and wait for it: the score
  dialog's confirm button (\<open>sendScoreRecord\<close>), the update button (\<open>updateScores\<close>) and
  the edit dialog's save button (\<open>doEditLog\<close>). Each sets \<open>btn.disabled = true\<close> before
  \<open>callApi\<close> and clears it in both the \<open>then\<close> and the \<open>catch\<close> branch; a disabled button
  ignores clicks. The requests in flight are explicit, and their responses arrive in any
  interleaving: a response is a step of its own, success carrying the server's snapshot.
\<close>

datatype response = RespOk snapshot | RespFail string

record submit_state =
  sub_app :: app_state
  score_disabled :: bool
  score_inflight :: "score_payload list"
  score_modal :: bool
  update_disabled :: bool
  update_inflight :: nat
  edit_disabled :: bool
  edit_inflight :: "(string \<times> string) list list"

definition submit_init :: "snapshot \<Rightarrow> submit_state" where
  "submit_init d0 = \<lparr>sub_app = load_snapshot d0, score_disabled = False, score_inflight = [], score_modal = False,
     update_disabled = False, update_inflight = 0, edit_disabled = False, edit_inflight = []\<rparr>"

text \<open>\<open>sendScoreRecord\<close> on the dialog's values: the checks return before the button is
  touched; otherwise the button is disabled and the request sent.\<close>

definition confirm_score ::
  "teacher \<Rightarrow> batch_state \<Rightarrow> modal_target \<Rightarrow> score_form \<Rightarrow> submit_state \<Rightarrow> submit_state" where
  "confirm_score t b tgt f s =
     (case send_score_record (all_students (sub_app s)) t b tgt f of
        Inl _ \<Rightarrow> s
      | Inr p \<Rightarrow> s\<lparr>score_disabled := True, score_inflight := score_inflight s @ [p]\<rparr>)"

text \<open>Its \<open>then\<close>: \<open>closeScoreModal()\<close>, the button enabled, the refresh of the page; its
  \<open>catch\<close>: the alert and the button enabled, the dialog left open.\<close>

definition score_response :: "response \<Rightarrow> submit_state \<Rightarrow> submit_state" where
  "score_response r s =
     (case r of
        RespOk d \<Rightarrow> s\<lparr>score_modal := False, score_disabled := False, score_inflight := tl (score_inflight s),
                      sub_app := fst (refresh d (sub_app s))\<rparr>
      | RespFail _ \<Rightarrow> s\<lparr>score_disabled := False, score_inflight := tl (score_inflight s)\<rparr>)"

definition click_update :: "submit_state \<Rightarrow> submit_state" where
  "click_update s = s\<lparr>update_disabled := True, update_inflight := update_inflight s + 1\<rparr>"

definition update_response :: "response \<Rightarrow> submit_state \<Rightarrow> submit_state" where
  "update_response r s =
     (case r of
        RespOk d \<Rightarrow> s\<lparr>update_disabled := False, update_inflight := update_inflight s - 1,
                      sub_app := fst (refresh d (sub_app s))\<rparr>
      | RespFail _ \<Rightarrow> s\<lparr>update_disabled := False, update_inflight := update_inflight s - 1\<rparr>)"

definition save_edit :: "edit_form \<Rightarrow> submit_state \<Rightarrow> submit_state" where
  "save_edit ef s =
     (case do_edit_log ef of
        Inl _ \<Rightarrow> s
      | Inr ps \<Rightarrow> s\<lparr>edit_disabled := True, edit_inflight := edit_inflight s @ [ps]\<rparr>)"

definition edit_response :: "response \<Rightarrow> submit_state \<Rightarrow> submit_state" where
  "edit_response r s =
     (case r of
        RespOk d \<Rightarrow> s\<lparr>edit_disabled := False, edit_inflight := tl (edit_inflight s),
                      sub_app := fst (edit_log_refresh d (sub_app s))\<rparr>
      | RespFail _ \<Rightarrow> s\<lparr>edit_disabled := False, edit_inflight := tl (edit_inflight s)\<rparr>)"

datatype submit_op =
    OpenDialog | CloseDialog
  | Confirm teacher batch_state modal_target score_form | ScoreResp response
  | ClickUpdate | UpdateResp response
  | SaveEdit edit_form | EditResp response

text \<open>A click reaches a button only when it is enabled (and, for the confirm button, when
  its dialog is open); a response comes only for a request in flight.\<close>

inductive submit_step :: "submit_state \<Rightarrow> submit_op \<Rightarrow> submit_state \<Rightarrow> bool" where
  open_dialog: "submit_step s OpenDialog (s\<lparr>score_modal := True\<rparr>)"
| close_dialog: "submit_step s CloseDialog (s\<lparr>score_modal := False\<rparr>)"
| confirm: "score_modal s \<Longrightarrow> \<not> score_disabled s \<Longrightarrow> submit_step s (Confirm t b tgt f) (confirm_score t b tgt f s)"
| score_resp: "score_inflight s \<noteq> [] \<Longrightarrow> submit_step s (ScoreResp r) (score_response r s)"
| update: "\<not> update_disabled s \<Longrightarrow> submit_step s ClickUpdate (click_update s)"
| update_resp: "0 < update_inflight s \<Longrightarrow> submit_step s (UpdateResp r) (update_response r s)"
| save: "\<not> edit_disabled s \<Longrightarrow> submit_step s (SaveEdit ef) (save_edit ef s)"
| edit_resp: "edit_inflight s \<noteq> [] \<Longrightarrow> submit_step s (EditResp r) (edit_response r s)"

inductive submit_reach :: "snapshot \<Rightarrow> submit_state \<Rightarrow> bool" for d0 where
  init: "submit_reach d0 (submit_init d0)"
| step: "submit_reach d0 s \<Longrightarrow> submit_step s op s' \<Longrightarrow> submit_reach d0 s'"

definition submit_ok :: "snapshot \<Rightarrow> submit_state \<Rightarrow> bool" where
  "submit_ok d0 s \<longleftrightarrow>
     length (score_inflight s) \<le> 1 \<and> score_disabled s = (score_inflight s \<noteq> []) \<and>
     update_inflight s \<le> 1 \<and> update_disabled s = (update_inflight s = 1) \<and>
     length (edit_inflight s) \<le> 1 \<and> edit_disabled s = (edit_inflight s \<noteq> []) \<and>
     original_students (sub_app s) = original_students (load_snapshot d0)"

text \<open>Example data: one student, the add items of \<open>Dialog\<close>, and the form of an opened
  dialog.\<close>

abbreviation ex_sub_snap :: "int \<Rightarrow> snapshot" where
  "ex_sub_snap c \<equiv> ex_snap [ex_app_stu ''A'' c]"

abbreviation ex_sub_form :: score_form where
  "ex_sub_form \<equiv> set_score_category ex_items add_label form_init"

subsection \<open>One request per button\<close>

lemma tl_at_most_one: "length xs \<le> 1 \<Longrightarrow> tl xs = []"
  by (cases xs) auto

lemma refresh_original: "original_students (fst (refresh d st)) = original_students st"
  using app_apply_original [of "OpRefresh d" st] by simp

lemma edit_log_refresh_original: "original_students (fst (edit_log_refresh d st)) = original_students st"
  using app_apply_original [of "OpEditLog d" st] by simp

lemma submit_ok_step: "submit_step s op s' \<Longrightarrow> submit_ok d0 s \<Longrightarrow> submit_ok d0 s'"
proof (induction rule: submit_step.induct)
  case (confirm s t b tgt f) then show ?case
    by (auto simp: submit_ok_def confirm_score_def split: sum.splits)
next
  case (score_resp s r) then show ?case
    by (cases r) (auto simp: submit_ok_def score_response_def refresh_original tl_at_most_one)
next
  case (update_resp s r) then show ?case
    by (cases r) (auto simp: submit_ok_def update_response_def refresh_original)
next
  case (save s ef) then show ?case
    by (auto simp: submit_ok_def save_edit_def split: sum.splits)
next
  case (edit_resp s r) then show ?case
    by (cases r) (auto simp: submit_ok_def edit_response_def edit_log_refresh_original tl_at_most_one)
qed (auto simp: submit_ok_def click_update_def)

lemma submit_reach_ok: "submit_reach d0 s \<Longrightarrow> submit_ok d0 s"
proof (induction rule: submit_reach.induct)
  case init then show ?case by (simp add: submit_ok_def submit_init_def)
next
  case (step s op s') then show ?case using submit_ok_step by blast
qed

text \<open>C11: in every state reachable from the first load through dialog, button and
  response steps in any interleaving, each of the three buttons has at most one request in
  flight and is disabled exactly while it has one, so a double click never sends a score
  or an edit twice; and \<open>originalStudents\<close> stays the list of the first load.\<close>

theorem one_request_per_button:
  assumes "submit_reach d0 s"
  shows "length (score_inflight s) \<le> 1 \<and> score_disabled s = (score_inflight s \<noteq> []) \<and>
         update_inflight s \<le> 1 \<and> update_disabled s = (update_inflight s = 1) \<and>
         length (edit_inflight s) \<le> 1 \<and> edit_disabled s = (edit_inflight s \<noteq> []) \<and>
         original_students (sub_app s) = original_students (load_snapshot d0)"
  using submit_reach_ok [OF assms] by (simp add: submit_ok_def)

theorem one_request_per_button_witness:
  "score_inflight (confirm_score ex_teacher batch_init (ModalStudent ''A'') ex_sub_form
      ((submit_init (ex_sub_snap 10))\<lparr>score_modal := True\<rparr>)) =
     [\<lparr>pay_teacher = ''t1'', pay_target = TargetStudent ''A'', pay_item = ''quiz'', pay_score = ''1''\<rparr>] \<and>
   score_disabled (confirm_score ex_teacher batch_init (ModalStudent ''A'') ex_sub_form
      ((submit_init (ex_sub_snap 10))\<lparr>score_modal := True\<rparr>))"
proof -
  let ?s1 = "(submit_init (ex_sub_snap 10))\<lparr>score_modal := True\<rparr>"
  have r1: "submit_reach (ex_sub_snap 10) ?s1"
    by (rule submit_reach.step [OF submit_reach.init submit_step.open_dialog])
  have r2: "submit_reach (ex_sub_snap 10) (confirm_score ex_teacher batch_init (ModalStudent ''A'') ex_sub_form ?s1)"
    by (rule submit_reach.step [OF r1 submit_step.confirm]) (simp_all add: submit_init_def)
  have e: "score_inflight (confirm_score ex_teacher batch_init (ModalStudent ''A'') ex_sub_form ?s1) =
     [\<lparr>pay_teacher = ''t1'', pay_target = TargetStudent ''A'', pay_item = ''quiz'', pay_score = ''1''\<rparr>]"
    by (simp add: confirm_score_def send_score_record_def score_request_def set_score_category_def
        update_score_options_def toggle_custom_input_def select_value_def score_presets_def add_label_def
        submit_init_def js_simps)
  show ?thesis
    using one_request_per_button [OF r2] e by simp
qed

text \<open>The interleaving the buttons do not prevent: an update sent before a score, whose
  response arrives after the score's, puts the older snapshot back on the page.\<close>

lemma stale_update_overwrites:
  "all_students (sub_app (update_response (RespOk (ex_sub_snap 10))
     (score_response (RespOk (ex_sub_snap 11))
       (confirm_score ex_teacher batch_init (ModalStudent ''A'') ex_sub_form
         ((click_update (submit_init (ex_sub_snap 10)))\<lparr>score_modal := True\<rparr>))))) =
   [ex_app_stu ''A'' 10]"
  by (simp add: update_response_def score_response_def confirm_score_def click_update_def submit_init_def
      app_eval rank_eval js_simps store_simps)

end
