(* ===== verification/LuckyPage.thy ===== *)
theory LuckyPage
  imports Lucky
begin

text \<open>
  The page side of the lucky draw in \<open>src/script.js\<close>, over the state of \<open>Lucky\<close>: the
  exclusion list \<open>renderExclusionList\<close> draws, whose elements carry the class
  \<open>excluded\<close>; the lucky card (\<open>updateLuckyCardDisplay\<close>, \<open>resetLuckyCard\<close>); the manual
  and automatic buttons with their \<open>disabled\<close> flags and labels
  (\<open>updateActiveCandidates\<close>, \<open>toggleLuckyDrawManual\<close>, \<open>startAutoLuckyDraw\<close>); and the
  timers: \<open>luckyIntervalId\<close>, the intervals \<open>startAnimation\<close> has set and nobody has
  cleared, and the pending timeouts of the automatic draw. Every interval that is live
  fires frames; a disabled button ignores clicks.
\<close>

subsection \<open>Labels\<close>

definition empty_label :: string where
  "empty_label = [CHR 0xE5, CHR 0x90, CHR 0x8D, CHR 0xE5, CHR 0x96, CHR 0xAE, CHR 0xE7, CHR 0x82, CHR 0xBA,
     CHR 0xE7, CHR 0xA9, CHR 0xBA]"

definition count_label :: "nat \<Rightarrow> string" where
  "count_label n = [CHR 0xE5, CHR 0x85, CHR 0xB1, CHR '' ''] @ int_to_string (int n) @
     [CHR '' '', CHR 0xE4, CHR 0xBA, CHR 0xBA, CHR 0xE5, CHR 0xBE, CHR 0x85, CHR 0xE5, CHR 0x91, CHR 0xBD]"

definition who_label :: string where
  "who_label = [CHR 0xE8, CHR 0xAA, CHR 0xB0, CHR 0xE6, CHR 0x98, CHR 0xAF, CHR 0xE5, CHR 0xB9, CHR 0xB8,
     CHR 0xE9, CHR 0x81, CHR 0x8B, CHR 0xE5, CHR 0x85, CHR 0x92, CHR 0xEF, CHR 0xBC, CHR 0x9F]"

definition manual_label :: string where
  "manual_label = [CHR 0xE6, CHR 0x89, CHR 0x8B, CHR 0xE5, CHR 0x8B, CHR 0x95, CHR 0xE9, CHR 0x96, CHR 0x8B,
     CHR 0xE5, CHR 0xA7, CHR 0x8B]"

definition stop_label :: string where
  "stop_label = [CHR 0xE5, CHR 0x81, CHR 0x9C, CHR 0xE6, CHR 0xAD, CHR 0xA2]"

definition again_label :: string where
  "again_label = [CHR 0xE5, CHR 0x86, CHR 0x8D, CHR 0xE6, CHR 0x8A, CHR 0xBD, CHR 0xE4, CHR 0xB8, CHR 0x80,
     CHR 0xE6, CHR 0xAC, CHR 0xA1]"

definition auto_label :: string where
  "auto_label = [CHR 0xE9, CHR 0x9B, CHR 0xBB, CHR 0xE8, CHR 0x85, CHR 0xA6, CHR 0xE6, CHR 0x90, CHR 0x9E,
     CHR 0xE7, CHR 0x8F, CHR 0xA0]"

definition spinner_label :: string where
  "spinner_label = ''<i class=\"fas fa-spinner fa-spin\"></i>''"

subsection \<open>The page\<close>

text \<open>An element of \<open>#exclusionList\<close>: the student's name, the image (\<open>stu["image"] ?
  <img> : placeholder\<close>) and whether it has the class \<open>excluded\<close>.\<close>

record excl_item =
  ei_name :: string
  ei_image :: "string option"
  ei_excluded :: bool

definition stu_img :: "student \<Rightarrow> string option" where
  "stu_img s = (if js_truthy (stu_image s) then Some (js_string (stu_image s)) else None)"

definition render_exclusion_list :: "student list \<Rightarrow> excl_item list" where
  "render_exclusion_list gs = map (\<lambda>s. \<lparr>ei_name = stu_name s, ei_image = stu_img s, ei_excluded = False\<rparr>) gs"

record lucky_card =
  lc_name :: string
  lc_src :: string
  lc_image_shown :: bool
  lc_icon_shown :: bool
  lc_jumping :: bool

record lucky_page =
  lp_draw :: lucky_state
  lp_items :: "excl_item list"
  lp_card :: lucky_card
  lp_start_disabled :: bool
  lp_auto_disabled :: bool
  lp_start_label :: string
  lp_auto_label :: string
  lp_interval :: "nat option"
  lp_live :: "nat list"
  lp_next :: nat
  lp_timeouts :: nat
  lp_opened :: "string list"

text \<open>The DOM half of \<open>updateActiveCandidates\<close>, read after its assignment of
  \<open>activeCandidates\<close>.\<close>

definition update_active_view :: "lucky_page \<Rightarrow> lucky_page" where
  "update_active_view p =
     (let dis = (lk_active (lp_draw p) = []) in
      p\<lparr>lp_start_disabled := dis, lp_auto_disabled := dis,
        lp_card := (lp_card p)\<lparr>lc_name := (if dis then empty_label
                                           else if lp_interval p \<noteq> None then lc_name (lp_card p)
                                           else count_label (length (lk_active (lp_draw p))))\<rparr>\<rparr>)"

definition reset_lucky_card :: "lucky_page \<Rightarrow> lucky_page" where
  "reset_lucky_card p =
     p\<lparr>lp_card := (lp_card p)\<lparr>lc_image_shown := False, lc_icon_shown := True, lc_name := who_label,
                                lc_jumping := False\<rparr>,
       lp_start_label := manual_label, lp_draw := (lp_draw p)\<lparr>lk_current := None\<rparr>\<rparr>"

definition update_lucky_card_display :: "student \<Rightarrow> lucky_card \<Rightarrow> lucky_card" where
  "update_lucky_card_display s c =
     (case stu_img s of
        Some u \<Rightarrow> c\<lparr>lc_name := stu_name s, lc_src := u, lc_image_shown := True, lc_icon_shown := False\<rparr>
      | None \<Rightarrow> c\<lparr>lc_name := stu_name s, lc_image_shown := False, lc_icon_shown := True\<rparr>)"

text \<open>\<open>selectLuckyGroup\<close>: the state of \<open>Lucky\<close>, then \<open>renderExclusionList\<close> of the new
  group, \<open>updateActiveCandidates\<close> and \<open>resetLuckyCard\<close>.\<close>

definition select_group_page :: "student list \<Rightarrow> string \<Rightarrow> lucky_page \<Rightarrow> lucky_page" where
  "select_group_page xs g p =
     (let p1 = p\<lparr>lp_draw := select_lucky_group xs g (lp_draw p)\<rparr>
      in reset_lucky_card (update_active_view (p1\<lparr>lp_items := render_exclusion_list (lk_group (lp_draw p1))\<rparr>)))"

text \<open>\<open>toggleExclusion(stu["name"], item)\<close> from the \<open>i\<close>-th element: the name's
  membership and the clicked element's class flip together.\<close>

definition toggle_exclusion_page :: "nat \<Rightarrow> lucky_page \<Rightarrow> lucky_page" where
  "toggle_exclusion_page i p =
     (if lp_interval p \<noteq> None then p
      else let it = lp_items p ! i; was = (ei_name it \<in> set (lk_excluded (lp_draw p)))
           in update_active_view (p\<lparr>lp_draw := toggle_exclusion (ei_name it) (lp_draw p),
                                    lp_items := (lp_items p)[i := it\<lparr>ei_excluded := \<not> was\<rparr>]\<rparr>))"

definition reset_exclusion_page :: "lucky_page \<Rightarrow> lucky_page" where
  "reset_exclusion_page p =
     (if lp_interval p \<noteq> None then p
      else update_active_view (p\<lparr>lp_draw := reset_exclusion (lp_draw p),
                                 lp_items := map (\<lambda>e. e\<lparr>ei_excluded := False\<rparr>) (lp_items p)\<rparr>))"

text \<open>\<open>startAnimation\<close>: the card jumps, the image shows, and \<open>setInterval\<close> returns a
  fresh id, which \<open>luckyIntervalId\<close> takes.\<close>

definition start_animation :: "lucky_page \<Rightarrow> lucky_page" where
  "start_animation p =
     p\<lparr>lp_card := (lp_card p)\<lparr>lc_jumping := True, lc_icon_shown := False, lc_image_shown := True\<rparr>,
       lp_interval := Some (lp_next p), lp_live := lp_live p @ [lp_next p], lp_next := Suc (lp_next p),
       lp_draw := (lp_draw p)\<lparr>lk_running := True\<rparr>\<rparr>"

text \<open>\<open>stopAnimation\<close>: \<open>clearInterval(luckyIntervalId)\<close> clears that one interval only,
  and the score dialog opens for the drawn student.\<close>

definition stop_animation :: "lucky_page \<Rightarrow> lucky_page" where
  "stop_animation p =
     p\<lparr>lp_draw := fst (stop_lucky (lp_draw p)), lp_interval := None,
       lp_live := (case lp_interval p of None \<Rightarrow> lp_live p | Some j \<Rightarrow> removeAll j (lp_live p)),
       lp_card := (lp_card p)\<lparr>lc_jumping := False\<rparr>,
       lp_opened := lp_opened p @ (case snd (stop_lucky (lp_draw p)) of None \<Rightarrow> [] | Some n \<Rightarrow> [n])\<rparr>"

definition toggle_manual :: "lucky_page \<Rightarrow> lucky_page" where
  "toggle_manual p =
     (if lp_interval p \<noteq> None then (stop_animation p)\<lparr>lp_start_label := again_label, lp_auto_disabled := False\<rparr>
      else if lk_active (lp_draw p) = [] then p
      else (start_animation p)\<lparr>lp_start_label := stop_label, lp_auto_disabled := True\<rparr>)"

text \<open>\<open>startAutoLuckyDraw\<close> does not look at \<open>luckyIntervalId\<close>; its stop comes from a
  \<open>setTimeout\<close>, whose random delay only orders it among the other steps.\<close>

definition start_auto :: "lucky_page \<Rightarrow> lucky_page" where
  "start_auto p =
     (if lk_active (lp_draw p) = [] then p
      else (start_animation (p\<lparr>lp_start_disabled := True, lp_auto_disabled := True, lp_auto_label := spinner_label\<rparr>))
             \<lparr>lp_timeouts := Suc (lp_timeouts p)\<rparr>)"

definition auto_timeout :: "lucky_page \<Rightarrow> lucky_page" where
  "auto_timeout p =
     (stop_animation p)\<lparr>lp_start_disabled := False, lp_auto_disabled := False, lp_auto_label := auto_label,
                        lp_start_label := manual_label, lp_timeouts := lp_timeouts p - 1\<rparr>"

text \<open>A frame of a live interval with the random index \<open>i\<close>: \<open>currentLuckyStudent =
  student\<close> is assigned before \<open>updateLuckyCardDisplay(student)\<close> reads it, so on
  \<open>undefined\<close> the frame throws after clearing the drawn student; the interval goes on.\<close>

definition lucky_frame_page :: "nat \<Rightarrow> lucky_page \<Rightarrow> lucky_error option \<times> lucky_page" where
  "lucky_frame_page i p =
     (case lucky_frame i (lp_draw p) of
        Inr st \<Rightarrow> (None, p\<lparr>lp_draw := st, lp_card := update_lucky_card_display (lk_active (lp_draw p) ! i) (lp_card p)\<rparr>)
      | Inl e \<Rightarrow> (Some e, p\<lparr>lp_draw := (lp_draw p)\<lparr>lk_current := None\<rparr>\<rparr>))"

datatype page_op = PSelect string | PToggle nat | PReset | PManual | PAuto | PAutoEnd | PFrame nat nat

inductive page_step :: "student list \<Rightarrow> lucky_page \<Rightarrow> page_op \<Rightarrow> lucky_page \<Rightarrow> bool" for xs where
  select: "page_step xs p (PSelect g) (select_group_page xs g p)"
| toggle: "i < length (lp_items p) \<Longrightarrow> page_step xs p (PToggle i) (toggle_exclusion_page i p)"
| reset: "page_step xs p PReset (reset_exclusion_page p)"
| manual: "\<not> lp_start_disabled p \<Longrightarrow> page_step xs p PManual (toggle_manual p)"
| auto: "\<not> lp_auto_disabled p \<Longrightarrow> page_step xs p PAuto (start_auto p)"
| auto_end: "0 < lp_timeouts p \<Longrightarrow> page_step xs p PAutoEnd (auto_timeout p)"
| frame: "j \<in> set (lp_live p) \<Longrightarrow> i < length (lk_active (lp_draw p)) \<or> (lk_active (lp_draw p) = [] \<and> i = 0) \<Longrightarrow>
    page_step xs p (PFrame j i) (snd (lucky_frame_page i p))"

text \<open>A page before any draw: the state \<open>lucky_init\<close>, no element, no timer, no dialog
  opened by the draw.\<close>

definition page_fresh :: "lucky_page \<Rightarrow> bool" where
  "page_fresh p \<longleftrightarrow> lp_draw p = lucky_init \<and> lp_items p = [] \<and> lp_interval p = None \<and> lp_live p = [] \<and>
     lp_timeouts p = 0 \<and> lp_opened p = []"

inductive page_reach :: "student list \<Rightarrow> lucky_page \<Rightarrow> bool" for xs where
  init: "page_fresh p \<Longrightarrow> page_reach xs p"
| step: "page_reach xs p \<Longrightarrow> page_step xs p op p' \<Longrightarrow> page_reach xs p'"

text \<open>The same steps, but the group buttons are not pressed while a draw runs.\<close>

inductive page_reach_guarded :: "student list \<Rightarrow> lucky_page \<Rightarrow> bool" for xs where
  init: "page_fresh p \<Longrightarrow> page_reach_guarded xs p"
| step: "page_reach_guarded xs p \<Longrightarrow> page_step xs p op p' \<Longrightarrow>
    (\<forall>g. op = PSelect g \<longrightarrow> lp_interval p = None) \<Longrightarrow> page_reach_guarded xs p'"

text \<open>The exclusion marks: the elements are the group's students in order, with distinct
  names, and an element has the class \<open>excluded\<close> exactly when its name is in
  \<open>excludedNames\<close>; \<open>lk_running\<close> is \<open>luckyIntervalId\<close> being set.\<close>

definition marks_ok :: "lucky_page \<Rightarrow> bool" where
  "marks_ok p \<longleftrightarrow>
     map ei_name (lp_items p) = map stu_name (lk_group (lp_draw p)) \<and> distinct (map stu_name (lk_group (lp_draw p))) \<and>
     (\<forall>k < length (lp_items p). ei_excluded (lp_items p ! k) = (ei_name (lp_items p ! k) \<in> set (lk_excluded (lp_draw p)))) \<and>
     lk_running (lp_draw p) = (lp_interval p \<noteq> None)"

text \<open>The timers of a draw without group switches while it runs: the live intervals are
  \<open>luckyIntervalId\<close> alone, at most one timeout is pending and only during an automatic
  draw, and a running draw has the automatic button disabled.\<close>

definition timers_ok :: "lucky_page \<Rightarrow> bool" where
  "timers_ok p \<longleftrightarrow>
     lp_live p = (case lp_interval p of None \<Rightarrow> [] | Some j \<Rightarrow> [j]) \<and>
     lk_running (lp_draw p) = (lp_interval p \<noteq> None) \<and> lp_timeouts p \<le> 1 \<and>
     (0 < lp_timeouts p \<longrightarrow> lp_interval p \<noteq> None \<and> lp_start_disabled p \<and> lp_auto_disabled p) \<and>
     (lp_interval p \<noteq> None \<longrightarrow> lp_auto_disabled p)"

text \<open>What the draw hands to the score dialog: its group and candidates come from the
  student list, the drawn student is listed, and so is every name \<open>stopAnimation\<close> has
  opened the dialog for.\<close>

definition opened_ok :: "student list \<Rightarrow> lucky_page \<Rightarrow> bool" where
  "opened_ok xs p \<longleftrightarrow>
     set (lk_group (lp_draw p)) \<subseteq> set xs \<and> set (lk_active (lp_draw p)) \<subseteq> set (lk_group (lp_draw p)) \<and>
     (\<forall>s. lk_current (lp_draw p) = Some s \<longrightarrow> s \<in> set xs) \<and> set (lp_opened p) \<subseteq> stu_name ` set xs"

abbreviation ex_page0 :: lucky_page where
  "ex_page0 \<equiv> \<lparr>lp_draw = lucky_init, lp_items = [],
     lp_card = \<lparr>lc_name = [], lc_src = [], lc_image_shown = False, lc_icon_shown = True, lc_jumping = False\<rparr>,
     lp_start_disabled = False, lp_auto_disabled = False, lp_start_label = manual_label,
     lp_auto_label = auto_label, lp_interval = None, lp_live = [], lp_next = 1, lp_timeouts = 0, lp_opened = []\<rparr>"

subsection \<open>Lemmas\<close>

lemmas page_view_defs = update_active_view_def reset_lucky_card_def start_animation_def stop_animation_def

lemma update_active_view_keeps [simp]:
  "lp_draw (update_active_view p) = lp_draw p" "lp_items (update_active_view p) = lp_items p"
  "lp_interval (update_active_view p) = lp_interval p" "lp_live (update_active_view p) = lp_live p"
  "lp_timeouts (update_active_view p) = lp_timeouts p" "lp_next (update_active_view p) = lp_next p"
  "lp_opened (update_active_view p) = lp_opened p"
  "lp_start_disabled (update_active_view p) = (lk_active (lp_draw p) = [])"
  "lp_auto_disabled (update_active_view p) = (lk_active (lp_draw p) = [])"
  by (simp_all add: update_active_view_def Let_def)

lemma distinct_nth_name:
  "distinct (map f xs) \<Longrightarrow> i < length xs \<Longrightarrow> k < length xs \<Longrightarrow> f (xs ! k) = f (xs ! i) \<Longrightarrow> k = i"
  using nth_eq_iff_index_eq [of "map f xs" k i] by simp

lemma toggle_marks:
  assumes ok: "marks_ok p" and run: "lp_interval p = None" and i: "i < length (lp_items p)"
  shows "marks_ok (toggle_exclusion_page i p)"
proof -
  let ?it = "lp_items p ! i" and ?ex = "lk_excluded (lp_draw p)"
  define ex' where "ex' = (if ei_name ?it \<in> set ?ex then removeAll (ei_name ?it) ?ex else ?ex @ [ei_name ?it])"
  define its' where "its' = (lp_items p)[i := ?it\<lparr>ei_excluded := ei_name ?it \<notin> set ?ex\<rparr>]"
  have d: "distinct (map ei_name (lp_items p))" using ok by (simp add: marks_ok_def)
  have nr: "\<not> lk_running (lp_draw p)" using ok run by (simp add: marks_ok_def)
  have st: "lp_draw (toggle_exclusion_page i p) = update_active ((lp_draw p)\<lparr>lk_excluded := ex'\<rparr>)"
    using run nr by (simp add: toggle_exclusion_page_def toggle_exclusion_def ex'_def Let_def)
  have it: "lp_items (toggle_exclusion_page i p) = its'"
    using run by (simp add: toggle_exclusion_page_def its'_def Let_def)
  have k: "ei_excluded (its' ! k) = (ei_name (its' ! k) \<in> set ex')" if kl: "k < length (lp_items p)" for k
  proof (cases "k = i")
    case True then show ?thesis using i by (simp add: ex'_def its'_def)
  next
    case False
    then have "ei_name (lp_items p ! k) \<noteq> ei_name ?it" using distinct_nth_name [OF d i kl] by blast
    then show ?thesis using ok kl False by (auto simp: marks_ok_def ex'_def its'_def)
  qed
  have "map ei_name its' = map ei_name (lp_items p)"
    using i list_update_id [of "map ei_name (lp_items p)" i] by (simp add: its'_def map_update)
  moreover have "length its' = length (lp_items p)" by (simp add: its'_def)
  moreover have "lp_interval (toggle_exclusion_page i p) = None"
    using run by (simp add: toggle_exclusion_page_def Let_def)
  ultimately show ?thesis using ok k st it run by (simp add: marks_ok_def update_active_def)
qed

lemma marks_ok_step:
  assumes "page_step xs p op p'" and "distinct (map stu_name xs)" and "marks_ok p"
  shows "marks_ok p'"
  using assms(1)
proof (cases rule: page_step.cases)
  case (select g) then show ?thesis using assms(2,3)
    by (simp add: marks_ok_def select_group_page_def select_lucky_group_def update_active_def
        render_exclusion_list_def reset_lucky_card_def comp_def distinct_map_filter Let_def)
next
  case (toggle i) then show ?thesis
    using toggle_marks [OF assms(3)] assms(3) by (cases "lp_interval p") (auto simp: toggle_exclusion_page_def)
next
  case reset then show ?thesis using assms(3)
    by (auto simp: marks_ok_def reset_exclusion_page_def reset_exclusion_def update_active_def comp_def)
next
  case manual then show ?thesis using assms(3)
    by (auto simp: marks_ok_def toggle_manual_def page_view_defs stop_lucky_def)
next
  case auto then show ?thesis using assms(3)
    by (auto simp: marks_ok_def start_auto_def page_view_defs)
next
  case auto_end then show ?thesis using assms(3)
    by (auto simp: marks_ok_def auto_timeout_def page_view_defs stop_lucky_def)
next
  case (frame j i) then show ?thesis using assms(3)
    by (auto simp: marks_ok_def lucky_frame_page_def lucky_frame_def split: sum.splits if_splits)
qed

lemma page_reach_marks: "page_reach xs p \<Longrightarrow> distinct (map stu_name xs) \<Longrightarrow> marks_ok p"
proof (induction rule: page_reach.induct)
  case (init p) then show ?case by (simp add: marks_ok_def page_fresh_def lucky_init_def)
next
  case (step p op p') then show ?case using marks_ok_step by blast
qed

lemma timers_ok_step:
  assumes "page_step xs p op p'" and "timers_ok p" and "\<forall>g. op = PSelect g \<longrightarrow> lp_interval p = None"
  shows "timers_ok p'"
  using assms(1)
proof (cases rule: page_step.cases)
  case (select g) then show ?thesis using assms(2,3)
    by (simp add: timers_ok_def select_group_page_def select_lucky_group_def update_active_def
        reset_lucky_card_def Let_def)
next
  case (toggle i) then show ?thesis using assms(2)
    by (auto simp: timers_ok_def toggle_exclusion_page_def toggle_exclusion_def update_active_def Let_def)
next
  case reset then show ?thesis using assms(2)
    by (auto simp: timers_ok_def reset_exclusion_page_def reset_exclusion_def update_active_def)
next
  case manual then show ?thesis using assms(2)
    by (auto simp: timers_ok_def toggle_manual_def page_view_defs stop_lucky_def)
next
  case auto then show ?thesis using assms(2)
    by (auto simp: timers_ok_def start_auto_def page_view_defs)
next
  case auto_end then show ?thesis using assms(2)
    by (auto simp: timers_ok_def auto_timeout_def page_view_defs stop_lucky_def)
next
  case (frame j i) then show ?thesis using assms(2)
    by (auto simp: timers_ok_def lucky_frame_page_def lucky_frame_def split: sum.splits if_splits)
qed

lemma page_reach_guarded_timers: "page_reach_guarded xs p \<Longrightarrow> timers_ok p"
proof (induction rule: page_reach_guarded.induct)
  case (init p) then show ?case by (simp add: timers_ok_def page_fresh_def lucky_init_def)
next
  case (step p op p') then show ?case using timers_ok_step by blast
qed

lemma opened_ok_step:
  assumes "page_step xs p op p'" and "opened_ok xs p"
  shows "opened_ok xs p'"
  using assms(1)
proof (cases rule: page_step.cases)
  case (select g) then show ?thesis using assms(2)
    by (auto simp: opened_ok_def select_group_page_def select_lucky_group_def update_active_def
        reset_lucky_card_def Let_def)
next
  case (toggle i) then show ?thesis using assms(2)
    by (auto simp: opened_ok_def toggle_exclusion_page_def toggle_exclusion_def update_active_def Let_def)
next
  case reset then show ?thesis using assms(2)
    by (auto simp: opened_ok_def reset_exclusion_page_def reset_exclusion_def update_active_def)
next
  case manual then show ?thesis using assms(2)
    by (auto simp: opened_ok_def toggle_manual_def page_view_defs stop_lucky_def split: option.splits)
next
  case auto then show ?thesis using assms(2)
    by (auto simp: opened_ok_def start_auto_def page_view_defs)
next
  case auto_end then show ?thesis using assms(2)
    by (auto simp: opened_ok_def auto_timeout_def page_view_defs stop_lucky_def split: option.splits)
next
  case (frame j i)
  have "i < length (lk_active (lp_draw p)) \<Longrightarrow> lk_active (lp_draw p) ! i \<in> set xs"
    using assms(2) nth_mem [of i "lk_active (lp_draw p)"] unfolding opened_ok_def by blast
  then show ?thesis using frame assms(2)
    by (auto simp: opened_ok_def lucky_frame_page_def lucky_frame_def split: sum.splits if_splits)
qed

lemma page_reach_opened: "page_reach xs p \<Longrightarrow> opened_ok xs p"
proof (induction rule: page_reach.induct)
  case (init p) then show ?case by (simp add: opened_ok_def page_fresh_def lucky_init_def)
next
  case (step p op p') then show ?case using opened_ok_step by blast
qed

lemma page_fresh_ex: "page_fresh ex_page0"
  by (simp add: page_fresh_def)

subsection \<open>Properties of the page\<close>

text \<open>C15: with distinct student names, in every page state reachable through group
  buttons, clicks on the exclusion list, the reset and draw buttons, the automatic draw's
  timeout and the frames of live intervals, the exclusion list shows the group's students
  in order and an element is marked excluded exactly when its student is left out of the
  draw.\<close>

theorem exclusion_marks_agree:
  assumes "distinct (map stu_name xs)" and "page_reach xs p"
  shows "map ei_name (lp_items p) = map stu_name (lk_group (lp_draw p)) \<and>
         (\<forall>e \<in> set (lp_items p). ei_excluded e = (ei_name e \<in> set (lk_excluded (lp_draw p))))"
proof -
  have ok: "marks_ok p" using page_reach_marks [OF assms(2,1)] .
  have "ei_excluded e = (ei_name e \<in> set (lk_excluded (lp_draw p)))" if e: "e \<in> set (lp_items p)" for e
  proof -
    obtain k where "k < length (lp_items p)" and "e = lp_items p ! k" using e by (auto simp: in_set_conv_nth)
    then show ?thesis using ok by (simp add: marks_ok_def)
  qed
  then show ?thesis using ok by (simp add: marks_ok_def)
qed

theorem exclusion_marks_agree_witness:
  "lk_excluded (lp_draw (toggle_exclusion_page 0 (select_group_page [ex_app_lk ''A'', ex_app_lk ''B''] ''g'' ex_page0))) = [''A''] \<and>
   ei_excluded (lp_items (toggle_exclusion_page 0 (select_group_page [ex_app_lk ''A'', ex_app_lk ''B''] ''g'' ex_page0)) ! 0) \<and>
   \<not> ei_excluded (lp_items (toggle_exclusion_page 0 (select_group_page [ex_app_lk ''A'', ex_app_lk ''B''] ''g'' ex_page0)) ! 1)"
proof -
  let ?xs = "[ex_app_lk ''A'', ex_app_lk ''B'']"
  let ?p1 = "select_group_page ?xs ''g'' ex_page0"
  let ?p2 = "toggle_exclusion_page 0 ?p1"
  have r1: "page_reach ?xs ?p1"
    by (rule page_reach.step [OF page_reach.init [OF page_fresh_ex] page_step.select])
  have l: "0 < length (lp_items ?p1)"
    by (simp add: select_group_page_def select_lucky_group_def update_active_def reset_lucky_card_def
        render_exclusion_list_def Let_def store_simps js_simps)
  have r2: "page_reach ?xs ?p2" by (rule page_reach.step [OF r1 page_step.toggle [OF l]])
  note defs = toggle_exclusion_page_def toggle_exclusion_def select_group_page_def select_lucky_group_def
    update_active_def reset_lucky_card_def render_exclusion_list_def lucky_init_def Let_def store_simps js_simps
  have ex: "lk_excluded (lp_draw ?p2) = [''A'']" and len: "length (lp_items ?p2) = 2"
    and n0: "ei_name (lp_items ?p2 ! 0) = ''A''" and n1: "ei_name (lp_items ?p2 ! 1) = ''B''"
    by (simp_all add: defs)
  have "\<forall>e \<in> set (lp_items ?p2). ei_excluded e = (ei_name e \<in> set [''A''])"
    using exclusion_marks_agree [OF _ r2] ex by simp
  moreover have "lp_items ?p2 ! 0 \<in> set (lp_items ?p2)" "lp_items ?p2 ! 1 \<in> set (lp_items ?p2)"
    using len by simp_all
  ultimately show ?thesis using ex n0 n1 by auto
qed

text \<open>With distinct names marking one element marks one student; with two students of the
  same name the clicked element alone is marked, while both leave the draw.\<close>

lemma duplicate_name_marks:
  "let xs = [ex_app_lk ''A'', ex_app_lk ''A'']; p = toggle_exclusion_page 0 (select_group_page xs ''g'' ex_page0) in
   page_reach xs p \<and> map ei_excluded (lp_items p) = [True, False] \<and> lk_active (lp_draw p) = []"
proof -
  let ?xs = "[ex_app_lk ''A'', ex_app_lk ''A'']"
  let ?p1 = "select_group_page ?xs ''g'' ex_page0"
  have r1: "page_reach ?xs ?p1"
    by (rule page_reach.step [OF page_reach.init [OF page_fresh_ex] page_step.select])
  have l: "0 < length (lp_items ?p1)"
    by (simp add: select_group_page_def select_lucky_group_def update_active_def reset_lucky_card_def
        render_exclusion_list_def Let_def store_simps js_simps)
  have "page_reach ?xs (toggle_exclusion_page 0 ?p1)" by (rule page_reach.step [OF r1 page_step.toggle [OF l]])
  then show ?thesis
    by (simp add: toggle_exclusion_page_def toggle_exclusion_def select_group_page_def select_lucky_group_def
        update_active_def reset_lucky_card_def render_exclusion_list_def lucky_init_def Let_def store_simps js_simps)
qed

text \<open>C29: as long as the group buttons are not pressed during a draw, the only interval
  the draw leaves live is \<open>luckyIntervalId\<close>: while a draw runs exactly that one fires
  frames, after \<open>stopAnimation\<close> none does, and at most one automatic stop is pending.\<close>

theorem one_draw_interval:
  assumes "page_reach_guarded xs p"
  shows "lp_live p = (case lp_interval p of None \<Rightarrow> [] | Some j \<Rightarrow> [j]) \<and>
         lk_running (lp_draw p) = (lp_interval p \<noteq> None) \<and> lp_timeouts p \<le> 1"
  using page_reach_guarded_timers [OF assms] by (simp add: timers_ok_def)

theorem one_draw_interval_witness:
  "lp_live (start_auto (select_group_page [ex_app_lk ''A''] ''g'' ex_page0)) = [1] \<and>
   lp_timeouts (start_auto (select_group_page [ex_app_lk ''A''] ''g'' ex_page0)) = 1"
proof -
  let ?xs = "[ex_app_lk ''A'']"
  let ?p1 = "select_group_page ?xs ''g'' ex_page0"
  have r1: "page_reach_guarded ?xs ?p1"
    by (rule page_reach_guarded.step [OF page_reach_guarded.init [OF page_fresh_ex] page_step.select]) simp
  have a: "\<not> lp_auto_disabled ?p1"
    by (simp add: select_group_page_def select_lucky_group_def update_active_def reset_lucky_card_def
        Let_def store_simps js_simps)
  have r2: "page_reach_guarded ?xs (start_auto ?p1)"
    by (rule page_reach_guarded.step [OF r1 page_step.auto [OF a]]) simp
  have "lp_interval (start_auto ?p1) = Some 1"
    by (simp add: start_auto_def start_animation_def select_group_page_def select_lucky_group_def
        update_active_def reset_lucky_card_def Let_def store_simps js_simps)
  moreover have "lp_timeouts (start_auto ?p1) = 1"
    by (simp add: start_auto_def start_animation_def select_group_page_def select_lucky_group_def
        update_active_def reset_lucky_card_def Let_def store_simps js_simps)
  ultimately show ?thesis using one_draw_interval [OF r2] by simp
qed

text \<open>A group button pressed during a manual draw enables the automatic button again
  (\<open>updateActiveCandidates\<close>); the automatic draw then overwrites \<open>luckyIntervalId\<close>, and
  once it stops, the first interval is still live and keeps drawing students.\<close>

lemma draw_interval_leak:
  "let xs = [ex_app_lk ''A''];
       p = auto_timeout (start_auto (select_group_page xs ''g'' (toggle_manual (select_group_page xs ''g'' ex_page0)))) in
   page_reach xs p \<and> lp_interval p = None \<and> lp_live p = [1] \<and> \<not> lk_running (lp_draw p) \<and>
   page_step xs p (PFrame 1 0) (snd (lucky_frame_page 0 p)) \<and>
   lk_current (lp_draw (snd (lucky_frame_page 0 p))) = Some (ex_app_lk ''A'')"
proof -
  let ?xs = "[ex_app_lk ''A'']"
  let ?p1 = "select_group_page ?xs ''g'' ex_page0"
  let ?p2 = "toggle_manual ?p1"
  let ?p3 = "select_group_page ?xs ''g'' ?p2"
  let ?p4 = "start_auto ?p3"
  let ?p5 = "auto_timeout ?p4"
  note defs = select_group_page_def select_lucky_group_def update_active_def reset_lucky_card_def
    toggle_manual_def start_auto_def auto_timeout_def page_view_defs stop_lucky_def Let_def store_simps js_simps
  have r1: "page_reach ?xs ?p1"
    by (rule page_reach.step [OF page_reach.init [OF page_fresh_ex] page_step.select])
  have r2: "page_reach ?xs ?p2" by (rule page_reach.step [OF r1 page_step.manual]) (simp add: defs)
  have r3: "page_reach ?xs ?p3" by (rule page_reach.step [OF r2 page_step.select])
  have r4: "page_reach ?xs ?p4" by (rule page_reach.step [OF r3 page_step.auto]) (simp add: defs)
  have r5: "page_reach ?xs ?p5" by (rule page_reach.step [OF r4 page_step.auto_end]) (simp add: defs)
  have p5: "lp_interval ?p5 = None" "lp_live ?p5 = [1]" "\<not> lk_running (lp_draw ?p5)"
    "lk_active (lp_draw ?p5) = [ex_app_lk ''A'']"
    by (simp_all add: defs)
  from p5(2) have l1: "1 \<in> set (lp_live ?p5)" by simp
  from p5(4) have l0: "0 < length (lk_active (lp_draw ?p5))" by simp
  have f: "page_step ?xs ?p5 (PFrame 1 0) (snd (lucky_frame_page 0 ?p5))"
    using page_step.frame [OF l1] l0 by blast
  have "lk_current (lp_draw (snd (lucky_frame_page 0 ?p5))) = Some (ex_app_lk ''A'')"
    using p5 by (simp add: lucky_frame_page_def lucky_frame_def)
  then show ?thesis using r5 p5 f by (simp add: Let_def)
qed

end
