(* ===== verification/Spec2Isabelle.thy ===== *)
theory Spec2Isabelle
  imports Ranking Progress History Gifts Actions Timer Lucky Widgets Bible Dialog Panels Handlers Requests Session Submit LuckyPage
begin

text \<open>
  A verification development of the class point system, a single browser script
  \<open>src/script.js\<close> that fetches a snapshot of a spreadsheet (students, title rules, logs,
  gifts, monthly kings) and derives from it the dashboard of a classroom: per-group
  ranks and medals, titles and frames, the experience bar and the monthly comparison of
  the student modal, the paginated history, the gift shelf, and a countdown timer. The
  development is a shallow embedding: every function of the script that computes or
  changes state is an executable HOL definition next to the lines it translates, and the
  global variables the handlers share are records passed explicitly.

  \<^bold>\<open>Theories.\<close>
  \<^item> \<open>Prelude\<close>: the collections \<open>js_simps\<close> and \<open>store_simps\<close> that evaluate the
    model on concrete data, descending sortedness, \<open>slice\<close> (\<open>Array.prototype.slice\<close>
    on non-negative bounds), and shared lemmas on cardinalities, \<open>Max\<close> and multisets.
  \<^item> \<open>JsValues\<close>: the JavaScript semantics the script relies on. Spreadsheet cells are
    \<open>jsval\<close> (number, text, null, undefined); \<open>Number\<close>, \<open>String\<close>, \<open>trim\<close> and
    \<open>x || 0\<close> are \<open>js_number\<close>, \<open>js_string\<close>, \<open>js_trim\<close>, \<open>coerce\<close>;
    \<open>Array.prototype.sort\<close> with a comparator is the stable insertion sort \<open>js_sort\<close>,
    proved equal to \<open>sort_key\<close> whenever the comparator is negative exactly when a key
    is smaller (\<open>js_sort_eq_sort_key_on\<close>); objects used as dictionaries are association
    lists with the for-in key order (\<open>js_object_order\<close>, \<open>obj_push\<close>); doubles with
    infinities and \<open>NaN\<close> are \<open>xnum\<close>. Scores are integers (the sheet holds whole points);
    printing and reading an integer back is the identity (\<open>str_to_num_int_to_string\<close>).
  \<^item> \<open>Store\<close>: the records of the snapshot (\<open>student\<close>, \<open>title_rule\<close>, \<open>title_config\<close>,
    \<open>gift\<close>, \<open>log_entry\<close>) and the score and group readings every component shares
    (\<open>cum_score\<close>, \<open>month_score\<close>, \<open>group_trim\<close>, \<open>group_key\<close>).
  \<^item> \<open>Ranking\<close>: \<open>getGroupRankings\<close> (bucketing, the score sort, the dense-rank loop,
    the writes into \<open>rankMap\<close>) and the medal of \<open>renderStudents\<close>. The map equals the
    specification \<open>rankings_spec\<close> (one more than the number of distinct higher scores in
    the group) when names are distinct (C1); it ignores the input order (C2), has no
    gaps (C3), reverses the score order (C4), and gives the group's top scorer gold (C5).
  \<^item> \<open>Tiers\<close>: the title loop and frame of \<open>renderStudents\<close> and the title page
    \<open>renderTitles\<close>. The resolver returns the first configured rule among those with the
    highest reached threshold (C6); its sentinel cases (C7); the in-place rule sort of the
    title page does not change any card (C8); frames are the resolver on fixed thresholds
    (C9); holder lists (C10) and their order (lemma \<open>render_titles_order\<close>); the page
    ignores \<open>enabled\<close> (lemma \<open>render_titles_ignores_enabled\<close>).
  \<^item> \<open>Progress\<close>: \<open>updateLevelProgress\<close>. The bar is a finite width in [0, 100] even on a
    zero range (C13); the missing points (C14); a bar below full while points are missing
    with non-negative thresholds (lemma \<open>progress_below_full\<close>); the modal's title agrees with the card's for
    distinct thresholds (C16) and not for duplicates (lemma \<open>progress_duplicate_threshold\<close>);
    the monthly comparison equals its specification (C17), with its corollaries as lemmas
    (a trailing student's leader, ties lead, no activity exactly when nobody scored);
    a negative threshold gives a full bar with points missing (lemma
    \<open>progress_negative_threshold_full\<close>).
  \<^item> \<open>History\<close>: \<open>renderStudentHistory\<close>, \<open>changeHistoryPage\<close> and the student branch
    of \<open>openScoreModal\<close> over the cursor state; an inductive reachability relation and
    the cursor invariant by rule induction (C24), the pages partition the logs (C25); the
    rendered page and buttons, and next-then-previous, are lemmas.
  \<^item> \<open>Gifts\<close>: \<open>renderGifts\<close>: a tier row is the stable sort on (sold out, score) (C28),
    available first and ascending (lemma \<open>tier_order\<close>); the rows show every gift in [-9999, 99999]
    exactly once and nothing else (C30); a null quantity is sold out and the example of
    the specification holds (lemmas).
  \<^item> \<open>App\<close>: the page state and its handlers (\<open>window.onload\<close>, the refresh of
    \<open>updateScores\<close>/\<open>sendScoreRecord\<close>, \<open>toggleSort\<close>, \<open>filterStudents\<close>,
    \<open>logoutTeacher\<close>, \<open>renderPage\<close>) and the cards of \<open>renderStudents\<close>, composing
    \<open>Ranking\<close> and \<open>Tiers\<close>. The sorted mode orders by score on numeric stores (C33);
    \<open>originalStudents\<close> is frozen at the first load in every reachable state (C35), so
    refreshed scores never reach the unsorted view, and a full render re-sorts
    \<open>allStudents\<close> by name under the sorted mode (lemmas).
  \<^item> \<open>Actions\<close>: the teacher's handlers: the check of a typed score and the target
    of \<open>sendScoreRecord\<close>, the batch selector over \<open>batchExcludedSet\<close> as a step
    relation, the log filter of \<open>renderLogs\<close>, \<open>renderMarquee\<close>, the options of
    \<open>updateLogStudentOptions\<close>, and \<open>loginTeacher\<close>. A typed score is refused exactly when
    empty or at most 0 as a number, so non-numeric text is submitted (C31); with distinct
    names a custom target list is never empty (C34); a stored password with leading
    blanks never matches (lemma \<open>login_padded_password\<close>).
  \<^item> \<open>Dialog\<close>: \<open>openScoreModal\<close> composing \<open>Progress\<close>, \<open>History\<close> and the batch
    selector; the score form of \<open>setScoreCategory\<close>, \<open>updateScoreOptions\<close> and
    \<open>toggleCustomInput\<close> as a step relation of the teacher's clicks with its invariant
    \<open>form_ok\<close>; and the payload of \<open>sendScoreRecord\<close>: a preset of the category or an
    accepted typed score, and an item of the category or the empty text (C27).
  \<^item> \<open>Panels\<close>: the filter buttons, the group tiles of \<open>renderGroups\<close> (a group's button
    shows the names its tile lists, lemma \<open>group_tile_cards\<close>), the two selects of the log
    table as a step relation whose student filter always belongs to the selected group
    (C18), \<open>initLuckyDraw\<close> and \<open>switchCategory\<close>.
  \<^item> \<open>Handlers\<close>: the inline \<open>onclick\<close> texts of \<open>getMedalHtml\<close> and of the log table's
    edit button, read back by a reader of the JavaScript call fragment they use: the
    medal's call carries exactly its arguments for texts without quotes, backslashes,
    line breaks, double quotes and ampersands (C26), and a quote in a name breaks or
    shifts it (lemma \<open>medal_onclick_quote\<close>).
  \<^item> \<open>Requests\<close>: the request of \<open>callApi\<close> (a \<open>GET\<close> whose urlencoded query reads back
    as the action and the parameters, lemma \<open>read_request_roundtrip\<close>, or a \<open>POST\<close> with
    a JSON body) and its error check; \<open>openEditLogModal\<close> and \<open>doEditLog\<close>: a log row
    opened from its edit button and saved unchanged sends its own values, the score as
    \<open>Number\<close> prints it, and an empty student or item is refused (C12).
  \<^item> \<open>Session\<close>: \<open>loginTeacher\<close> and \<open>logoutTeacher\<close> over \<open>currentTeacher\<close> and the
    overlays, \<open>showRankingModal\<close> as a medal's handler opens it (lemma
    \<open>medal_click_shows\<close>), \<open>openELearning\<close> (a numeric settings cell throws) and
    \<open>handleImageError\<close>.
  \<^item> \<open>Submit\<close>: the three buttons that wait for a request (\<open>sendScoreRecord\<close>,
    \<open>updateScores\<close>, \<open>doEditLog\<close>) as a step relation over the requests in flight,
    with dialog, click and response steps in any interleaving: each button has at most
    one request in flight and is disabled exactly while it has one, and
    \<open>originalStudents\<close> keeps the first load (C11); an update answered after a later
    score puts the older snapshot back (lemma \<open>stale_update_overwrites\<close>).
  \<^item> \<open>Lucky\<close>: the lucky draw over \<open>currentGroupStudents\<close>, \<open>excludedNames\<close>,
    \<open>activeCandidates\<close> and the animation, as a step relation with the random index of a
    frame as a parameter: the candidates stay the members not excluded (lemma
    \<open>lucky_reach_inv\<close>); without a group switch during an animation no frame throws
    (C36), while a switch to an empty group does (lemma \<open>lucky_switch_crash\<close>).
  \<^item> \<open>LuckyPage\<close>: the page over that state: \<open>renderExclusionList\<close> and the
    \<open>excluded\<close> marks, \<open>updateLuckyCardDisplay\<close>, \<open>resetLuckyCard\<close>, the buttons of
    \<open>updateActiveCandidates\<close>, \<open>toggleLuckyDrawManual\<close> and \<open>startAutoLuckyDraw\<close>, and
    every interval \<open>startAnimation\<close> sets, with the automatic draw's timeout, as a step
    relation in which every live interval fires frames. With distinct names the marks
    agree with \<open>excludedNames\<close> (C15; with a repeated name they do not, lemma
    \<open>duplicate_name_marks\<close>); without group switches during a draw exactly
    \<open>luckyIntervalId\<close> is live (C29), while a switch re-enables the automatic button and
    leaks an interval that keeps drawing after the stop (lemma \<open>draw_interval_leak\<close>).
  \<^item> \<open>Timer\<close>: the countdown handlers and the interval tick as a step relation: the
    invariant by rule induction (C38), the countdown rings after exactly n + 1 ticks
    (C39), the fields \<open>addTime\<close> writes read back as the total (C40); the whole interval
    as the loop \<open>run_interval\<close>, total by a measure, ends stopped with the alarm (C22); the
    \<open>mm:ss\<close> text of \<open>updateTimerDisplay\<close> reads back as minutes and seconds (lemma).
  \<^item> \<open>Widgets\<close>: the dice (\<open>selectDiceType\<close>, \<open>rollDice\<close>) and the loading bar
    (\<open>startLoadingSimulation\<close>, \<open>finishLoading\<close>) as step relations with each
    \<open>Math.random()\<close> a parameter in [0, 1): a roll shows every face of [1, m] and no other
    (C32); the bar reaches 95 percent within 95 ticks and never passes it while the
    request is pending (C20), and shows 100 percent, with its interval cleared, once the
    request is answered, whatever its outcome (C37).
  \<^item> \<open>Bible\<close>: \<open>renderBibleVerses\<close> with \<open>new Date\<close> as a parameter: the featured verse is
    the first, by descending start date, whose week contains today or which is
    highlighted, the others follow in that order, and verses with invalid dates are
    dropped (C19).
  \<^item> \<open>Ranking\<close> also shows that the groups object of \<open>getGroupRankings\<close> is a well-formed
    dictionary in for-in order (C23).
  \<^item> This theory: the property that spans the components, C21: every student card of
    a fresh page shows the dense rank's medal, the specified title and the specified
    frame, composing the refinements of \<open>Ranking\<close> and \<open>Tiers\<close> through \<open>App\<close>.

  \<^bold>\<open>Bounds and fuel.\<close> Every loop of the script runs over a finite array, so every
  definition is structurally recursive or a fold and total. The unbounded loops are the
  \<open>setInterval\<close> callbacks (timer, lucky draw, dice frames, loading bar), modelled as one
  step of a relation per callback (the lucky page keeps the list of live intervals, each
  of which may fire), so no fuel is needed; C39 shows that n + 1 ticks end
  the countdown, C22 that the timer's whole interval is a terminating \<open>function\<close> (the
  measure is the seconds left plus one), and C20 that 95 loading ticks fill the bar
  whatever the random draws. The reader of inline handlers (\<open>read_args\<close>) takes as fuel
  the length of the text, more than the number of arguments it reads. Widths are
  JavaScript doubles; only the bar divides, and that division is modelled with its
  infinities and \<open>NaN\<close>; random numbers are rationals in [0, 1).

  \<^bold>\<open>Not modelled.\<close> The network itself: \<open>fetch\<close> and \<open>response.json()\<close> (responses
  enter as the \<open>snapshot\<close> values the handlers receive and the \<open>api_outcome\<close> of the
  first load; the encoders of \<open>URLSearchParams\<close> and \<open>JSON.stringify\<close> are modelled
  from their specifications on flat objects of texts); all DOM and HTML output beyond
  the values the cards, rows, labels, dialogs and handler texts show (CSS classes other
  than the exclusion marks and the card's animation flag, and the active state of the
  group buttons, are display only); the alarm sound. \<open>new Date\<close> is a parameter of the
  Bible verses
  (local wall-clock milliseconds, a fixed offset, no daylight-saving jumps); with an
  invalid start date the comparator of the verse sort is inconsistent and the engine's
  order is taken to be the stable insertion sort \<open>js_sort\<close>. Non-integer and exponent
  number syntax in text cells reads as \<open>NaN\<close> in \<open>str_to_num\<close> (the typed score of
  \<open>sendScoreRecord\<close> is read with decimals, \<open>str_to_dec\<close>), \<open>localeCompare\<close> and the
  default \<open>sort\<close> are taken to be the code-point order, and objects used as dictionaries
  have no inherited keys (a group named \<open>constructor\<close> would make the script throw).
\<close>

subsection \<open>The student card against the specifications\<close>

text \<open>C21: on a page whose student list is fresh (sorted mode, or no refresh since the load)
  and whose names are distinct, every card of renderStudents shows a student of the
  list with its scores and group, the medal of its dense rank in its group, the title
  of the tier resolver's specification when titles are enabled, and the frame of the
  resolver's specification on the three frame thresholds.\<close>

theorem card_spec:
  assumes dist: "distinct (map stu_name (all_students st))"
    and fresh: "is_sorted st \<or> original_students st = all_students st"
    and c: "c \<in> set (render_students st)"
  shows "\<exists>s \<in> set (all_students st). card_name c = stu_name s \<and> card_score c = total_score s \<and>
     card_cum c = cum_score s \<and> card_group c = group_key s \<and>
     card_medal c = (let r = dense_rank (group_members (all_students st) (group_key s)) s in
        if r = 1 then Some Gold else if r = 2 then Some Silver else if r = 3 then Some Bronze else None) \<and>
     card_title c = (if tc_enabled (app_titles st) \<and> tc_rules (app_titles st) \<noteq> []
        then resolve_spec (tc_rules (app_titles st)) (cum_score s) else None) \<and>
     card_frame c = (case resolve_spec frame_rules (cum_score s) of None \<Rightarrow> [] | Some r \<Rightarrow> rule_title r)"
proof -
  have "set (if is_sorted st then all_students st else original_students st) = set (all_students st)"
    using fresh by auto
  then obtain s where s: "s \<in> set (all_students st)" and cs: "c = student_card st (get_group_rankings (all_students st)) s"
    using render_students_mem [OF c] by auto
  have rk: "get_group_rankings (all_students st) (stu_name s) = Some (dense_rank (group_members (all_students st) (group_key s)) s)"
    by (rule get_group_rankings_at [OF dist s])
  show ?thesis
    using s rk by (auto simp: cs student_card_def medal_of_def student_title_def resolve_title_eq_spec
      frame_class_eq_resolver Let_def)
qed

theorem card_spec_witness:
  "card_medal (render_students (load_snapshot (ex_snap [ex_app_stu ''A'' 10, ex_app_stu ''B'' 50])) ! 1) = Some Gold \<and>
   card_frame (render_students (load_snapshot (ex_snap [ex_app_stu ''A'' 10, ex_app_stu ''B'' 50])) ! 1) = ''frame-silver''"
  using card_spec [of "load_snapshot (ex_snap [ex_app_stu ''A'' 10, ex_app_stu ''B'' 50])"
      "render_students (load_snapshot (ex_snap [ex_app_stu ''A'' 10, ex_app_stu ''B'' 50])) ! 1"]
  by (simp add: app_eval rank_eval js_simps store_simps)

end
